(* ===== verification/Prelude.thy ===== *)
theory Prelude
  imports Main "HOL-Library.Word"
begin

text \<open>
  Shared vocabulary of the development: the fixed-width integers of the C++ code, the
  exceptions it throws (every exception class is one constructor, carrying the message
  that \<open>what()\<close> returns where the class has one), the result of an operation that may
  throw, the decimal printing of \<open>std::to_string\<close>, the substring search of
  \<open>std::string::find\<close>, and little-endian byte layouts.

  An operation that only reads or computes and may throw has a result of type
  \<open>'a result\<close>. An operation of a component with state has a result of type
  \<open>('s, 'a) outcome\<close>: the state is returned also when the operation throws, because
  a C++ method that throws keeps the writes it did before.
\<close>

unbundle bit_operations_syntax

section \<open>Collections of facts\<close>

named_theorems wire_simps \<open>reading back what a writer wrote\<close>
named_theorems wf_intros \<open>well-formedness of the states that operations return\<close>
named_theorems op_defs \<open>definitions of the operations, for case analysis over a step\<close>

section \<open>Integers, exceptions, results\<close>

type_synonym byte = "8 word"
type_synonym u8 = "8 word"
type_synonym u16 = "16 word"
type_synonym u32 = "32 word"
type_synonym u64 = "64 word"

datatype exn =
    InvalidIdError
  | InvalidQuantityError
  | InvalidEnumError string
  | InvalidAffinityError
  | UnsupportedTopologyError string
  | BackendError string
  | WorkerError string
  | InvalidTransitionError string
  | MigrationError string
  | ReservationError string
  | WireError string
  | ProtocolError string
  | PersistenceError string
  | RuntimeError string
  | JsonError string

fun what :: "exn \<Rightarrow> string" where
  "what InvalidIdError = ''invalid identifier''"
| "what InvalidQuantityError = ''invalid physical quantity''"
| "what (InvalidEnumError m) = m"
| "what InvalidAffinityError = ''invalid or impossible affinity mask''"
| "what (UnsupportedTopologyError m) = m"
| "what (BackendError m) = m"
| "what (WorkerError m) = m"
| "what (InvalidTransitionError m) = m"
| "what (MigrationError m) = m"
| "what (ReservationError m) = m"
| "what (WireError m) = m"
| "what (ProtocolError m) = m"
| "what (PersistenceError m) = m"
| "what (RuntimeError m) = m"
| "what (JsonError m) = m"

type_synonym 'a result = "exn + 'a"
type_synonym ('s, 'a) outcome = "'s \<times> (exn + 'a)"

definition rbind :: "'a result \<Rightarrow> ('a \<Rightarrow> 'b result) \<Rightarrow> 'b result" where
  "rbind r f = (case r of Inl e \<Rightarrow> Inl e | Inr x \<Rightarrow> f x)"

fun is_ok :: "'a result \<Rightarrow> bool" where
  "is_ok (Inr x) = True"
| "is_ok (Inl e) = False"

lemma rbind_simps [simp]:
  "rbind (Inl e) f = Inl e"
  "rbind (Inr x) f = f x"
  by (simp_all add: rbind_def)

lemma rbind_Inr_iff: "rbind r f = Inr y \<longleftrightarrow> (\<exists>x. r = Inr x \<and> f x = Inr y)"
  by (cases r) auto

lemma rbind_assoc: "rbind (rbind r f) g = rbind r (\<lambda>x. rbind (f x) g)"
  by (cases r) auto

lemma is_ok_iff: "is_ok r \<longleftrightarrow> (\<exists>x. r = Inr x)"
  by (cases r) auto

lemma is_ok_if: "is_ok (if c then Inl e else x) \<longleftrightarrow> \<not> c \<and> is_ok x"
  by simp

section \<open>Decimal printing and substring search\<close>

definition digit_char :: "nat \<Rightarrow> char" where
  "digit_char d = char_of (48 + d)"

fun dec_digits :: "nat \<Rightarrow> string" where
  "dec_digits n = (if n < 10 then [digit_char n] else dec_digits (n div 10) @ [digit_char (n mod 10)])"

declare dec_digits.simps [simp del]

definition std_to_string :: "'l::len word \<Rightarrow> string" where
  "std_to_string w = dec_digits (unat w)"

fun is_prefix_of :: "'a list \<Rightarrow> 'a list \<Rightarrow> bool" where
  "is_prefix_of [] ys = True"
| "is_prefix_of (x # xs) [] = False"
| "is_prefix_of (x # xs) (y # ys) = (x = y \<and> is_prefix_of xs ys)"

fun str_contains :: "string \<Rightarrow> string \<Rightarrow> bool" where
  "str_contains needle [] = (needle = [])"
| "str_contains needle (c # cs) = (is_prefix_of needle (c # cs) \<or> str_contains needle cs)"

lemma digit_char_neq:
  assumes "d < 10" and "\<not> ((48::nat) \<le> of_char c \<and> of_char c < (58::nat))"
  shows "digit_char d \<noteq> c"
proof
  assume "digit_char d = c"
  then have "of_char c = (48 + d :: nat)"
    using assms(1) by (auto simp: digit_char_def of_char_of take_bit_eq_mod)
  with assms show False by simp
qed

lemma dec_digits_set: "c \<in> set (dec_digits n) \<Longrightarrow> \<exists>d<10. c = digit_char d"
proof (induction n rule: dec_digits.induct)
  case (1 n)
  show ?case
  proof (cases "n < 10")
    case True
    with "1.prems" show ?thesis by (auto simp: dec_digits.simps [of n])
  next
    case False
    with "1.prems" have "c \<in> set (dec_digits (n div 10)) \<or> c = digit_char (n mod 10)"
      by (auto simp: dec_digits.simps [of n])
    moreover have "n mod 10 < 10" by simp
    ultimately show ?thesis using "1.IH" False by blast
  qed
qed

lemma str_contains_skip:
  assumes "c \<notin> set pre"
  shows "str_contains (c # cs) (pre @ rest) = str_contains (c # cs) rest"
  using assms by (induction pre) auto

section \<open>Little-endian layouts\<close>

text \<open>
  \<open>le_bytes n v\<close> is the loop that appends byte \<open>i\<close> of \<open>v\<close> for \<open>i < n\<close>;
  \<open>le_word n bs\<close> is the loop that ors byte \<open>k\<close>, shifted by \<open>8 * k\<close>, into an
  accumulator that starts at zero.
\<close>

definition le_bytes :: "nat \<Rightarrow> 'l::len word \<Rightarrow> byte list" where
  "le_bytes n v = map (\<lambda>i. ucast (drop_bit (8 * i) v AND 255)) [0..<n]"

definition le_word :: "nat \<Rightarrow> byte list \<Rightarrow> 'l::len word" where
  "le_word n bs = fold (\<lambda>k v. v OR push_bit (8 * k) (ucast (bs ! k))) [0..<n] 0"

lemma length_le_bytes [simp]: "length (le_bytes n v) = n"
  by (simp add: le_bytes_def)

lemma bit_fold_or:
  "bit (fold (\<lambda>k v. v OR f k) ks (a :: 'l::len word)) i \<longleftrightarrow> bit a i \<or> (\<exists>k\<in>set ks. bit (f k) i)"
  by (induction ks arbitrary: a) (auto simp: bit_or_iff)

lemma bit_le_word:
  "bit (le_word n bs :: 'l::len word) i \<longleftrightarrow> i < LENGTH('l) \<and> i div 8 < n \<and> bit (bs ! (i div 8)) (i mod 8)"
proof
  assume "bit (le_word n bs :: 'l word) i"
  then obtain k where k: "k < n" and b: "bit (push_bit (8 * k) (ucast (bs ! k)) :: 'l word) i"
    by (auto simp: le_word_def bit_fold_or)
  from b have i: "i < LENGTH('l)" "8 * k \<le> i" and c: "bit (bs ! k) (i - 8 * k)"
    by (auto simp: bit_push_bit_iff bit_ucast_iff dest: bit_imp_le_length)
  from c have "i - 8 * k < 8" by (auto dest: bit_imp_le_length)
  with i obtain d where "i = d + 8 * k" and "d < 8" by (metis le_add_diff_inverse2)
  then have "i div 8 = k" and "i mod 8 = i - 8 * k" by auto
  with k i c show "i < LENGTH('l) \<and> i div 8 < n \<and> bit (bs ! (i div 8)) (i mod 8)" by simp
next
  assume a: "i < LENGTH('l) \<and> i div 8 < n \<and> bit (bs ! (i div 8)) (i mod 8)"
  then have "bit (push_bit (8 * (i div 8)) (ucast (bs ! (i div 8))) :: 'l word) i"
    by (auto simp: bit_push_bit_iff bit_ucast_iff minus_mult_div_eq_mod)
  with a show "bit (le_word n bs :: 'l word) i" by (auto simp: le_word_def bit_fold_or)
qed

lemma bit_255_byte: "bit (255 :: 'l::len word) i \<longleftrightarrow> i < LENGTH('l) \<and> i < 8"
proof -
  have eq: "(255 :: 'l word) = mask 8" by (simp add: mask_eq_exp_minus_1)
  show ?thesis unfolding eq by (auto simp: bit_mask_iff)
qed

lemma bit_le_bytes:
  "k < n \<Longrightarrow> bit (le_bytes n (v :: 'l::len word) ! k) j \<longleftrightarrow> j < 8 \<and> bit v (8 * k + j)"
  unfolding le_bytes_def
  by (simp only: nth_map length_upt nth_upt bit_ucast_iff bit_and_iff bit_drop_bit_eq bit_255_byte
      comp_apply) (auto simp: add.commute dest: bit_imp_le_length)

lemma le_word_le_bytes [wire_simps]:
  assumes "LENGTH('l) \<le> 8 * n"
  shows "le_word n (le_bytes n v @ rest) = (v :: 'l::len word)"
proof (rule bit_word_eqI)
  fix i assume i: "i < LENGTH('l)"
  with assms have k: "i div 8 < n" by linarith
  then show "bit (le_word n (le_bytes n v @ rest) :: 'l word) i = bit v i"
    using i by (simp add: bit_le_word nth_append bit_le_bytes)
qed

lemma le_word_append: "length bs \<ge> n \<Longrightarrow> le_word n (bs @ rest) = le_word n bs"
  by (rule bit_word_eqI) (auto simp: bit_le_word nth_append)

lemma le_bytes_le_word:
  assumes "length bs = n" and "8 * n = LENGTH('l)"
  shows "le_bytes n (le_word n bs :: 'l::len word) = bs"
proof (rule nth_equalityI)
  fix k assume "k < length (le_bytes n (le_word n bs :: 'l word))"
  then have k: "k < n" by simp
  show "le_bytes n (le_word n bs :: 'l word) ! k = bs ! k"
  proof (rule bit_word_eqI)
    fix j assume j: "j < LENGTH(8)"
    then have "8 * k + j < LENGTH('l)" using k assms(2) by simp
    then show "bit (le_bytes n (le_word n bs :: 'l word) ! k) j = bit (bs ! k) j"
      using j k by (simp add: bit_le_bytes bit_le_word)
  qed
qed (simp add: assms)

section \<open>Words as bounded naturals\<close>

lemma xor_cancel_left: "(a :: 'l::len word) XOR b = a XOR c \<longleftrightarrow> b = c"
  by (auto simp: bit_eq_iff bit_xor_iff)

lemma xor_cancel_right: "(b :: 'l::len word) XOR a = c XOR a \<longleftrightarrow> b = c"
  by (auto simp: bit_eq_iff bit_xor_iff)

lemma unat_add_no_wrap:
  "unat (a :: 'l::len word) + unat b < 2 ^ LENGTH('l) \<Longrightarrow> unat (a + b) = unat a + unat b"
  by (simp add: unat_word_ariths)

lemma unat_sub_no_wrap: "(b :: 'l::len word) \<le> a \<Longrightarrow> unat (a - b) = unat a - unat b"
  by (rule unat_sub)

lemma unat_lt_2p64 [simp]: "unat (w :: u64) < 18446744073709551616"
  using unsigned_less [of w, where ?'a = nat] by simp

lemma unat_lt_2p32 [simp]: "unat (w :: u32) < 4294967296"
  using unsigned_less [of w, where ?'a = nat] by simp

lemma word_less_succ:
  assumes "(w :: 'l::len word) \<noteq> - 1"
  shows "w < w + 1" and "unat (w + 1) = unat w + 1"
proof -
  from assms have "w < - 1" using word_order.not_eq_extremum by blast
  then have "unat w < 2 ^ LENGTH('l) - 1" by (simp add: word_less_nat_alt unsigned_minus_1_eq_mask mask_eq_exp_minus_1)
  then show u: "unat (w + 1) = unat w + 1" by (simp add: unat_word_ariths)
  then show "w < w + 1" by (simp add: word_less_nat_alt)
qed

lemma word_gt_unat: "(a :: 'l::len word) > b \<longleftrightarrow> unat a > unat b"
  by (simp add: word_less_nat_alt)

end
