(* ===== verification/Ordered_Map.thy ===== *)
theory Ordered_Map
  imports Prelude "HOL-Library.Multiset"
begin

text \<open>
  \<open>std::map\<close>: a finite map whose iteration order is the order of its keys. It is the type
  of the strictly sorted association lists, so two maps with the same lookups are equal.
  The interface every container of the runtime is used through is the locale
  \<open>assoc_store\<close>: lookup, insertion, deletion and iteration with their laws. The facts
  on sums over the stored values, which carry every accounting proof, are proved once
  inside that locale and reach \<open>omap\<close> by interpretation.
\<close>

section \<open>Strictly sorted association lists\<close>

abbreviation keys_ascending :: "('k::linorder \<times> 'v) list \<Rightarrow> bool" where
  "keys_ascending ps \<equiv> sorted_wrt (<) (map fst ps)"

fun assoc_put :: "'k::linorder \<Rightarrow> 'v \<Rightarrow> ('k \<times> 'v) list \<Rightarrow> ('k \<times> 'v) list" where
  "assoc_put k v [] = [(k, v)]"
| "assoc_put k v (p # ps) =
     (if fst p < k then p # assoc_put k v ps
      else if fst p = k then (k, v) # ps
      else (k, v) # p # ps)"

fun assoc_drop :: "'k::linorder \<Rightarrow> ('k \<times> 'v) list \<Rightarrow> ('k \<times> 'v) list" where
  "assoc_drop k [] = []"
| "assoc_drop k (p # ps) = (if fst p = k then ps else p # assoc_drop k ps)"

lemma set_assoc_put_keys: "fst ` set (assoc_put k v ps) = insert k (fst ` set ps)"
  by (induction ps) auto

lemma set_assoc_drop: "set (assoc_drop k ps) \<subseteq> set ps"
  by (induction ps) auto

lemma ascending_put: "keys_ascending ps \<Longrightarrow> keys_ascending (assoc_put k v ps)"
proof (induction ps)
  case (Cons p ps)
  have "\<forall>x\<in>fst ` set (assoc_put k v ps). fst p < x" if "fst p < k"
    using that Cons.prems by (simp add: set_assoc_put_keys)
  with Cons show ?case by auto
qed simp

lemma ascending_drop: "keys_ascending ps \<Longrightarrow> keys_ascending (assoc_drop k ps)"
proof (induction ps)
  case (Cons p ps)
  then show ?case using set_assoc_drop [of k ps] by auto
qed simp

lemma map_of_put: "map_of (assoc_put k v ps) = (map_of ps)(k \<mapsto> v)"
  by (induction ps) (auto simp: fun_eq_iff)

lemma map_of_drop: "keys_ascending ps \<Longrightarrow> map_of (assoc_drop k ps) = (map_of ps)(k := None)"
proof (induction ps)
  case (Cons p ps)
  then have "map_of ps (fst p) = None" by (auto simp: map_of_eq_None_iff)
  with Cons show ?case by (auto simp: fun_eq_iff)
qed (simp add: fun_eq_iff)

lemma ascending_distinct: "keys_ascending ps \<Longrightarrow> distinct (map fst ps)"
  by (simp add: strict_sorted_iff)

lemma ascending_unique:
  assumes "keys_ascending ps" and "keys_ascending qs" and "map_of ps = map_of qs"
  shows "ps = qs"
proof -
  have "(k, v) \<in> set ps \<longleftrightarrow> (k, v) \<in> set qs" for k v
    using assms map_of_eq_Some_iff [OF ascending_distinct, of ps k v]
      map_of_eq_Some_iff [OF ascending_distinct, of qs k v] by simp
  then have "set ps = set qs" by auto
  moreover have "inj_on fst (set ps \<union> set qs)"
    using ascending_distinct [OF assms(2)] \<open>set ps = set qs\<close> by (simp add: distinct_map)
  ultimately show ?thesis
    using assms(1,2) map_sorted_distinct_set_unique [of fst ps qs]
    by (simp add: strict_sorted_iff)
qed

section \<open>The map type\<close>

typedef (overloaded) ('k, 'v) omap = "{ps :: ('k::linorder \<times> 'v) list. keys_ascending ps}"
  morphisms om_entries Abs_omap
  by (rule exI [of _ "[]"]) simp

setup_lifting type_definition_omap

lift_definition om_empty :: "('k::linorder, 'v) omap" is "[]" by simp

lift_definition om_find :: "('k::linorder, 'v) omap \<Rightarrow> 'k \<Rightarrow> 'v option" is map_of .

lift_definition om_insert :: "'k::linorder \<Rightarrow> 'v \<Rightarrow> ('k, 'v) omap \<Rightarrow> ('k, 'v) omap" is assoc_put
  by (rule ascending_put)

lift_definition om_erase :: "'k::linorder \<Rightarrow> ('k, 'v) omap \<Rightarrow> ('k, 'v) omap" is assoc_drop
  by (rule ascending_drop)

lift_definition om_map :: "('v \<Rightarrow> 'w) \<Rightarrow> ('k::linorder, 'v) omap \<Rightarrow> ('k, 'w) omap" is
  "\<lambda>f. map (\<lambda>(k, v). (k, f v))"
  by (simp add: comp_def case_prod_beta)

definition om_values :: "('k::linorder, 'v) omap \<Rightarrow> 'v list" where
  "om_values m = map snd (om_entries m)"

definition om_is_empty :: "('k::linorder, 'v) omap \<Rightarrow> bool" where
  "om_is_empty m = (om_entries m = [])"

text \<open>\<open>m[k]\<close> on a map of counters: a missing key reads as zero.\<close>

definition om_get0 :: "('k::linorder, 'l::len word) omap \<Rightarrow> 'k \<Rightarrow> 'l word" where
  "om_get0 m k = (case om_find m k of None \<Rightarrow> 0 | Some v \<Rightarrow> v)"

text \<open>\<open>m[k]\<close> in a C++ expression also inserts the default value for a missing key.\<close>

definition om_touch :: "'k::linorder \<Rightarrow> ('k, 'l::len word) omap \<Rightarrow> ('k, 'l word) omap" where
  "om_touch k m = om_insert k (om_get0 m k) m"

definition om_add :: "'k::linorder \<Rightarrow> 'l::len word \<Rightarrow> ('k, 'l word) omap \<Rightarrow> ('k, 'l word) omap" where
  "om_add k x m = om_insert k (om_get0 m k + x) m"

instantiation omap :: (linorder, equal) equal
begin

definition equal_omap :: "('a, 'b) omap \<Rightarrow> ('a, 'b) omap \<Rightarrow> bool" where
  "equal_omap m m' \<longleftrightarrow> om_entries m = om_entries m'"

instance
  by standard (simp add: equal_omap_def om_entries_inject)

end

section \<open>The interface\<close>

locale assoc_store =
  fixes empty :: "'m"
    and find :: "'m \<Rightarrow> 'k \<Rightarrow> 'v option"
    and put :: "'k \<Rightarrow> 'v \<Rightarrow> 'm \<Rightarrow> 'm"
    and drop_key :: "'k \<Rightarrow> 'm \<Rightarrow> 'm"
    and entries :: "'m \<Rightarrow> ('k \<times> 'v) list"
  assumes find_empty: "find empty k = None"
    and find_put: "find (put k v m) = (find m)(k \<mapsto> v)"
    and find_drop: "find (drop_key k m) = (find m)(k := None)"
    and find_entries: "find m = map_of (entries m)"
    and entries_distinct: "distinct (map fst (entries m))"
    and store_eqI: "find m = find m' \<Longrightarrow> m = m'"
begin

lemma put_put: "put k v (put k w m) = put k v m"
  by (rule store_eqI) (simp add: find_put)

lemma drop_put: "drop_key k (put k v m) = drop_key k m"
  by (rule store_eqI) (simp add: find_put find_drop)

lemma drop_missing: "find m k = None \<Longrightarrow> drop_key k m = m"
  by (rule store_eqI) (simp add: find_drop fun_upd_idem)

lemma put_back: "find m k = Some v \<Longrightarrow> put k v m = m"
  by (rule store_eqI) (simp add: find_put map_upd_triv)

lemma put_drop: "put k v (drop_key k m) = put k v m"
  by (rule store_eqI) (simp add: find_put find_drop)

lemma entries_iff: "(k, v) \<in> set (entries m) \<longleftrightarrow> find m k = Some v"
  using entries_distinct by (auto simp: find_entries)

lemma distinct_entries: "distinct (entries m)"
  using entries_distinct distinct_map by blast

lemma mset_put: "mset (entries (put k v m)) = {#(k, v)#} + mset (entries (drop_key k m))"
proof (rule multiset_eqI)
  fix p
  have "count (mset (entries m')) p = (if find m' (fst p) = Some (snd p) then 1 else 0)" for m'
    using distinct_entries [of m'] entries_iff [of "fst p" "snd p" m']
    by (cases p) (simp add: distinct_count_atmost_1)
  then show "count (mset (entries (put k v m))) p = count ({#(k, v)#} + mset (entries (drop_key k m))) p"
    by (cases p) (auto simp: find_put find_drop)
qed

lemma mset_split: "find m k = Some v \<Longrightarrow> mset (entries m) = {#(k, v)#} + mset (entries (drop_key k m))"
  using mset_put [of k v m] put_back [of m k v] by simp

definition total :: "('k \<Rightarrow> 'v \<Rightarrow> nat) \<Rightarrow> 'm \<Rightarrow> nat" where
  "total f m = sum_list (map (\<lambda>(k, v). f k v) (entries m))"

lemma total_mset: "total f m = (\<Sum>p\<in>#mset (entries m). f (fst p) (snd p))"
  by (simp add: total_def split_beta' flip: sum_mset_sum_list)

lemma total_put: "total f (put k v m) = f k v + total f (drop_key k m)"
  by (simp add: total_mset mset_put)

lemma total_split: "find m k = Some v \<Longrightarrow> total f m = f k v + total f (drop_key k m)"
  by (simp add: total_mset mset_split)

lemma total_ge: "find m k = Some v \<Longrightarrow> f k v \<le> total f m"
  by (simp add: total_split)

lemma total_fresh: "find m k = None \<Longrightarrow> total f (put k v m) = f k v + total f m"
  by (simp add: total_put drop_missing)

lemma total_replace: "find m k = Some v \<Longrightarrow> total f (put k w m) + f k v = total f m + f k w"
  by (simp add: total_put total_split)

lemma total_same: "find m k = Some v \<Longrightarrow> f k w = f k v \<Longrightarrow> total f (put k w m) = total f m"
  by (simp add: total_put total_split)

lemma total_empty: "entries m = [] \<Longrightarrow> total f m = 0"
  by (simp add: total_def)

lemma total_eq_0_iff: "total f m = 0 \<longleftrightarrow> (\<forall>k v. find m k = Some v \<longrightarrow> f k v = 0)"
  by (auto simp: total_def entries_iff [symmetric])

lemma entries_Nil_iff: "entries m = [] \<longleftrightarrow> find m = (\<lambda>_. None)"
proof -
  have "entries m = [] \<longleftrightarrow> (\<forall>p. p \<notin> set (entries m))" by (metis all_not_in_conv set_empty)
  also have "\<dots> \<longleftrightarrow> (\<forall>k v. find m k \<noteq> Some v)" by (simp only: split_paired_All entries_iff)
  finally show ?thesis by (simp add: fun_eq_iff)
qed

end

interpretation om: assoc_store om_empty om_find om_insert om_erase om_entries
proof unfold_locales
  show "om_find om_empty k = None" for k :: 'a by transfer simp
  show "om_find (om_insert k v m) = (om_find m)(k \<mapsto> v)" for k :: 'a and v :: 'b and m
    by transfer (rule map_of_put)
  show "om_find (om_erase k m) = (om_find m)(k := None)" for k :: 'a and m :: "('a, 'b) omap"
    by transfer (rule map_of_drop)
  show "om_find m = map_of (om_entries m)" for m :: "('a, 'b) omap" by transfer simp
  show "distinct (map fst (om_entries m))" for m :: "('a, 'b) omap"
    by transfer (rule ascending_distinct)
  show "m = m'" if "om_find m = om_find m'" for m m' :: "('a, 'b) omap"
    using that by transfer (rule ascending_unique)
qed

abbreviation om_total :: "('k::linorder \<Rightarrow> 'v \<Rightarrow> nat) \<Rightarrow> ('k, 'v) omap \<Rightarrow> nat" where
  "om_total \<equiv> om.total"

section \<open>Facts the components use\<close>

lemma om_find_empty [simp]: "om_find om_empty k = None"
  by (rule om.find_empty)

lemma om_find_insert [simp]: "om_find (om_insert k v m) k' = (if k' = k then Some v else om_find m k')"
  by (simp add: om.find_put)

lemma om_find_erase [simp]: "om_find (om_erase k m) k' = (if k' = k then None else om_find m k')"
  by (simp add: om.find_drop)

lemma om_find_map [simp]: "om_find (om_map f m) k = map_option f (om_find m k)"
  by (simp add: om.find_entries om_map.rep_eq map_of_map)

lemma om_eqI: "(\<And>k. om_find m k = om_find m' k) \<Longrightarrow> m = m'"
  by (rule om.store_eqI) auto

lemma om_values_set: "v \<in> set (om_values m) \<longleftrightarrow> (\<exists>k. om_find m k = Some v)"
proof -
  have "v \<in> set (om_values m) \<longleftrightarrow> (\<exists>k. (k, v) \<in> set (om_entries m))"
    by (force simp: om_values_def)
  then show ?thesis by (simp add: om.entries_iff)
qed

lemma om_is_empty_iff: "om_is_empty m \<longleftrightarrow> (\<forall>k. om_find m k = None)"
  by (simp add: om_is_empty_def om.entries_Nil_iff fun_eq_iff)

lemma om_is_empty_empty [simp]: "om_is_empty om_empty"
  by (simp add: om_is_empty_iff)

lemma om_entries_empty [simp, code]: "om_entries om_empty = []"
  by transfer simp

lemma om_get0_insert [simp]: "om_get0 (om_insert k v m) k' = (if k' = k then v else om_get0 m k')"
  by (simp add: om_get0_def)

lemma om_get0_erase [simp]: "om_get0 (om_erase k m) k' = (if k' = k then 0 else om_get0 m k')"
  by (simp add: om_get0_def)

lemma om_get0_empty [simp]: "om_get0 om_empty k = 0"
  by (simp add: om_get0_def)

lemma om_get0_touch [simp]: "om_get0 (om_touch k m) = om_get0 m"
  by (rule ext) (simp add: om_touch_def)

lemma om_get0_add [simp]: "om_get0 (om_add k x m) k' = (if k' = k then om_get0 m k + x else om_get0 m k')"
  by (simp add: om_add_def)

lemma om_find_get0: "om_find m k = Some v \<Longrightarrow> om_get0 m k = v"
  by (simp add: om_get0_def)

lemma om_find_None_get0: "om_find m k = None \<Longrightarrow> om_get0 m k = 0"
  by (simp add: om_get0_def)

lemma om_entries_ascending: "keys_ascending (om_entries m)"
  using om_entries by auto

lemma om_total_empty [simp]: "om_total f om_empty = 0"
  by (simp add: om.total_empty)

lemma om_total_map: "om_total f (om_map g m) = om_total (\<lambda>k v. f k (g v)) m"
proof -
  have "om_entries (om_map g m) = map (\<lambda>(k, v). (k, g v)) (om_entries m)"
    by transfer simp
  then show ?thesis by (simp add: om.total_def comp_def split_beta')
qed

end
