(* ===== verification/Core_Ids.thy ===== *)
theory Core_Ids
  imports Ordered_Map
begin

text \<open>
  \<open>core/ids.hpp\<close>: identifiers and generations. An identifier and a generation carry a
  tag type, so that two identifiers with different tags cannot be compared or mixed; the
  tags are the empty marker structs of the header. An identifier is valid when its value
  is not zero. \<open>operator++\<close> and \<open>next\<close> of an identifier wrap around; \<open>next\<close> of a
  generation throws instead of wrapping around.
\<close>

section \<open>Identifiers\<close>

datatype 'tag Id = Id (id_value: u64)

definition invalid_id :: "'tag Id" where
  "invalid_id = Id 0"

definition id_valid :: "'tag Id \<Rightarrow> bool" where
  "id_valid i \<longleftrightarrow> id_value i \<noteq> 0"

definition id_next :: "'tag Id \<Rightarrow> 'tag Id" where
  "id_next i = Id (id_value i + 1)"

definition id_to_string :: "'tag Id \<Rightarrow> string" where
  "id_to_string i = std_to_string (id_value i)"

instantiation Id :: (type) linorder
begin

definition less_eq_Id :: "'a Id \<Rightarrow> 'a Id \<Rightarrow> bool" where
  "less_eq_Id a b \<longleftrightarrow> id_value a \<le> id_value b"

definition less_Id :: "'a Id \<Rightarrow> 'a Id \<Rightarrow> bool" where
  "less_Id a b \<longleftrightarrow> id_value a < id_value b"

instance
  by standard (auto simp: less_eq_Id_def less_Id_def Id.expand)

end

section \<open>Generations\<close>

datatype 'tag Generation = Generation (gen_value: u64)

definition gen_initial :: "'tag Generation" where
  "gen_initial = Generation 0"

definition gen_invalid :: "'tag Generation" where
  "gen_invalid = Generation 0"

definition gen_valid :: "'tag Generation \<Rightarrow> bool" where
  "gen_valid g \<longleftrightarrow> gen_value g \<noteq> 0"

definition gen_next :: "'tag Generation \<Rightarrow> 'tag Generation result" where
  "gen_next g = (if gen_value g = - 1 then Inl InvalidIdError else Inr (Generation (gen_value g + 1)))"

definition gen_less :: "'tag Generation \<Rightarrow> 'tag Generation \<Rightarrow> bool" where
  "gen_less a b \<longleftrightarrow> gen_value a < gen_value b"

section \<open>Tags and aliases\<close>

datatype HostIdTag = HostIdTag
datatype HostGenerationTag = HostGenerationTag
datatype NumaNodeIdTag = NumaNodeIdTag
datatype NumaNodeGenerationTag = NumaNodeGenerationTag
datatype ProcessorIdTag = ProcessorIdTag
datatype ProcessorGroupIdTag = ProcessorGroupIdTag
datatype MemoryRegionIdTag = MemoryRegionIdTag
datatype MemoryGenerationTag = MemoryGenerationTag
datatype WorkerIdTag = WorkerIdTag
datatype WorkerBootIdTag = WorkerBootIdTag
datatype ProcessIdTag = ProcessIdTag
datatype ThreadIdTag = ThreadIdTag
datatype AcceleratorIdTag = AcceleratorIdTag
datatype AcceleratorGenerationTag = AcceleratorGenerationTag
datatype DeviceIdTag = DeviceIdTag
datatype DeviceGenerationTag = DeviceGenerationTag
datatype PlacementIdTag = PlacementIdTag
datatype PlacementGenerationTag = PlacementGenerationTag
datatype BindingIdTag = BindingIdTag
datatype BindingGenerationTag = BindingGenerationTag
datatype PolicyIdTag = PolicyIdTag
datatype PolicyGenerationTag = PolicyGenerationTag
datatype ObservationIdTag = ObservationIdTag
datatype ObservationGenerationTag = ObservationGenerationTag
datatype CoordinatorEpochTag = CoordinatorEpochTag
datatype AttemptIdTag = AttemptIdTag
datatype ReservationIdTag = ReservationIdTag
datatype ReservationGenerationTag = ReservationGenerationTag
datatype SnapshotIdTag = SnapshotIdTag
datatype SourceIdTag = SourceIdTag
datatype SourceGenerationTag = SourceGenerationTag

type_synonym HostId = "HostIdTag Id"
type_synonym HostGeneration = "HostGenerationTag Generation"
type_synonym NumaNodeId = "NumaNodeIdTag Id"
type_synonym NumaNodeGeneration = "NumaNodeGenerationTag Generation"
type_synonym ProcessorId = "ProcessorIdTag Id"
type_synonym ProcessorGroupId = "ProcessorGroupIdTag Id"
type_synonym MemoryRegionId = "MemoryRegionIdTag Id"
type_synonym MemoryGeneration = "MemoryGenerationTag Generation"
type_synonym WorkerId = "WorkerIdTag Id"
type_synonym WorkerBootId = "WorkerBootIdTag Id"
type_synonym ProcessId = "ProcessIdTag Id"
type_synonym ThreadId = "ThreadIdTag Id"
type_synonym AcceleratorId = "AcceleratorIdTag Id"
type_synonym AcceleratorGeneration = "AcceleratorGenerationTag Generation"
type_synonym DeviceId = "DeviceIdTag Id"
type_synonym DeviceGeneration = "DeviceGenerationTag Generation"
type_synonym PlacementId = "PlacementIdTag Id"
type_synonym PlacementGeneration = "PlacementGenerationTag Generation"
type_synonym BindingId = "BindingIdTag Id"
type_synonym BindingGeneration = "BindingGenerationTag Generation"
type_synonym PolicyId = "PolicyIdTag Id"
type_synonym PolicyGeneration = "PolicyGenerationTag Generation"
type_synonym ObservationId = "ObservationIdTag Id"
type_synonym ObservationGeneration = "ObservationGenerationTag Generation"
type_synonym CoordinatorEpoch = "CoordinatorEpochTag Generation"
type_synonym AttemptId = "AttemptIdTag Id"
type_synonym ReservationId = "ReservationIdTag Id"
type_synonym ReservationGeneration = "ReservationGenerationTag Generation"
type_synonym SnapshotId = "SnapshotIdTag Id"
type_synonym SourceId = "SourceIdTag Id"
type_synonym SourceGeneration = "SourceGenerationTag Generation"

section \<open>Facts\<close>

lemma Id_less_iff [simp]: "Id a < Id b \<longleftrightarrow> a < b"
  by (simp add: less_Id_def)

lemma Id_le_iff [simp]: "Id a \<le> Id b \<longleftrightarrow> a \<le> b"
  by (simp add: less_eq_Id_def)

lemma id_valid_Id [simp]: "id_valid (Id v) \<longleftrightarrow> v \<noteq> 0"
  by (simp add: id_valid_def)

lemma id_invalid_iff: "\<not> id_valid i \<longleftrightarrow> i = invalid_id"
  by (cases i) (simp add: invalid_id_def)

lemma id_valid_invalid [simp]: "\<not> id_valid invalid_id"
  by (simp add: invalid_id_def)

lemma gen_next_Inr: "gen_next g = Inr h \<longleftrightarrow> gen_value g \<noteq> - 1 \<and> gen_value h = gen_value g + 1"
  by (cases h) (auto simp: gen_next_def)

lemma gen_next_strict:
  assumes "gen_next g = Inr h"
  shows "gen_less g h" and "gen_valid h"
proof -
  from assms have ne: "gen_value g \<noteq> - 1" and h: "gen_value h = gen_value g + 1"
    by (auto simp: gen_next_Inr)
  from ne have lt: "gen_value g < gen_value g + 1" by (rule word_less_succ)
  from lt h show "gen_less g h" by (simp add: gen_less_def)
  from lt h show "gen_valid h" by (auto simp: gen_valid_def)
qed

end
