(* ===== verification/Core_Quantities.thy ===== *)
theory Core_Quantities
  imports Core_Ids
begin

text \<open>
  \<open>core/quantities.hpp\<close>: tagged physical quantities over unsigned integers with checked
  arithmetic. Addition, subtraction and multiplication throw \<open>InvalidQuantityError\<close> where
  the machine operation would wrap around; division throws on a zero divisor. The only
  floating-point alias of the header, \<open>Utilization\<close>, is not used by any component and is
  left out. \<open>validate\<close> never throws for an unsigned representation, so construction is
  total. Multiplication and division take a 64-bit factor and are modelled at the 64-bit
  representation, which every alias used by the runtime has.
\<close>

datatype ('tag, 'rep) Quantity = Quantity (qty_value: 'rep)

definition qty_zero :: "('tag, 'l::len word) Quantity" where
  "qty_zero = Quantity 0"

definition qty_is_zero :: "('tag, 'l::len word) Quantity \<Rightarrow> bool" where
  "qty_is_zero q \<longleftrightarrow> qty_value q = 0"

definition qty_is_valid :: "('tag, 'l::len word) Quantity \<Rightarrow> bool" where
  "qty_is_valid q \<longleftrightarrow> 0 \<le> qty_value q"

definition qty_add :: "('tag, 'l::len word) Quantity \<Rightarrow> ('tag, 'l word) Quantity \<Rightarrow> ('tag, 'l word) Quantity result" where
  "qty_add a b = (if qty_value a > - 1 - qty_value b then Inl InvalidQuantityError
                  else Inr (Quantity (qty_value a + qty_value b)))"

definition qty_sub :: "('tag, 'l::len word) Quantity \<Rightarrow> ('tag, 'l word) Quantity \<Rightarrow> ('tag, 'l word) Quantity result" where
  "qty_sub a b = (if qty_value b > qty_value a then Inl InvalidQuantityError
                  else Inr (Quantity (qty_value a - qty_value b)))"

definition qty_mul :: "('tag, u64) Quantity \<Rightarrow> u64 \<Rightarrow> ('tag, u64) Quantity result" where
  "qty_mul a f = (if f \<noteq> 0 \<and> qty_value a > - 1 div f then Inl InvalidQuantityError
                  else Inr (Quantity (qty_value a * f)))"

definition qty_div :: "('tag, u64) Quantity \<Rightarrow> u64 \<Rightarrow> ('tag, u64) Quantity result" where
  "qty_div a d = (if d = 0 then Inl InvalidQuantityError else Inr (Quantity (qty_value a div d)))"

section \<open>Tags and aliases\<close>

datatype BytesTag = BytesTag
datatype CapacityTag = CapacityTag
datatype AvailableMemoryTag = AvailableMemoryTag
datatype LocalityCostTag = LocalityCostTag
datatype AlignmentTag = AlignmentTag
datatype PageSizeTag = PageSizeTag
datatype NanosecondsTag = NanosecondsTag
datatype LogicalProcessorIndexTag = LogicalProcessorIndexTag
datatype ProcessorGroupIndexTag = ProcessorGroupIndexTag

type_synonym Bytes = "(BytesTag, u64) Quantity"
type_synonym Capacity = "(CapacityTag, u64) Quantity"
type_synonym AvailableMemory = "(AvailableMemoryTag, u64) Quantity"
type_synonym LocalityCost = "(LocalityCostTag, u64) Quantity"
type_synonym Alignment = "(AlignmentTag, u64) Quantity"
type_synonym PageSize = "(PageSizeTag, u64) Quantity"
type_synonym Nanoseconds = "(NanosecondsTag, u64) Quantity"
type_synonym LogicalProcessorIndex = "(LogicalProcessorIndexTag, u32) Quantity"
type_synonym ProcessorGroupIndex = "(ProcessorGroupIndexTag, u16) Quantity"

section \<open>Facts\<close>

lemma unat_minus_one: "unat (- 1 :: 'l::len word) = 2 ^ LENGTH('l) - 1"
  by (simp add: unsigned_minus_1_eq_mask mask_eq_exp_minus_1)

lemma qty_add_overflow_guard:
  "(a :: 'l::len word) > - 1 - b \<longleftrightarrow> \<not> unat a + unat b < 2 ^ LENGTH('l)"
proof -
  have "unat (- 1 - b) = (2 ^ LENGTH('l) - 1) - unat b"
    by (simp add: unat_sub unat_minus_one)
  moreover have "unat b \<le> 2 ^ LENGTH('l) - 1"
    using unsigned_less [of b, where ?'a = nat] by linarith
  moreover have "0 < (2::nat) ^ LENGTH('l)" by simp
  ultimately show ?thesis unfolding word_gt_unat by linarith
qed

lemma qty_mul_overflow_guard:
  assumes "f \<noteq> 0"
  shows "(a :: u64) > - 1 div f \<longleftrightarrow> \<not> unat a * unat f < 2 ^ 64"
proof -
  have f: "0 < unat f" using assms by (simp add: unat_gt_0)
  have "unat (- 1 div f) = (2 ^ 64 - 1) div unat f"
    by (simp add: unat_div unat_minus_one)
  then have "a > - 1 div f \<longleftrightarrow> \<not> unat a \<le> (2 ^ 64 - 1) div unat f"
    by (simp add: word_less_nat_alt not_le)
  also have "\<dots> \<longleftrightarrow> \<not> unat a * unat f \<le> 2 ^ 64 - 1"
    using f by (simp add: less_eq_div_iff_mult_less_eq)
  finally have "a > - 1 div f \<longleftrightarrow> \<not> unat a * unat f \<le> 2 ^ 64 - 1" .
  moreover have "x \<le> 2 ^ 64 - 1 \<longleftrightarrow> x < 2 ^ 64" for x :: nat by auto
  ultimately show ?thesis by blast
qed

text \<open>
  Checked arithmetic is exact: each operation returns exactly when the mathematical
  result is representable (a non-negative difference, a sum or product below the width, a
  non-zero divisor), the returned value is then that result, and otherwise
  \<open>InvalidQuantityError\<close> is thrown. No operation ever wraps around.
\<close>

theorem checked_arithmetic_exact:
  fixes a b :: "('tag, u64) Quantity"
  shows "(case qty_add a b of
            Inr r \<Rightarrow> unat (qty_value r) = unat (qty_value a) + unat (qty_value b)
          | Inl e \<Rightarrow> e = InvalidQuantityError \<and> unat (qty_value a) + unat (qty_value b) \<ge> 2 ^ 64)
       \<and> (case qty_sub a b of
            Inr r \<Rightarrow> unat (qty_value r) + unat (qty_value b) = unat (qty_value a)
          | Inl e \<Rightarrow> e = InvalidQuantityError \<and> unat (qty_value a) < unat (qty_value b))
       \<and> (case qty_mul a f of
            Inr r \<Rightarrow> unat (qty_value r) = unat (qty_value a) * unat f
          | Inl e \<Rightarrow> e = InvalidQuantityError \<and> unat (qty_value a) * unat f \<ge> 2 ^ 64)
       \<and> (case qty_div a f of
            Inr r \<Rightarrow> unat (qty_value r) = unat (qty_value a) div unat f \<and> f \<noteq> 0
          | Inl e \<Rightarrow> e = InvalidQuantityError \<and> f = 0)"
proof (intro conjI)
  show "case qty_add a b of
            Inr r \<Rightarrow> unat (qty_value r) = unat (qty_value a) + unat (qty_value b)
          | Inl e \<Rightarrow> e = InvalidQuantityError \<and> unat (qty_value a) + unat (qty_value b) \<ge> 2 ^ 64"
    by (auto simp: qty_add_def qty_add_overflow_guard unat_add_no_wrap)
  show "case qty_sub a b of
            Inr r \<Rightarrow> unat (qty_value r) + unat (qty_value b) = unat (qty_value a)
          | Inl e \<Rightarrow> e = InvalidQuantityError \<and> unat (qty_value a) < unat (qty_value b)"
    by (auto simp: qty_sub_def word_less_nat_alt unat_sub_no_wrap word_le_nat_alt not_less)
  show "case qty_mul a f of
            Inr r \<Rightarrow> unat (qty_value r) = unat (qty_value a) * unat f
          | Inl e \<Rightarrow> e = InvalidQuantityError \<and> unat (qty_value a) * unat f \<ge> 2 ^ 64"
    by (cases "f = 0") (auto simp: qty_mul_def qty_mul_overflow_guard unat_word_ariths)
  show "case qty_div a f of
            Inr r \<Rightarrow> unat (qty_value r) = unat (qty_value a) div unat f \<and> f \<noteq> 0
          | Inl e \<Rightarrow> e = InvalidQuantityError \<and> f = 0"
    by (auto simp: qty_div_def unat_div)
qed

end
