(* ===== verification/Core_Enums.thy ===== *)
theory Core_Enums
  imports Core_Quantities
begin

text \<open>
  \<open>core/enums.hpp\<close>, \<open>core/provenance.hpp\<close> and \<open>core/freshness.hpp\<close>: the enumerations of
  the domain in the order of their declarations (the position is the integer value that
  goes over the wire), their text forms, the parsers that reject every other text, and
  the provenance and freshness records. The contract of a text form and its parser is the
  locale \<open>enum_text\<close>, interpreted for the five enumerations that have a parser.
\<close>

datatype PlacementMode =
  PM_Any | PM_Local | PM_PreferredNode | PM_RequiredNode | PM_Interleaved | PM_Synthetic

datatype LifecycleState =
  LS_Created | LS_Reserved | LS_Allocated | LS_Active | LS_MigrationPending | LS_Migrating
| LS_Rebound | LS_ReleasePending | LS_Released | LS_Failed | LS_Invalidated

datatype LocalityClass =
  LC_SameNumaNode | LC_SameSocket | LC_SameHostRemoteNuma | LC_Unknown | LC_Synthetic

datatype PlacementDecisionKind =
  PD_Place | PD_PlaceWithPenalty | PD_Rebind | PD_Migrate | PD_Defer | PD_Reject | PD_RevalidationRequired

datatype FreshnessState = FS_Current | FS_Stale | FS_RevalidationRequired | FS_Unknown

datatype ProvenanceSource =
  PS_Measured | PS_Reported | PS_Derived | PS_Estimated | PS_Synthetic | PS_Unknown

datatype AuthorityVerification =
  AV_Accepted | AV_StaleEpoch | AV_StaleBoot | AV_StalePlacementGeneration | AV_StaleBindingGeneration
| AV_StaleMemoryGeneration | AV_StaleObservationGeneration | AV_StaleReservation | AV_StaleAttempt
| AV_RejectedUnknown

datatype AllocationKind = AK_Host | AK_NumaHost | AK_Pinned | AK_Synthetic

section \<open>Text forms\<close>

fun placement_mode_to_string :: "PlacementMode \<Rightarrow> string" where
  "placement_mode_to_string PM_Any = ''ANY''"
| "placement_mode_to_string PM_Local = ''LOCAL''"
| "placement_mode_to_string PM_PreferredNode = ''PREFERRED_NODE''"
| "placement_mode_to_string PM_RequiredNode = ''REQUIRED_NODE''"
| "placement_mode_to_string PM_Interleaved = ''INTERLEAVED''"
| "placement_mode_to_string PM_Synthetic = ''SYNTHETIC''"

fun lifecycle_state_to_string :: "LifecycleState \<Rightarrow> string" where
  "lifecycle_state_to_string LS_Created = ''CREATED''"
| "lifecycle_state_to_string LS_Reserved = ''RESERVED''"
| "lifecycle_state_to_string LS_Allocated = ''ALLOCATED''"
| "lifecycle_state_to_string LS_Active = ''ACTIVE''"
| "lifecycle_state_to_string LS_MigrationPending = ''MIGRATION_PENDING''"
| "lifecycle_state_to_string LS_Migrating = ''MIGRATING''"
| "lifecycle_state_to_string LS_Rebound = ''REBOUND''"
| "lifecycle_state_to_string LS_ReleasePending = ''RELEASE_PENDING''"
| "lifecycle_state_to_string LS_Released = ''RELEASED''"
| "lifecycle_state_to_string LS_Failed = ''FAILED''"
| "lifecycle_state_to_string LS_Invalidated = ''INVALIDATED''"

fun locality_class_to_string :: "LocalityClass \<Rightarrow> string" where
  "locality_class_to_string LC_SameNumaNode = ''SAME_NUMA_NODE''"
| "locality_class_to_string LC_SameSocket = ''SAME_SOCKET''"
| "locality_class_to_string LC_SameHostRemoteNuma = ''SAME_HOST_REMOTE_NUMA''"
| "locality_class_to_string LC_Unknown = ''UNKNOWN''"
| "locality_class_to_string LC_Synthetic = ''SYNTHETIC''"

fun placement_decision_to_string :: "PlacementDecisionKind \<Rightarrow> string" where
  "placement_decision_to_string PD_Place = ''PLACE''"
| "placement_decision_to_string PD_PlaceWithPenalty = ''PLACE_WITH_PENALTY''"
| "placement_decision_to_string PD_Rebind = ''REBIND''"
| "placement_decision_to_string PD_Migrate = ''MIGRATE''"
| "placement_decision_to_string PD_Defer = ''DEFER''"
| "placement_decision_to_string PD_Reject = ''REJECT''"
| "placement_decision_to_string PD_RevalidationRequired = ''REVALIDATION_REQUIRED''"

fun freshness_to_string :: "FreshnessState \<Rightarrow> string" where
  "freshness_to_string FS_Current = ''CURRENT''"
| "freshness_to_string FS_Stale = ''STALE''"
| "freshness_to_string FS_RevalidationRequired = ''REVALIDATION_REQUIRED''"
| "freshness_to_string FS_Unknown = ''UNKNOWN''"

fun provenance_to_string :: "ProvenanceSource \<Rightarrow> string" where
  "provenance_to_string PS_Measured = ''MEASURED''"
| "provenance_to_string PS_Reported = ''REPORTED''"
| "provenance_to_string PS_Derived = ''DERIVED''"
| "provenance_to_string PS_Estimated = ''ESTIMATED''"
| "provenance_to_string PS_Synthetic = ''SYNTHETIC''"
| "provenance_to_string PS_Unknown = ''UNKNOWN''"

fun authority_to_string :: "AuthorityVerification \<Rightarrow> string" where
  "authority_to_string AV_Accepted = ''ACCEPTED''"
| "authority_to_string AV_StaleEpoch = ''STALE_EPOCH''"
| "authority_to_string AV_StaleBoot = ''STALE_BOOT''"
| "authority_to_string AV_StalePlacementGeneration = ''STALE_PLACEMENT_GENERATION''"
| "authority_to_string AV_StaleBindingGeneration = ''STALE_BINDING_GENERATION''"
| "authority_to_string AV_StaleMemoryGeneration = ''STALE_MEMORY_GENERATION''"
| "authority_to_string AV_StaleObservationGeneration = ''STALE_OBSERVATION_GENERATION''"
| "authority_to_string AV_StaleReservation = ''STALE_RESERVATION''"
| "authority_to_string AV_StaleAttempt = ''STALE_ATTEMPT''"
| "authority_to_string AV_RejectedUnknown = ''REJECTED_UNKNOWN''"

fun allocation_kind_to_string :: "AllocationKind \<Rightarrow> string" where
  "allocation_kind_to_string AK_Host = ''HOST''"
| "allocation_kind_to_string AK_NumaHost = ''NUMA_HOST''"
| "allocation_kind_to_string AK_Pinned = ''PINNED''"
| "allocation_kind_to_string AK_Synthetic = ''SYNTHETIC''"

section \<open>Parsers\<close>

text \<open>The message of a rejected text quotes it between apostrophes.\<close>

definition unknown_enum :: "string \<Rightarrow> string \<Rightarrow> 'a result" where
  "unknown_enum what_enum s =
     Inl (InvalidEnumError (''unknown '' @ what_enum @ '' '' @ [CHR 0x27] @ s @ [CHR 0x27]))"

definition placement_mode_from_string :: "string \<Rightarrow> PlacementMode result" where
  "placement_mode_from_string s =
     (if s = ''ANY'' then Inr PM_Any
      else if s = ''LOCAL'' then Inr PM_Local
      else if s = ''PREFERRED_NODE'' then Inr PM_PreferredNode
      else if s = ''REQUIRED_NODE'' then Inr PM_RequiredNode
      else if s = ''INTERLEAVED'' then Inr PM_Interleaved
      else if s = ''SYNTHETIC'' then Inr PM_Synthetic
      else unknown_enum ''PlacementMode'' s)"

definition lifecycle_state_from_string :: "string \<Rightarrow> LifecycleState result" where
  "lifecycle_state_from_string s =
     (if s = ''CREATED'' then Inr LS_Created
      else if s = ''RESERVED'' then Inr LS_Reserved
      else if s = ''ALLOCATED'' then Inr LS_Allocated
      else if s = ''ACTIVE'' then Inr LS_Active
      else if s = ''MIGRATION_PENDING'' then Inr LS_MigrationPending
      else if s = ''MIGRATING'' then Inr LS_Migrating
      else if s = ''REBOUND'' then Inr LS_Rebound
      else if s = ''RELEASE_PENDING'' then Inr LS_ReleasePending
      else if s = ''RELEASED'' then Inr LS_Released
      else if s = ''FAILED'' then Inr LS_Failed
      else if s = ''INVALIDATED'' then Inr LS_Invalidated
      else unknown_enum ''LifecycleState'' s)"

definition provenance_from_string :: "string \<Rightarrow> ProvenanceSource result" where
  "provenance_from_string s =
     (if s = ''MEASURED'' then Inr PS_Measured
      else if s = ''REPORTED'' then Inr PS_Reported
      else if s = ''DERIVED'' then Inr PS_Derived
      else if s = ''ESTIMATED'' then Inr PS_Estimated
      else if s = ''SYNTHETIC'' then Inr PS_Synthetic
      else if s = ''UNKNOWN'' then Inr PS_Unknown
      else unknown_enum ''ProvenanceSource'' s)"

definition placement_decision_from_string :: "string \<Rightarrow> PlacementDecisionKind result" where
  "placement_decision_from_string s =
     (if s = ''PLACE'' then Inr PD_Place
      else if s = ''PLACE_WITH_PENALTY'' then Inr PD_PlaceWithPenalty
      else if s = ''REBIND'' then Inr PD_Rebind
      else if s = ''MIGRATE'' then Inr PD_Migrate
      else if s = ''DEFER'' then Inr PD_Defer
      else if s = ''REJECT'' then Inr PD_Reject
      else if s = ''REVALIDATION_REQUIRED'' then Inr PD_RevalidationRequired
      else unknown_enum ''PlacementDecisionKind'' s)"

definition locality_class_from_string :: "string \<Rightarrow> LocalityClass result" where
  "locality_class_from_string s =
     (if s = ''SAME_NUMA_NODE'' then Inr LC_SameNumaNode
      else if s = ''SAME_SOCKET'' then Inr LC_SameSocket
      else if s = ''SAME_HOST_REMOTE_NUMA'' then Inr LC_SameHostRemoteNuma
      else if s = ''UNKNOWN'' then Inr LC_Unknown
      else if s = ''SYNTHETIC'' then Inr LC_Synthetic
      else unknown_enum ''LocalityClass'' s)"

section \<open>Integer values\<close>

fun provenance_code :: "ProvenanceSource \<Rightarrow> u8" where
  "provenance_code PS_Measured = 0"
| "provenance_code PS_Reported = 1"
| "provenance_code PS_Derived = 2"
| "provenance_code PS_Estimated = 3"
| "provenance_code PS_Synthetic = 4"
| "provenance_code PS_Unknown = 5"

definition provenance_of_code :: "u8 \<Rightarrow> ProvenanceSource option" where
  "provenance_of_code c =
     (if c = 0 then Some PS_Measured else if c = 1 then Some PS_Reported
      else if c = 2 then Some PS_Derived else if c = 3 then Some PS_Estimated
      else if c = 4 then Some PS_Synthetic else if c = 5 then Some PS_Unknown else None)"

section \<open>Provenance and freshness\<close>

record Provenance =
  prov_source :: ProvenanceSource
  prov_source_id :: SourceId
  prov_source_generation :: SourceGeneration
  prov_note :: string

definition prov_unknown :: Provenance where
  "prov_unknown = \<lparr>prov_source = PS_Unknown, prov_source_id = invalid_id,
                   prov_source_generation = gen_initial, prov_note = ''''\<rparr>"

definition prov_of :: "ProvenanceSource \<Rightarrow> string \<Rightarrow> Provenance" where
  "prov_of src note_text = prov_unknown\<lparr>prov_source := src, prov_note := note_text\<rparr>"

definition prov_derived :: "string \<Rightarrow> Provenance" where
  "prov_derived = prov_of PS_Derived"

definition prov_synthetic :: "string \<Rightarrow> Provenance" where
  "prov_synthetic = prov_of PS_Synthetic"

record Freshness =
  fr_state :: FreshnessState
  fr_measured_at :: Nanoseconds

definition freshness_at :: "FreshnessState \<Rightarrow> u64 \<Rightarrow> Freshness" where
  "freshness_at st now = \<lparr>fr_state = st, fr_measured_at = Quantity now\<rparr>"

definition freshness_unknown :: Freshness where
  "freshness_unknown = \<lparr>fr_state = FS_Unknown, fr_measured_at = qty_zero\<rparr>"

section \<open>The contract of a text form\<close>

locale enum_text =
  fixes text_of :: "'e \<Rightarrow> string"
    and of_text :: "string \<Rightarrow> 'e result"
  assumes of_text_text_of: "of_text (text_of v) = Inr v"
    and text_of_of_text: "of_text s = Inr v \<Longrightarrow> text_of v = s"
begin

lemma of_text_iff: "of_text s = Inr v \<longleftrightarrow> s = text_of v"
  using of_text_text_of text_of_of_text by blast

lemma text_inj: "text_of v = text_of w \<Longrightarrow> v = w"
  using of_text_text_of by (metis sum.inject(2))

lemma rejected_iff: "\<not> is_ok (of_text s) \<longleftrightarrow> s \<notin> range text_of"
  using of_text_iff by (auto simp: is_ok_iff)

end

lemma text_choiceE:
  assumes "(if s = t then Inr x else r) = Inr v"
    and "s = t \<Longrightarrow> v = x \<Longrightarrow> P" and "r = Inr v \<Longrightarrow> P"
  shows P
  using assms by (cases "s = t") simp_all

lemma unknown_enum_not_Inr: "unknown_enum w s \<noteq> Inr v"
  by (simp add: unknown_enum_def)

interpretation placement_mode: enum_text placement_mode_to_string placement_mode_from_string
proof unfold_locales
  show "placement_mode_from_string (placement_mode_to_string v) = Inr v" for v
    by (cases v) (simp_all add: placement_mode_from_string_def)
  show "placement_mode_to_string v = s" if "placement_mode_from_string s = Inr v" for s v
    using that unfolding placement_mode_from_string_def
    by (elim text_choiceE) (simp_all add: unknown_enum_not_Inr)
qed

interpretation lifecycle_state: enum_text lifecycle_state_to_string lifecycle_state_from_string
proof unfold_locales
  show "lifecycle_state_from_string (lifecycle_state_to_string v) = Inr v" for v
    by (cases v) (simp_all add: lifecycle_state_from_string_def)
  show "lifecycle_state_to_string v = s" if "lifecycle_state_from_string s = Inr v" for s v
    using that unfolding lifecycle_state_from_string_def
    by (elim text_choiceE) (simp_all add: unknown_enum_not_Inr)
qed

interpretation provenance_source: enum_text provenance_to_string provenance_from_string
proof unfold_locales
  show "provenance_from_string (provenance_to_string v) = Inr v" for v
    by (cases v) (simp_all add: provenance_from_string_def)
  show "provenance_to_string v = s" if "provenance_from_string s = Inr v" for s v
    using that unfolding provenance_from_string_def
    by (elim text_choiceE) (simp_all add: unknown_enum_not_Inr)
qed

interpretation placement_decision: enum_text placement_decision_to_string placement_decision_from_string
proof unfold_locales
  show "placement_decision_from_string (placement_decision_to_string v) = Inr v" for v
    by (cases v) (simp_all add: placement_decision_from_string_def)
  show "placement_decision_to_string v = s" if "placement_decision_from_string s = Inr v" for s v
    using that unfolding placement_decision_from_string_def
    by (elim text_choiceE) (simp_all add: unknown_enum_not_Inr)
qed

interpretation locality_class: enum_text locality_class_to_string locality_class_from_string
proof unfold_locales
  show "locality_class_from_string (locality_class_to_string v) = Inr v" for v
    by (cases v) (simp_all add: locality_class_from_string_def)
  show "locality_class_to_string v = s" if "locality_class_from_string s = Inr v" for s v
    using that unfolding locality_class_from_string_def
    by (elim text_choiceE) (simp_all add: unknown_enum_not_Inr)
qed

text \<open>
  The text form of an enumeration value is its only text form: for the placement mode,
  the lifecycle state, the provenance source, the placement decision and the locality
  class, the parser accepts a text exactly when it is the text form of the value it
  returns, so a value survives printing and parsing and no other text is accepted.
\<close>

theorem enum_text_exact:
  "(placement_mode_from_string s = Inr pm \<longleftrightarrow> s = placement_mode_to_string pm)
   \<and> (lifecycle_state_from_string s = Inr ls \<longleftrightarrow> s = lifecycle_state_to_string ls)
   \<and> (provenance_from_string s = Inr ps \<longleftrightarrow> s = provenance_to_string ps)
   \<and> (placement_decision_from_string s = Inr pd \<longleftrightarrow> s = placement_decision_to_string pd)
   \<and> (locality_class_from_string s = Inr lc \<longleftrightarrow> s = locality_class_to_string lc)"
  by (intro conjI placement_mode.of_text_iff lifecycle_state.of_text_iff
      provenance_source.of_text_iff placement_decision.of_text_iff locality_class.of_text_iff)

lemma provenance_of_code_code [simp]: "provenance_of_code (provenance_code p) = Some p"
  by (cases p) (simp_all add: provenance_of_code_def)

lemma provenance_of_code_Some: "provenance_of_code c = Some p \<Longrightarrow> provenance_code p = c"
  by (auto simp: provenance_of_code_def split: if_splits)

end
