(* ===== verification/Wire.thy ===== *)
theory Wire
  imports Core_Enums
begin

text \<open>
  \<open>protocol/wire.hpp\<close>: the codec of message payloads. A writer appends to its buffer, so
  writing a value is the list of the bytes it appends. A reader is a cursor over a byte
  buffer: reading a value consumes a prefix of the remaining bytes, or throws. A throwing
  reader is a local of the caller and is never used again.

  The persistence codec has the same primitives with other messages, so the reading loops
  are stated once over the exception to throw. The contract of a writer and its reader is
  the locale \<open>codec\<close>: reading back what was written returns it and leaves the rest, and a
  reader that succeeds does not look past what it consumed. Reading a sequence and the
  rejection of every truncation are proved once inside the locale.
\<close>

section \<open>Readers\<close>

type_synonym 'a reader = "byte list \<Rightarrow> ('a \<times> byte list) result"

definition rd_return :: "'a \<Rightarrow> 'a reader" where
  "rd_return x = (\<lambda>bs. Inr (x, bs))"

definition rd_throw :: "exn \<Rightarrow> 'a reader" where
  "rd_throw e = (\<lambda>bs. Inl e)"

definition rd_bind :: "'a reader \<Rightarrow> ('a \<Rightarrow> 'b reader) \<Rightarrow> 'b reader" where
  "rd_bind m f = (\<lambda>bs. case m bs of Inl e \<Rightarrow> Inl e | Inr (x, bs') \<Rightarrow> f x bs')"

definition rd_fixed :: "exn \<Rightarrow> nat \<Rightarrow> (byte list \<Rightarrow> 'a) \<Rightarrow> 'a reader" where
  "rd_fixed trunc k f = (\<lambda>bs. if k > length bs then Inl trunc else Inr (f bs, drop k bs))"

fun rd_many :: "'a reader \<Rightarrow> nat \<Rightarrow> 'a list reader" where
  "rd_many rd 0 = rd_return []"
| "rd_many rd (Suc n) = rd_bind rd (\<lambda>x. rd_bind (rd_many rd n) (\<lambda>xs. rd_return (x # xs)))"

text \<open>A reader that succeeds is not affected by bytes after those it was given.\<close>

definition extensible :: "'a reader \<Rightarrow> bool" where
  "extensible rd \<longleftrightarrow> (\<forall>bs x rest t. rd bs = Inr (x, rest) \<longrightarrow> rd (bs @ t) = Inr (x, rest @ t))"

section \<open>WireWriter and WireReader\<close>

definition bytes_of_string :: "string \<Rightarrow> byte list" where
  "bytes_of_string s = map (\<lambda>c. of_nat (of_char c)) s"

definition string_of_bytes :: "byte list \<Rightarrow> string" where
  "string_of_bytes bs = map (\<lambda>b. char_of (unat b)) bs"

definition w_u8 :: "u8 \<Rightarrow> byte list" where
  "w_u8 v = [v]"

definition w_u16 :: "u16 \<Rightarrow> byte list" where
  "w_u16 v = le_bytes 2 v"

definition w_u32 :: "u32 \<Rightarrow> byte list" where
  "w_u32 v = le_bytes 4 v"

definition w_u64 :: "u64 \<Rightarrow> byte list" where
  "w_u64 v = le_bytes 8 v"

definition w_bool :: "bool \<Rightarrow> byte list" where
  "w_bool b = w_u8 (if b then 1 else 0)"

definition w_bytes :: "byte list \<Rightarrow> byte list" where
  "w_bytes v = w_u32 (of_nat (length v)) @ v"

definition w_str :: "string \<Rightarrow> byte list" where
  "w_str s = w_bytes (bytes_of_string s)"

definition wire_truncated :: exn where
  "wire_truncated = WireError ''truncated wire payload''"

definition r_u8 :: "u8 reader" where
  "r_u8 = rd_fixed wire_truncated 1 (\<lambda>bs. bs ! 0)"

definition r_u16 :: "u16 reader" where
  "r_u16 = rd_fixed wire_truncated 2 (le_word 2)"

definition r_u32 :: "u32 reader" where
  "r_u32 = rd_fixed wire_truncated 4 (le_word 4)"

definition r_u64 :: "u64 reader" where
  "r_u64 = rd_fixed wire_truncated 8 (le_word 8)"

definition r_flag :: "bool reader" where
  "r_flag = rd_bind r_u8 (\<lambda>v. rd_return (v \<noteq> 0))"

definition r_id :: "'tag Id reader" where
  "r_id = rd_bind r_u64 (\<lambda>v. rd_return (Id v))"

definition r_bytes :: "byte list reader" where
  "r_bytes = rd_bind r_u32 (\<lambda>l. rd_fixed (WireError ''truncated wire blob'') (unat l) (take (unat l)))"

definition r_str :: "string reader" where
  "r_str = rd_bind r_u32 (\<lambda>l. rd_fixed (WireError ''truncated wire string'') (unat l)
                               (\<lambda>bs. string_of_bytes (take (unat l) bs)))"

section \<open>Facts on readers\<close>

lemma rd_return_apply [simp]: "rd_return x bs = Inr (x, bs)"
  by (simp add: rd_return_def)

lemma rd_throw_apply [simp]: "rd_throw e bs = Inl e"
  by (simp add: rd_throw_def)

lemma rd_bind_apply [wire_simps]: "m bs = Inr (x, bs') \<Longrightarrow> rd_bind m f bs = f x bs'"
  by (simp add: rd_bind_def)

lemma rd_bind_error: "m bs = Inl e \<Longrightarrow> rd_bind m f bs = Inl e"
  by (simp add: rd_bind_def)

lemma rd_bind_Inr:
  "rd_bind m f bs = Inr (y, rest) \<longleftrightarrow> (\<exists>x bs'. m bs = Inr (x, bs') \<and> f x bs' = Inr (y, rest))"
  by (auto simp: rd_bind_def split: sum.splits prod.splits)

lemma extensible_return [intro]: "extensible (rd_return x)"
  by (simp add: extensible_def)

lemma extensible_throw [intro]: "extensible (rd_throw e)"
  by (simp add: extensible_def)

lemma extensible_bind [intro]:
  "extensible m \<Longrightarrow> (\<And>x. extensible (f x)) \<Longrightarrow> extensible (rd_bind m f)"
  unfolding extensible_def rd_bind_Inr by blast

lemma extensible_if [intro]: "extensible a \<Longrightarrow> extensible b \<Longrightarrow> extensible (if c then a else b)"
  by simp

lemma extensible_option [intro]:
  "extensible a \<Longrightarrow> (\<And>x. extensible (f x)) \<Longrightarrow> extensible (case v of None \<Rightarrow> a | Some x \<Rightarrow> f x)"
  by (cases v) simp_all

lemma extensible_fixed [intro]:
  "(\<And>bs t. k \<le> length bs \<Longrightarrow> f (bs @ t) = f bs) \<Longrightarrow> extensible (rd_fixed e k f)"
  by (auto simp: extensible_def rd_fixed_def split: if_splits)

lemma extensible_many [intro]: "extensible rd \<Longrightarrow> extensible (rd_many rd n)"
  by (induction n) auto

lemma extensible_u8 [intro]: "extensible r_u8"
  unfolding r_u8_def by (rule extensible_fixed) (auto simp: nth_append)

lemma extensible_words [intro]: "extensible r_u16" "extensible r_u32" "extensible r_u64"
  unfolding r_u16_def r_u32_def r_u64_def by (auto intro!: extensible_fixed le_word_append)

lemma extensible_derived [intro]: "extensible r_flag" "extensible r_id" "extensible r_bytes" "extensible r_str"
  unfolding r_flag_def r_id_def r_bytes_def r_str_def
  by (auto intro!: extensible_bind extensible_fixed)

section \<open>The contract of a writer and a reader\<close>

locale codec =
  fixes wr :: "'a \<Rightarrow> byte list"
    and rd :: "'a reader"
    and ok :: "'a \<Rightarrow> bool"
  assumes rd_wr: "ok x \<Longrightarrow> rd (wr x @ rest) = Inr (x, rest)"
    and rd_extensible: "extensible rd"
begin

lemma rd_wr_exact: "ok x \<Longrightarrow> rd (wr x) = Inr (x, [])"
  using rd_wr [of x "[]"] by simp

lemma many_wr:
  "(\<And>x. x \<in> set xs \<Longrightarrow> ok x) \<Longrightarrow> rd_many rd (length xs) (concat (map wr xs) @ rest) = Inr (xs, rest)"
proof (induction xs)
  case (Cons x xs)
  then have "rd (wr x @ concat (map wr xs) @ rest) = Inr (x, concat (map wr xs) @ rest)"
    by (simp add: rd_wr)
  with Cons show ?case by (simp add: rd_bind_apply)
qed simp

lemma truncation_rejected:
  assumes "ok x" and "n < length (wr x)"
  shows "\<not> is_ok (rd (take n (wr x)))"
proof
  assume "is_ok (rd (take n (wr x)))"
  then obtain y rest where "rd (take n (wr x)) = Inr (y, rest)" by (auto simp: is_ok_iff)
  then have "rd (take n (wr x) @ drop n (wr x)) = Inr (y, rest @ drop n (wr x))"
    using rd_extensible unfolding extensible_def by blast
  then have "rd (wr x) = Inr (y, rest @ drop n (wr x))" by (simp only: append_take_drop_id)
  with rd_wr_exact [OF assms(1)] have "rest @ drop n (wr x) = []"
    by (metis prod.inject sum.inject(2))
  then have "drop n (wr x) = []" by (simp only: append_is_Nil_conv)
  with assms(2) show False by simp
qed

lemma wr_inj: "ok x \<Longrightarrow> ok y \<Longrightarrow> wr x @ s = wr y @ t \<Longrightarrow> x = y \<and> s = t"
  using rd_wr by (metis prod.inject sum.inject(2))

end

lemma string_of_bytes_of_string [simp]: "string_of_bytes (bytes_of_string s) = s"
proof -
  have "char_of (unat (of_nat (of_char c) :: byte)) = c" for c
    by (simp add: unsigned_of_nat take_bit_eq_mod)
  then show ?thesis by (simp add: string_of_bytes_def bytes_of_string_def map_idI)
qed

lemma length_bytes_of_string [simp]: "length (bytes_of_string s) = length s"
  by (simp add: bytes_of_string_def)

lemma rd_word_le_bytes:
  "LENGTH('l::len) \<le> 8 * n \<Longrightarrow> rd_fixed e n (le_word n) (le_bytes n (v :: 'l word) @ rest) = Inr (v, rest)"
  by (simp add: rd_fixed_def le_word_le_bytes)

lemma r_w_words [wire_simps]:
  "r_u8 (w_u8 a @ rest) = Inr (a, rest)"
  "r_u16 (w_u16 b @ rest) = Inr (b, rest)"
  "r_u32 (w_u32 c @ rest) = Inr (c, rest)"
  "r_u64 (w_u64 d @ rest) = Inr (d, rest)"
  by (simp_all add: r_u8_def w_u8_def rd_fixed_def r_u16_def w_u16_def r_u32_def w_u32_def
      r_u64_def w_u64_def le_word_le_bytes)

lemma r_w_flag [wire_simps]: "r_flag (w_bool b @ rest) = Inr (b, rest)"
  by (simp add: r_flag_def w_bool_def rd_bind_def r_w_words)

lemma r_w_id [wire_simps]: "r_id (w_u64 (id_value i) @ rest) = Inr (i, rest)"
  by (simp add: r_id_def rd_bind_def r_w_words)

lemma unat_of_nat_u32: "n < 2 ^ 32 \<Longrightarrow> unat (of_nat n :: u32) = n"
  by (simp add: unsigned_of_nat take_bit_eq_mod)

lemma r_w_bytes [wire_simps]: "length v < 2 ^ 32 \<Longrightarrow> r_bytes (w_bytes v @ rest) = Inr (v, rest)"
  by (simp add: r_bytes_def w_bytes_def rd_bind_def r_w_words rd_fixed_def unat_of_nat_u32)

lemma r_w_str [wire_simps]: "length s < 2 ^ 32 \<Longrightarrow> r_str (w_str s @ rest) = Inr (s, rest)"
  by (simp add: r_str_def w_str_def w_bytes_def rd_bind_def r_w_words rd_fixed_def unat_of_nat_u32)

lemma length_words [simp]:
  "length (w_u8 a) = 1" "length (w_u16 b) = 2" "length (w_u32 c) = 4" "length (w_u64 d) = 8"
  "length (w_bool e) = 1"
  by (simp_all add: w_u8_def w_u16_def w_u32_def w_u64_def w_bool_def)

interpretation wire_u8: codec w_u8 r_u8 "\<lambda>_. True"
  by unfold_locales (auto simp: wire_simps)

interpretation wire_u16: codec w_u16 r_u16 "\<lambda>_. True"
  by unfold_locales (auto simp: wire_simps)

interpretation wire_u32: codec w_u32 r_u32 "\<lambda>_. True"
  by unfold_locales (auto simp: wire_simps)

interpretation wire_u64: codec w_u64 r_u64 "\<lambda>_. True"
  by unfold_locales (auto simp: wire_simps)

interpretation wire_bytes: codec w_bytes r_bytes "\<lambda>v. length v < 2 ^ 32"
  by unfold_locales (auto simp: wire_simps)

interpretation wire_str: codec w_str r_str "\<lambda>s. length s < 2 ^ 32"
  by unfold_locales (auto simp: wire_simps)

text \<open>
  A string or a blob written by \<open>WireWriter\<close> is read back by \<open>WireReader\<close> exactly,
  leaving the bytes that follow, and every proper prefix of what was written is rejected
  with an exception instead of being read as a shorter value.
\<close>

theorem wire_strings_roundtrip:
  assumes "length s < 2 ^ 32" and "length v < 2 ^ 32"
  shows "r_str (w_str s @ rest) = Inr (s, rest) \<and> r_bytes (w_bytes v @ rest) = Inr (v, rest)
    \<and> (\<forall>n. n < length (w_str s) \<longrightarrow> \<not> is_ok (r_str (take n (w_str s))))
    \<and> (\<forall>n. n < length (w_bytes v) \<longrightarrow> \<not> is_ok (r_bytes (take n (w_bytes v))))"
  using assms wire_str.rd_wr wire_bytes.rd_wr wire_str.truncation_rejected
    wire_bytes.truncation_rejected by blast

theorem wire_strings_roundtrip_witness:
  "r_str (w_str ''numa'' @ [7]) = Inr (''numa'', [7]) \<and> \<not> is_ok (r_str (take 5 (w_str ''numa'')))"
proof -
  have a: "length ''numa'' < 2 ^ 32" and b: "length ([1, 2] :: byte list) < 2 ^ 32" by simp_all
  have "(5::nat) < length (w_str ''numa'')" by (simp add: w_str_def w_bytes_def)
  with wire_strings_roundtrip [OF a b, of "[7]"] show ?thesis by blast
qed

end
