(* ===== verification/Topology.thy ===== *)
theory Topology
  imports Core_Enums Wire
begin

text \<open>
  \<open>core/digest.hpp\<close>, \<open>topology/topology.hpp\<close> and \<open>src/topology_impl.cpp\<close>: the incremental
  FNV-1a digest and the host topology it fingerprints. A topology is the flat processor
  register plus nodes and groups whose member lists \<open>sort_canonical\<close> rebuilds from the
  register. \<open>std::sort\<close> is the stable sort of the library: on registers with distinct
  identifiers, which is what the theorems assume, the sorted order is unique.
  The theorems: the canonical form and the digest do not depend on the order in which
  processors, nodes and groups were discovered; a node's binary search agrees with the
  register; validation accepts exactly the consistent topologies; the digest shows every
  change of a processor's online flag.
\<close>

section \<open>SemanticDigest\<close>

definition fnv_offset_basis :: u64 where
  "fnv_offset_basis = 0xcbf29ce484222325"

definition fnv_prime :: u64 where
  "fnv_prime = 0x100000001b3"

definition dg_step :: "byte \<Rightarrow> u64 \<Rightarrow> u64" where
  "dg_step c st = (st XOR ucast c) * fnv_prime"

definition dg_bytes :: "byte list \<Rightarrow> u64 \<Rightarrow> u64" where
  "dg_bytes bs st = fold dg_step bs st"

definition dg_u64 :: "u64 \<Rightarrow> u64 \<Rightarrow> u64" where
  "dg_u64 v st = dg_bytes (le_bytes 8 v) st"

definition dg_u8 :: "u8 \<Rightarrow> u64 \<Rightarrow> u64" where
  "dg_u8 v st = dg_step v st"

definition dg_boolean :: "bool \<Rightarrow> u64 \<Rightarrow> u64" where
  "dg_boolean b st = dg_u8 (if b then 1 else 0) st"

definition dg_string :: "string \<Rightarrow> u64 \<Rightarrow> u64" where
  "dg_string s st = dg_bytes (bytes_of_string s) (dg_u64 (of_nat (length s)) st)"

definition dg_field :: "string \<Rightarrow> u64 \<Rightarrow> u64" where
  "dg_field name st = dg_u8 0xFF (dg_bytes (bytes_of_string name) (dg_u64 (of_nat (length name)) st))"

definition hex_digit :: "nat \<Rightarrow> char" where
  "hex_digit d = ''0123456789abcdef'' ! d"

definition dg_hex :: "u64 \<Rightarrow> string" where
  "dg_hex st = concat (map (\<lambda>i. let b = unat (drop_bit i st AND 0xFF) in [hex_digit (b div 16), hex_digit (b mod 16)])
                           [56, 48, 40, 32, 24, 16, 8, 0])"

section \<open>Processors, groups, nodes, hosts\<close>

record Processor =
  pr_id :: ProcessorId
  pr_group :: ProcessorGroupId
  pr_index_in_group :: LogicalProcessorIndex
  pr_node :: NumaNodeId
  pr_online :: bool
  pr_id_certain :: bool

record ProcessorGroupInfo =
  pg_id :: ProcessorGroupId
  pg_index :: ProcessorGroupIndex
  pg_processors :: "ProcessorId list"

record NumaNode =
  nn_id :: NumaNodeId
  nn_generation :: NumaNodeGeneration
  nn_processors :: "ProcessorId list"
  nn_memory_capacity :: Capacity
  nn_free_memory :: AvailableMemory
  nn_memory_info_available :: bool
  nn_page_size :: PageSize
  nn_page_size_known :: bool
  nn_provenance :: Provenance

record HostTopology =
  ht_host_id :: HostId
  ht_generation :: HostGeneration
  ht_groups :: "ProcessorGroupInfo list"
  ht_nodes :: "NumaNode list"
  ht_processors :: "Processor list"
  ht_system_page_size :: PageSize
  ht_allocation_granularity :: Alignment
  ht_numa_node_count_certain :: bool
  ht_provenance :: Provenance

definition is_single_node :: "HostTopology \<Rightarrow> bool" where
  "is_single_node t \<longleftrightarrow> length (ht_nodes t) = 1"

definition find_node :: "HostTopology \<Rightarrow> NumaNodeId \<Rightarrow> NumaNode option" where
  "find_node t nid = List.find (\<lambda>n. nn_id n = nid) (ht_nodes t)"

definition find_processor :: "HostTopology \<Rightarrow> ProcessorId \<Rightarrow> Processor option" where
  "find_processor t pid = List.find (\<lambda>p. pr_id p = pid) (ht_processors t)"

definition find_group :: "HostTopology \<Rightarrow> ProcessorGroupId \<Rightarrow> ProcessorGroupInfo option" where
  "find_group t gid = List.find (\<lambda>g. pg_id g = gid) (ht_groups t)"

text \<open>\<open>std::binary_search\<close>: \<open>lower_bound\<close> halves the remaining length until it is zero.\<close>

fun lower_bound :: "'a::linorder list \<Rightarrow> 'a \<Rightarrow> nat \<Rightarrow> nat \<Rightarrow> nat" where
  "lower_bound xs v first len =
     (if len = 0 then first
      else let half = len div 2; mid = first + half in
           if xs ! mid < v then lower_bound xs v (mid + 1) (len - half - 1)
           else lower_bound xs v first half)"

declare lower_bound.simps [simp del]

definition binary_search :: "'a::linorder list \<Rightarrow> 'a \<Rightarrow> bool" where
  "binary_search xs v = (let i = lower_bound xs v 0 (length xs) in i < length xs \<and> \<not> v < xs ! i)"

definition node_contains :: "NumaNode \<Rightarrow> ProcessorId \<Rightarrow> bool" where
  "node_contains n pid = binary_search (nn_processors n) pid"

section \<open>Canonical order\<close>

definition push_member :: "('p \<Rightarrow> 'k::linorder) \<Rightarrow> ('p \<Rightarrow> 'i) \<Rightarrow> 'p \<Rightarrow> ('k, 'i list) omap \<Rightarrow> ('k, 'i list) omap" where
  "push_member key idf p m =
     om_insert (key p) ((case om_find m (key p) of None \<Rightarrow> [] | Some l \<Rightarrow> l) @ [idf p]) m"

definition members :: "('p \<Rightarrow> 'k::linorder) \<Rightarrow> ('p \<Rightarrow> 'i::linorder) \<Rightarrow> 'p list \<Rightarrow> ('k, 'i list) omap" where
  "members key idf ps = om_map sort (fold (push_member key idf) ps om_empty)"

definition member_list :: "('k::linorder, 'i list) omap \<Rightarrow> 'k \<Rightarrow> 'i list" where
  "member_list m k = (case om_find m k of Some l \<Rightarrow> l | None \<Rightarrow> [])"

definition sort_canonical :: "HostTopology \<Rightarrow> HostTopology" where
  "sort_canonical t =
     (let procs = sort_key pr_id (ht_processors t);
          group_members = members pr_group pr_id procs;
          node_members = members pr_node pr_id procs;
          ns = sort_key nn_id (ht_nodes t);
          gs = sort_key pg_id (ht_groups t)
      in t\<lparr>ht_processors := procs,
           ht_nodes := map (\<lambda>n. n\<lparr>nn_processors := member_list node_members (nn_id n)\<rparr>) ns,
           ht_groups := map (\<lambda>g. g\<lparr>pg_processors := member_list group_members (pg_id g)\<rparr>) gs\<rparr>)"

section \<open>Digest of a topology\<close>

definition dg_processor :: "Processor \<Rightarrow> u64 \<Rightarrow> u64" where
  "dg_processor p d =
     (let d = dg_u64 (id_value (pr_id p)) d;
          d = dg_u64 (id_value (pr_group p)) d;
          d = dg_u64 (id_value (pr_node p)) d;
          d = dg_u64 (ucast (qty_value (pr_index_in_group p))) d
      in dg_boolean (pr_online p) d)"

definition dg_node :: "NumaNode \<Rightarrow> u64 \<Rightarrow> u64" where
  "dg_node n d =
     (let d = dg_u64 (id_value (nn_id n)) d;
          d = dg_u64 (gen_value (nn_generation n)) d;
          d = dg_u64 (qty_value (nn_memory_capacity n)) d;
          d = dg_boolean (nn_memory_info_available n) d;
          d = dg_boolean (nn_page_size_known n) d;
          d = dg_field '''' d;
          d = dg_u64 (of_nat (length (nn_processors n))) d
      in fold (\<lambda>pid. dg_u64 (id_value pid)) (nn_processors n) d)"

definition dg_group :: "ProcessorGroupInfo \<Rightarrow> u64 \<Rightarrow> u64" where
  "dg_group g d =
     (let d = dg_u64 (id_value (pg_id g)) d;
          d = dg_u64 (ucast (qty_value (pg_index g))) d;
          d = dg_u64 (of_nat (length (pg_processors g))) d
      in fold (\<lambda>pid. dg_u64 (id_value pid)) (pg_processors g) d)"

definition semantic_digest :: "HostTopology \<Rightarrow> u64" where
  "semantic_digest t =
     (let d = fnv_offset_basis;
          d = dg_u64 (id_value (ht_host_id t)) (dg_field ''host_id'' d);
          d = dg_u64 (gen_value (ht_generation t)) (dg_field ''host_gen'' d);
          d = dg_u64 (qty_value (ht_system_page_size t)) (dg_field ''page_size'' d);
          d = dg_u64 (qty_value (ht_allocation_granularity t)) (dg_field ''granularity'' d);
          d = dg_boolean (ht_numa_node_count_certain t) (dg_field ''node_count_certain'' d);
          d = dg_u64 (of_nat (length (ht_processors t))) (dg_field ''processors'' d);
          d = fold dg_processor (ht_processors t) d;
          d = dg_u64 (of_nat (length (ht_nodes t))) (dg_field ''nodes'' d);
          d = fold dg_node (ht_nodes t) d;
          d = dg_u64 (of_nat (length (ht_groups t))) (dg_field ''groups'' d)
      in fold dg_group (ht_groups t) d)"

section \<open>Validation\<close>

fun check_processors :: "HostTopology \<Rightarrow> (ProcessorId, NumaNodeId) omap \<Rightarrow> Processor list \<Rightarrow> unit result" where
  "check_processors t owner [] = Inr ()"
| "check_processors t owner (p # ps) =
     (case om_find owner (pr_id p) of
        Some n \<Rightarrow>
          if n \<noteq> pr_node p then Inl (UnsupportedTopologyError ''processor claimed by multiple nodes'')
          else if find_node t (pr_node p) = None then Inl (UnsupportedTopologyError ''processor references missing node'')
          else if find_group t (pr_group p) = None then Inl (UnsupportedTopologyError ''processor references missing group'')
          else check_processors t owner ps
      | None \<Rightarrow>
          if find_node t (pr_node p) = None then Inl (UnsupportedTopologyError ''processor references missing node'')
          else if find_group t (pr_group p) = None then Inl (UnsupportedTopologyError ''processor references missing group'')
          else check_processors t (om_insert (pr_id p) (pr_node p) owner) ps)"

fun check_nodes :: "NumaNode list \<Rightarrow> unit result" where
  "check_nodes [] = Inr ()"
| "check_nodes (n # ns) =
     (if \<not> id_valid (nn_id n) then Inl (UnsupportedTopologyError ''invalid node id'')
      else if list_ex (\<lambda>m. nn_id n = nn_id m) ns then Inl (UnsupportedTopologyError ''duplicate node id'')
      else check_nodes ns)"

definition validate_topology :: "HostTopology \<Rightarrow> unit result" where
  "validate_topology t = rbind (check_processors t om_empty (ht_processors t)) (\<lambda>_. check_nodes (ht_nodes t))"

section \<open>Snapshots\<close>

record TopologySnapshot =
  ts_snapshot_id :: SnapshotId
  ts_host :: HostTopology
  ts_digest :: u64
  ts_created_ms :: u64

definition fingerprints_match :: "TopologySnapshot \<Rightarrow> HostTopology \<Rightarrow> bool" where
  "fingerprints_match s other \<longleftrightarrow> ts_digest s = semantic_digest other"

definition digest_hex :: "TopologySnapshot \<Rightarrow> string" where
  "digest_hex s = dg_hex (ts_digest s)"

section \<open>The canonical form\<close>

lemma find_fold_push_member:
  "om_find (fold (push_member key idf) ps m) k =
     (let new = map idf (filter (\<lambda>p. key p = k) ps) in
      case om_find m k of
        None \<Rightarrow> if new = [] then None else Some new
      | Some l \<Rightarrow> Some (l @ new))"
  by (induction ps arbitrary: m) (auto simp: push_member_def Let_def split: option.splits)

lemma member_list_members:
  "member_list (members key idf ps) k = sort (map idf (filter (\<lambda>p. key p = k) ps))"
  by (simp add: member_list_def members_def find_fold_push_member Let_def split: option.splits)

lemma sort_key_mset_unique:
  assumes "mset xs = mset ys" and "distinct (map f xs)"
  shows "sort_key f xs = sort_key f ys"
proof (rule properties_for_sort_key)
  show "mset (sort_key f ys) = mset xs" using assms(1) by simp
  fix k assume "k \<in> set (sort_key f ys)"
  then have "k \<in> set xs" using assms(1) by (metis mset_eq_setD set_sort)
  have "filter (\<lambda>x. f k = f x) zs = [k]" if "mset zs = mset xs" for zs
  proof -
    have "distinct (map f zs)" using that assms(2) by (metis mset_map mset_eq_imp_distinct_iff)
    moreover have "k \<in> set zs" using that \<open>k \<in> set xs\<close> by (metis mset_eq_setD)
    ultimately show ?thesis
      by (induction zs) (auto simp: filter_empty_conv, metis imageI)
  qed
  from this [of "sort_key f ys"] this [of xs] assms(1)
  show "filter (\<lambda>x. f k = f x) (sort_key f ys) = filter (\<lambda>x. f k = f x) xs" by simp
qed simp

lemma sort_key_map_commute:
  assumes "\<And>x. f (h x) = f x"
  shows "sort_key f (map h xs) = map h (sort_key f xs)"
proof -
  have ins: "insort_key f (h x) (map h ys) = map h (insort_key f x ys)" for x ys
    by (induction ys) (simp_all add: assms)
  show ?thesis by (induction xs) (simp_all add: ins)
qed

text \<open>
  Two descriptions of the same machine: the same facts, found in another order and with
  any member lists in the nodes and groups.
\<close>

definition same_machine :: "HostTopology \<Rightarrow> HostTopology \<Rightarrow> bool" where
  "same_machine t t' \<longleftrightarrow>
     t' = t\<lparr>ht_processors := ht_processors t', ht_nodes := ht_nodes t', ht_groups := ht_groups t'\<rparr>
     \<and> mset (ht_processors t) = mset (ht_processors t')
     \<and> mset (map (nn_processors_update (\<lambda>_. [])) (ht_nodes t)) = mset (map (nn_processors_update (\<lambda>_. [])) (ht_nodes t'))
     \<and> mset (map (pg_processors_update (\<lambda>_. [])) (ht_groups t)) = mset (map (pg_processors_update (\<lambda>_. [])) (ht_groups t'))"

definition distinct_ids :: "HostTopology \<Rightarrow> bool" where
  "distinct_ids t \<longleftrightarrow> distinct (map pr_id (ht_processors t)) \<and> distinct (map nn_id (ht_nodes t))
                     \<and> distinct (map pg_id (ht_groups t))"

lemma rebuilt_unique:
  assumes "mset (map h xs) = mset (map h ys)" and "distinct (map f xs)"
    and "\<And>x. f (h x) = f x" and "\<And>x. g (h x) = g x"
  shows "map g (sort_key f xs) = map g (sort_key f ys)"
proof -
  have "sort_key f (map h xs) = sort_key f (map h ys)"
    using assms(1,2,3) by (intro sort_key_mset_unique) (simp_all add: comp_def)
  then have "map g (map h (sort_key f xs)) = map g (map h (sort_key f ys))"
    using assms(3) by (simp add: sort_key_map_commute)
  with assms(4) show ?thesis by (simp add: comp_def)
qed

text \<open>
  C37. The canonical form, and with it the digest, is independent of the order in which the
  backend discovered processors, nodes and groups and of the member lists it filled in:
  two descriptions of the same machine with distinct identifiers become the same value.
\<close>

theorem digest_independent_of_discovery_order:
  assumes "same_machine t t'" and "distinct_ids t"
  shows "sort_canonical t = sort_canonical t' \<and> semantic_digest (sort_canonical t) = semantic_digest (sort_canonical t')"
proof -
  let ?ps = "sort_key pr_id (ht_processors t)"
  have ps: "?ps = sort_key pr_id (ht_processors t')"
    using assms by (intro sort_key_mset_unique) (simp_all add: same_machine_def distinct_ids_def)
  have ns: "map (\<lambda>n. n\<lparr>nn_processors := member_list m (nn_id n)\<rparr>) (sort_key nn_id (ht_nodes t))
          = map (\<lambda>n. n\<lparr>nn_processors := member_list m (nn_id n)\<rparr>) (sort_key nn_id (ht_nodes t'))" for m
    using assms by (intro rebuilt_unique [where h = "nn_processors_update (\<lambda>_. [])"])
      (simp_all add: same_machine_def distinct_ids_def)
  have gs: "map (\<lambda>g. g\<lparr>pg_processors := member_list m (pg_id g)\<rparr>) (sort_key pg_id (ht_groups t))
          = map (\<lambda>g. g\<lparr>pg_processors := member_list m (pg_id g)\<rparr>) (sort_key pg_id (ht_groups t'))" for m
    using assms by (intro rebuilt_unique [where h = "pg_processors_update (\<lambda>_. [])"])
      (simp_all add: same_machine_def distinct_ids_def)
  have "t' = t\<lparr>ht_processors := ht_processors t', ht_nodes := ht_nodes t', ht_groups := ht_groups t'\<rparr>"
    using assms(1) by (simp add: same_machine_def)
  then obtain ps' ns' gs' where t': "t' = t\<lparr>ht_processors := ps', ht_nodes := ns', ht_groups := gs'\<rparr>" by blast
  have eq: "sort_canonical t = sort_canonical t'"
    using ps ns gs unfolding sort_canonical_def Let_def by (simp add: t')
  then show ?thesis by simp
qed

text \<open>A host with two nodes, as the examples of the repository build it.\<close>

definition sample_processor :: "u64 \<Rightarrow> u64 \<Rightarrow> Processor" where
  "sample_processor i n = \<lparr>pr_id = Id i, pr_group = Id 1, pr_index_in_group = Quantity (ucast i), pr_node = Id n,
                           pr_online = True, pr_id_certain = True\<rparr>"

definition sample_node :: "u64 \<Rightarrow> NumaNode" where
  "sample_node i = \<lparr>nn_id = Id i, nn_generation = Generation 1, nn_processors = [], nn_memory_capacity = Quantity 4096,
                    nn_free_memory = Quantity 4096, nn_memory_info_available = True, nn_page_size = Quantity 4096,
                    nn_page_size_known = True, nn_provenance = prov_unknown\<rparr>"

definition sample_host :: HostTopology where
  "sample_host = \<lparr>ht_host_id = Id 1, ht_generation = Generation 1,
     ht_groups = [\<lparr>pg_id = Id 1, pg_index = Quantity 0, pg_processors = []\<rparr>],
     ht_nodes = [sample_node 2, sample_node 1],
     ht_processors = [sample_processor 3 2, sample_processor 1 1, sample_processor 2 1],
     ht_system_page_size = Quantity 4096, ht_allocation_granularity = Quantity 65536,
     ht_numa_node_count_certain = True, ht_provenance = prov_unknown\<rparr>"

definition sample_host_reordered :: HostTopology where
  "sample_host_reordered = sample_host\<lparr>
     ht_nodes := [sample_node 1, (sample_node 2)\<lparr>nn_processors := [Id 9]\<rparr>],
     ht_processors := [sample_processor 1 1, sample_processor 2 1, sample_processor 3 2]\<rparr>"

theorem digest_independent_of_discovery_order_witness:
  "sort_canonical sample_host = sort_canonical sample_host_reordered
   \<and> semantic_digest (sort_canonical sample_host) = semantic_digest (sort_canonical sample_host_reordered)"
proof (rule digest_independent_of_discovery_order)
  show "same_machine sample_host sample_host_reordered"
    by (simp add: same_machine_def sample_host_def sample_host_reordered_def sample_node_def)
  show "distinct_ids sample_host"
    by (simp add: distinct_ids_def sample_host_def sample_node_def sample_processor_def)
qed

section \<open>Binary search\<close>

lemma lower_bound_correct:
  assumes "sorted xs" and "first + len \<le> length xs"
    and "\<forall>i<first. xs ! i < v" and "\<forall>i. first + len \<le> i \<and> i < length xs \<longrightarrow> v \<le> xs ! i"
  shows "let r = lower_bound xs v first len in
           r \<le> length xs \<and> (\<forall>i<r. xs ! i < v) \<and> (\<forall>i. r \<le> i \<and> i < length xs \<longrightarrow> v \<le> xs ! i)"
  using assms
proof (induction xs v first len rule: lower_bound.induct)
  case (1 xs v first len)
  define half mid where "half = len div 2" and "mid = first + half"
  show ?case
  proof (cases "len = 0")
    case True
    with "1.prems" show ?thesis by (simp add: lower_bound.simps)
  next
    case False
    then have h: "half < len" and m: "mid < length xs" using "1.prems"(2) by (auto simp: half_def mid_def)
    show ?thesis
    proof (cases "xs ! mid < v")
      case True
      have "xs ! i < v" if "i < mid + 1" for i
        using True m that sorted_nth_mono [OF "1.prems"(1), of i mid] by (simp add: le_less_trans)
      moreover have "lower_bound xs v first len = lower_bound xs v (mid + 1) (len - half - 1)"
        using False True by (subst lower_bound.simps) (simp add: half_def mid_def Let_def)
      ultimately show ?thesis
        using "1.IH"(1) [OF False refl refl] True "1.prems" h by (simp add: half_def mid_def)
    next
      case False': False
      have "v \<le> xs ! i" if "mid \<le> i" "i < length xs" for i
        using False' m that sorted_nth_mono [OF "1.prems"(1), of mid i] by (simp add: not_less order_trans)
      moreover have "lower_bound xs v first len = lower_bound xs v first half"
        using False False' by (subst lower_bound.simps) (simp add: half_def mid_def Let_def)
      ultimately show ?thesis
        using "1.IH"(2) [OF False refl refl] False' "1.prems" h m by (simp add: half_def mid_def)
    qed
  qed
qed

lemma binary_search_iff:
  assumes "sorted xs"
  shows "binary_search xs v \<longleftrightarrow> v \<in> set xs"
proof -
  define r where r: "r = lower_bound xs v 0 (length xs)"
  have "let r = lower_bound xs v 0 (length xs) in
          r \<le> length xs \<and> (\<forall>i<r. xs ! i < v) \<and> (\<forall>i. r \<le> i \<and> i < length xs \<longrightarrow> v \<le> xs ! i)"
    by (rule lower_bound_correct [OF assms]) auto
  then have lo: "\<forall>i<r. xs ! i < v" and hi: "\<forall>i. r \<le> i \<and> i < length xs \<longrightarrow> v \<le> xs ! i"
    unfolding r Let_def by blast+
  have "v \<in> set xs \<longleftrightarrow> r < length xs \<and> \<not> v < xs ! r"
  proof
    assume "v \<in> set xs"
    then obtain i where i: "i < length xs" "xs ! i = v" by (auto simp: in_set_conv_nth)
    then have "r \<le> i" using lo by (metis less_irrefl not_le)
    then show "r < length xs \<and> \<not> v < xs ! r"
      using i sorted_nth_mono [OF assms, of r i] by (auto simp: not_less)
  next
    assume a: "r < length xs \<and> \<not> v < xs ! r"
    then have "xs ! r = v" using hi by (auto simp: not_less intro: antisym)
    with a show "v \<in> set xs" by (metis nth_mem)
  qed
  then show ?thesis by (simp add: binary_search_def Let_def r)
qed

text \<open>
  After \<open>sort_canonical\<close>, the binary search of a node's \<open>contains\<close> finds exactly the
  processors that the flat register assigns to that node.
\<close>

theorem node_contains_iff_registered:
  assumes "n \<in> set (ht_nodes (sort_canonical t))"
  shows "node_contains n pid \<longleftrightarrow> (\<exists>p\<in>set (ht_processors t). pr_id p = pid \<and> pr_node p = nn_id n)"
proof -
  from assms have n: "nn_processors n =
      sort (map pr_id (filter (\<lambda>p. pr_node p = nn_id n) (sort_key pr_id (ht_processors t))))"
    by (auto simp: sort_canonical_def Let_def member_list_members)
  then have "sorted (nn_processors n)" by simp
  then have "node_contains n pid \<longleftrightarrow> pid \<in> set (nn_processors n)"
    by (simp add: node_contains_def binary_search_iff)
  then show ?thesis unfolding n by auto
qed

theorem node_contains_iff_registered_witness:
  "node_contains ((sample_node 1)\<lparr>nn_processors := [Id 1, Id 2]\<rparr>) (Id 2) \<longleftrightarrow>
     (\<exists>p\<in>set (ht_processors sample_host). pr_id p = Id 2 \<and> pr_node p = Id 1)"
  using node_contains_iff_registered [of "(sample_node 1)\<lparr>nn_processors := [Id 1, Id 2]\<rparr>" sample_host "Id 2"]
  by (simp add: sort_canonical_def member_list_members sample_host_def sample_node_def sample_processor_def)

section \<open>What validation accepts\<close>

definition topology_consistent :: "HostTopology \<Rightarrow> bool" where
  "topology_consistent t \<longleftrightarrow>
     (\<forall>p\<in>set (ht_processors t). \<forall>q\<in>set (ht_processors t). pr_id p = pr_id q \<longrightarrow> pr_node p = pr_node q)
     \<and> (\<forall>p\<in>set (ht_processors t). pr_node p \<in> nn_id ` set (ht_nodes t) \<and> pr_group p \<in> pg_id ` set (ht_groups t))
     \<and> distinct (map nn_id (ht_nodes t)) \<and> (\<forall>n\<in>set (ht_nodes t). id_valid (nn_id n))"

lemma find_node_iff: "find_node t nid \<noteq> None \<longleftrightarrow> nid \<in> nn_id ` set (ht_nodes t)"
  by (auto simp: find_node_def find_None_iff)

lemma find_group_iff: "find_group t gid \<noteq> None \<longleftrightarrow> gid \<in> pg_id ` set (ht_groups t)"
  by (auto simp: find_group_def find_None_iff)

lemma check_nodes_iff:
  "check_nodes ns = Inr () \<longleftrightarrow> distinct (map nn_id ns) \<and> (\<forall>n\<in>set ns. id_valid (nn_id n))"
  by (induction ns) (auto simp: list_ex_iff)

definition owner_agrees :: "(ProcessorId, NumaNodeId) omap \<Rightarrow> Processor \<Rightarrow> bool" where
  "owner_agrees owner p \<longleftrightarrow> (case om_find owner (pr_id p) of None \<Rightarrow> True | Some n \<Rightarrow> n = pr_node p)"

definition references_exist :: "HostTopology \<Rightarrow> Processor \<Rightarrow> bool" where
  "references_exist t p \<longleftrightarrow> find_node t (pr_node p) \<noteq> None \<and> find_group t (pr_group p) \<noteq> None"

lemma check_processors_Cons:
  "check_processors t owner (p # ps) = Inr () \<longleftrightarrow>
     owner_agrees owner p \<and> references_exist t p \<and> check_processors t (om_insert (pr_id p) (pr_node p) owner) ps = Inr ()"
proof (cases "om_find owner (pr_id p)")
  case (Some n)
  then have "om_insert (pr_id p) n owner = owner" by (rule om.put_back)
  with Some show ?thesis by (auto simp: owner_agrees_def references_exist_def)
qed (simp add: owner_agrees_def references_exist_def)

lemma owner_agrees_insert:
  "owner_agrees (om_insert (pr_id p) (pr_node p) owner) q \<longleftrightarrow>
     (if pr_id q = pr_id p then pr_node p = pr_node q else owner_agrees owner q)"
  by (simp add: owner_agrees_def)

lemma agree_insert:
  "(\<forall>a\<in>insert p S. \<forall>b\<in>insert p S. f a = f b \<longrightarrow> g a = g b) \<longleftrightarrow>
     (\<forall>q\<in>S. f q = f p \<longrightarrow> g p = g q) \<and> (\<forall>a\<in>S. \<forall>b\<in>S. f a = f b \<longrightarrow> g a = g b)"
  by (metis insert_iff)

lemma check_processors_iff:
  "check_processors t owner ps = Inr () \<longleftrightarrow>
     (\<forall>p\<in>set ps. owner_agrees owner p) \<and> (\<forall>p\<in>set ps. references_exist t p)
     \<and> (\<forall>p\<in>set ps. \<forall>q\<in>set ps. pr_id p = pr_id q \<longrightarrow> pr_node p = pr_node q)"
proof (induction ps arbitrary: owner)
  case (Cons p ps)
  have step: "(if pr_id q = pr_id p then pr_node p = pr_node q else owner_agrees owner q)
      \<longleftrightarrow> owner_agrees owner q \<and> (pr_id q = pr_id p \<longrightarrow> pr_node p = pr_node q)" if "owner_agrees owner p" for q
    using that by (cases "om_find owner (pr_id p)") (auto simp: owner_agrees_def)
  show ?case
  proof (cases "owner_agrees owner p")
    case True
    show ?thesis
      unfolding check_processors_Cons Cons.IH owner_agrees_insert step [OF True] ball_conj_distrib
        list.set agree_insert using True by auto
  qed (simp add: check_processors_Cons del: check_processors.simps)
qed simp

lemma validate_topology_iff:
  "validate_topology t = Inr () \<longleftrightarrow> topology_consistent t"
proof -
  have "validate_topology t = Inr () \<longleftrightarrow>
      check_processors t om_empty (ht_processors t) = Inr () \<and> check_nodes (ht_nodes t) = Inr ()"
    by (simp add: validate_topology_def rbind_Inr_iff)
  then show ?thesis
    unfolding check_processors_iff check_nodes_iff topology_consistent_def references_exist_def
      find_node_iff find_group_iff by (auto simp: owner_agrees_def)
qed

text \<open>
  C38. Validation accepts a topology exactly when it is consistent: no processor is claimed
  by two nodes, every processor's node and group exist, and the node identifiers are
  valid and distinct.
\<close>

theorem validate_accepts_exactly_consistent:
  "validate_topology t = Inr () \<longleftrightarrow> topology_consistent t"
  by (rule validate_topology_iff)

section \<open>What the digest shows\<close>

lemma fnv_prime_cancel: "a * fnv_prime = b * fnv_prime \<longleftrightarrow> a = b"
proof
  assume "a * fnv_prime = b * fnv_prime"
  then have "a * (fnv_prime * 0xce965057aff6957b) = b * (fnv_prime * 0xce965057aff6957b)"
    by (simp only: mult.assoc [symmetric])
  moreover have "fnv_prime * 0xce965057aff6957b = 1" by (simp add: fnv_prime_def)
  ultimately show "a = b" by simp
qed simp

lemma dg_step_inj_state [simp]: "dg_step c s = dg_step c s' \<longleftrightarrow> s = s'"
  by (simp add: dg_step_def fnv_prime_cancel xor_cancel_right)

lemma dg_step_inj_byte: "dg_step c s = dg_step c' s \<longleftrightarrow> c = c'"
proof -
  have "s XOR ucast c = s XOR ucast c' \<longleftrightarrow> (ucast c :: u64) = ucast c'"
    by (simp only: xor.commute [of s] xor_cancel_right)
  also have "\<dots> \<longleftrightarrow> c = c'"
  proof -
    have "ucast (ucast b :: u64) = b" for b :: byte by (simp add: bit_eq_iff bit_ucast_iff)
    then show ?thesis by metis
  qed
  finally show ?thesis by (simp add: dg_step_def fnv_prime_cancel)
qed

lemma dg_bytes_inj_state [simp]: "dg_bytes bs s = dg_bytes bs s' \<longleftrightarrow> s = s'"
  by (induction bs arbitrary: s s') (simp_all add: dg_bytes_def)

lemma dg_fold_inj: "(\<And>x s s'. f x s = f x s' \<longleftrightarrow> s = s') \<Longrightarrow> fold f xs s = fold f xs (s' :: u64) \<longleftrightarrow> s = s'"
  by (induction xs arbitrary: s s') simp_all

text \<open>Every accumulation is injective in the state, so nothing hashed before is lost.\<close>

lemma dg_inj_state [simp]:
  "dg_u64 v s = dg_u64 v s' \<longleftrightarrow> s = s'"
  "dg_u8 w s = dg_u8 w s' \<longleftrightarrow> s = s'"
  "dg_boolean b s = dg_boolean b s' \<longleftrightarrow> s = s'"
  "dg_field name s = dg_field name s' \<longleftrightarrow> s = s'"
  by (simp_all add: dg_u64_def dg_u8_def dg_boolean_def dg_field_def)

lemma dg_inj_record [simp]:
  "dg_processor p s = dg_processor p s' \<longleftrightarrow> s = s'"
  "dg_node n s = dg_node n s' \<longleftrightarrow> s = s'"
  "dg_group g s = dg_group g s' \<longleftrightarrow> s = s'"
  by (simp_all add: dg_processor_def dg_node_def dg_group_def Let_def dg_fold_inj)

lemma dg_inj_folds [simp]:
  "fold dg_processor ps s = fold dg_processor ps s' \<longleftrightarrow> s = s'"
  "fold dg_node ns s = fold dg_node ns s' \<longleftrightarrow> s = s'"
  "fold dg_group gs s = fold dg_group gs s' \<longleftrightarrow> s = s'"
  by (simp_all add: dg_fold_inj)

lemma dg_processor_online:
  "pr_online p \<noteq> b \<Longrightarrow> dg_processor (p\<lparr>pr_online := b\<rparr>) s \<noteq> dg_processor p s"
  by (simp add: dg_processor_def Let_def dg_boolean_def dg_u8_def dg_step_inj_byte)

text \<open>
  The digest shows every change of one processor's online flag: two topologies that
  differ in nothing else never have the same digest.
\<close>

theorem digest_shows_online_change:
  assumes "i < length (ht_processors t)" and "pr_online (ht_processors t ! i) \<noteq> b"
  shows "semantic_digest (t\<lparr>ht_processors := (ht_processors t)[i := (ht_processors t ! i)\<lparr>pr_online := b\<rparr>]\<rparr>)
         \<noteq> semantic_digest t"
proof -
  define ps p where "ps = ht_processors t" and "p = ps ! i"
  have i: "i < length ps" and p: "pr_online p \<noteq> b" using assms by (simp_all add: ps_def p_def)
  have fold_neq: "fold dg_processor (ps[i := p\<lparr>pr_online := b\<rparr>]) d \<noteq> fold dg_processor ps d" for d
  proof -
    have "fold dg_processor (ps[i := p\<lparr>pr_online := b\<rparr>]) d =
        fold dg_processor (drop (Suc i) ps) (dg_processor (p\<lparr>pr_online := b\<rparr>) (fold dg_processor (take i ps) d))"
      using i by (simp add: upd_conv_take_nth_drop)
    moreover have "fold dg_processor ps d =
        fold dg_processor (drop (Suc i) ps) (dg_processor p (fold dg_processor (take i ps) d))"
      using i by (subst id_take_nth_drop [of i ps]) (simp_all add: p_def)
    ultimately show ?thesis using dg_processor_online [OF p] by simp
  qed
  then show ?thesis
    unfolding semantic_digest_def Let_def by (simp add: ps_def [symmetric] p_def [symmetric])
qed

theorem digest_shows_online_change_witness:
  "semantic_digest (sample_host\<lparr>ht_processors := (ht_processors sample_host)
       [1 := (ht_processors sample_host ! 1)\<lparr>pr_online := False\<rparr>]\<rparr>) \<noteq> semantic_digest sample_host"
  by (rule digest_shows_online_change) (simp_all add: sample_host_def sample_processor_def)

end
