(* ===== verification/Affinity.thy ===== *)
theory Affinity
  imports Topology
begin

text \<open>
  \<open>affinity/affinity_set.hpp\<close>: a set of logical processors as one 64-bit mask per
  processor group. The state is the vector of masks; \<open>normalize\<close> sorts it by group and
  merges the masks of equal groups, \<open>validate\<close> throws for an invalid group. The mutating
  operations write before they validate, so they return the state also when they throw.
  The theorems: the constructor denotes the union of its masks; every operation keeps the
  normal form and changes exactly the processors it names; \<open>count\<close> is the size of the set.
\<close>

section \<open>Masks\<close>

record GroupMask =
  gm_group :: ProcessorGroupId
  gm_mask :: u64

type_synonym AffinitySet = "GroupMask list"

definition max_group_mask_bits :: nat where
  "max_group_mask_bits = 64"

definition merge_mask :: "GroupMask \<Rightarrow> GroupMask list \<Rightarrow> GroupMask list" where
  "merge_mask gm merged =
     (if merged \<noteq> [] \<and> gm_group (last merged) = gm_group gm
      then butlast merged @ [(last merged)\<lparr>gm_mask := gm_mask (last merged) OR gm_mask gm\<rparr>]
      else merged @ [gm])"

definition aff_normalize :: "GroupMask list \<Rightarrow> GroupMask list" where
  "aff_normalize ms = fold merge_mask (sort_key gm_group ms) []"

definition aff_validate :: "GroupMask list \<Rightarrow> unit result" where
  "aff_validate ms = (if list_all (\<lambda>gm. id_valid (gm_group gm)) ms then Inr () else Inl InvalidAffinityError)"

definition aff_make :: "GroupMask list \<Rightarrow> AffinitySet result" where
  "aff_make ms = rbind (aff_validate (aff_normalize ms)) (\<lambda>_. Inr (aff_normalize ms))"

text \<open>The loop that updates the first mask of the group or pushes a new one.\<close>

fun aff_upsert :: "ProcessorGroupId \<Rightarrow> (u64 \<Rightarrow> u64) \<Rightarrow> u64 \<Rightarrow> GroupMask list \<Rightarrow> GroupMask list" where
  "aff_upsert g upd new [] = [\<lparr>gm_group = g, gm_mask = new\<rparr>]"
| "aff_upsert g upd new (gm # ms) =
     (if gm_group gm = g then gm\<lparr>gm_mask := upd (gm_mask gm)\<rparr> # ms else gm # aff_upsert g upd new ms)"

definition aff_commit :: "GroupMask list \<Rightarrow> (AffinitySet, unit) outcome" where
  "aff_commit ms = (let n = aff_normalize ms in (n, aff_validate n))"

definition set_mask :: "ProcessorGroupId \<Rightarrow> u64 \<Rightarrow> AffinitySet \<Rightarrow> (AffinitySet, unit) outcome" where
  "set_mask g m a = aff_commit (aff_upsert g (\<lambda>_. m) m a)"

definition add_processor :: "ProcessorGroupId \<Rightarrow> u32 \<Rightarrow> AffinitySet \<Rightarrow> (AffinitySet, unit) outcome" where
  "add_processor g idx a =
     (if unat idx \<ge> max_group_mask_bits then (a, Inl InvalidAffinityError)
      else let b = push_bit (unat idx) 1 in aff_commit (aff_upsert g (\<lambda>m. m OR b) b a))"

definition aff_clear :: "AffinitySet \<Rightarrow> AffinitySet" where
  "aff_clear a = []"

definition aff_empty :: "AffinitySet \<Rightarrow> bool" where
  "aff_empty a \<longleftrightarrow> a = []"

fun mask_for :: "AffinitySet \<Rightarrow> ProcessorGroupId \<Rightarrow> u64" where
  "mask_for [] g = 0"
| "mask_for (gm # ms) g = (if gm_group gm = g then gm_mask gm else mask_for ms g)"

definition aff_contains :: "AffinitySet \<Rightarrow> ProcessorGroupId \<Rightarrow> u32 \<Rightarrow> bool" where
  "aff_contains a g idx =
     (if unat idx \<ge> max_group_mask_bits then False else mask_for a g AND push_bit (unat idx) 1 \<noteq> 0)"

definition popcount64 :: "u64 \<Rightarrow> nat" where
  "popcount64 m = length (filter (bit m) [0..<64])"

definition aff_count :: "AffinitySet \<Rightarrow> nat" where
  "aff_count a = sum_list (map (\<lambda>gm. popcount64 (gm_mask gm)) a)"

definition aff_to_string :: "AffinitySet \<Rightarrow> string" where
  "aff_to_string a =
     concat (map (\<lambda>(i, gm). (if i = 0 then '''' else '','') @ ''g'' @ id_to_string (gm_group gm) @ ''=0x'' @ dg_hex (gm_mask gm))
                 (List.enumerate 0 a))"

section \<open>Denotation and normal form\<close>

definition in_masks :: "GroupMask list \<Rightarrow> ProcessorGroupId \<Rightarrow> nat \<Rightarrow> bool" where
  "in_masks ms g i \<longleftrightarrow> (\<exists>gm\<in>set ms. gm_group gm = g \<and> bit (gm_mask gm) i)"

definition aff_ok :: "AffinitySet \<Rightarrow> bool" where
  "aff_ok a \<longleftrightarrow> sorted_wrt (<) (map gm_group a) \<and> list_all (\<lambda>gm. id_valid (gm_group gm)) a"

lemma in_masks_simps [simp]:
  "\<not> in_masks [] g i"
  "in_masks (gm # ms) g i \<longleftrightarrow> gm_group gm = g \<and> bit (gm_mask gm) i \<or> in_masks ms g i"
  "in_masks (xs @ ys) g i \<longleftrightarrow> in_masks xs g i \<or> in_masks ys g i"
  by (auto simp: in_masks_def)

lemma in_masks_group: "in_masks a g i \<Longrightarrow> g \<in> gm_group ` set a"
  by (auto simp: in_masks_def)

lemma in_masks_merge: "in_masks (merge_mask gm acc) g i \<longleftrightarrow> in_masks acc g i \<or> in_masks [gm] g i"
proof (cases acc rule: rev_cases)
  case (snoc ys y)
  then show ?thesis by (auto simp: merge_mask_def bit_or_iff)
qed (simp add: merge_mask_def)

lemma in_masks_fold_merge: "in_masks (fold merge_mask ms acc) g i \<longleftrightarrow> in_masks acc g i \<or> in_masks ms g i"
  by (induction ms arbitrary: acc) (auto simp: in_masks_merge)

lemma in_masks_normalize [simp]: "in_masks (aff_normalize ms) g i \<longleftrightarrow> in_masks ms g i"
  by (simp add: aff_normalize_def in_masks_fold_merge) (simp add: in_masks_def)

lemma groups_fold_merge: "gm_group ` set (fold merge_mask ms acc) = gm_group ` set acc \<union> gm_group ` set ms"
proof (induction ms arbitrary: acc)
  case (Cons gm ms)
  have "gm_group ` set (merge_mask gm acc) = insert (gm_group gm) (gm_group ` set acc)"
    by (cases acc rule: rev_cases) (auto simp: merge_mask_def)
  with Cons show ?case by simp
qed simp

lemma merge_sorted:
  assumes "sorted (map gm_group ms)" and "sorted_wrt (<) (map gm_group acc)"
    and "\<forall>x\<in>set acc. \<forall>y\<in>set ms. gm_group x \<le> gm_group y"
  shows "sorted_wrt (<) (map gm_group (fold merge_mask ms acc))"
  using assms
proof (induction ms arbitrary: acc)
  case (Cons gm ms)
  have "sorted_wrt (<) (map gm_group (merge_mask gm acc))"
  proof (cases acc rule: rev_cases)
    case (snoc ys y)
    with Cons.prems show ?thesis by (fastforce simp: merge_mask_def sorted_wrt_append)
  qed (simp add: merge_mask_def)
  moreover have "\<forall>x\<in>set (merge_mask gm acc). \<forall>z\<in>set ms. gm_group x \<le> gm_group z"
    using Cons.prems by (cases acc rule: rev_cases) (auto simp: merge_mask_def)
  ultimately show ?case using Cons by simp
qed simp

lemma normalize_sorted: "sorted_wrt (<) (map gm_group (aff_normalize ms))"
  unfolding aff_normalize_def by (rule merge_sorted) simp_all

lemma normalize_groups: "gm_group ` set (aff_normalize ms) = gm_group ` set ms"
  by (simp add: aff_normalize_def groups_fold_merge)

lemma validate_normalize: "is_ok (aff_validate (aff_normalize ms)) \<longleftrightarrow> (\<forall>gm\<in>set ms. id_valid (gm_group gm))"
proof -
  have all: "list_all (\<lambda>gm. id_valid (gm_group gm)) xs \<longleftrightarrow> (\<forall>g\<in>gm_group ` set xs. id_valid g)" for xs
    by (auto simp: list_all_iff)
  have "is_ok (aff_validate (aff_normalize ms)) \<longleftrightarrow> (\<forall>g\<in>gm_group ` set (aff_normalize ms). id_valid g)"
    unfolding all [symmetric] by (simp add: aff_validate_def)
  also have "\<dots> \<longleftrightarrow> (\<forall>g\<in>gm_group ` set ms. id_valid g)" by (simp only: normalize_groups)
  finally show ?thesis by simp
qed

lemma validate_cases: "aff_validate ms = (if is_ok (aff_validate ms) then Inr () else Inl InvalidAffinityError)"
  by (simp add: aff_validate_def)

lemma normalize_ok: "\<forall>gm\<in>set ms. id_valid (gm_group gm) \<Longrightarrow> aff_ok (aff_normalize ms)"
  using validate_normalize [of ms] by (simp add: aff_ok_def normalize_sorted aff_validate_def split: if_splits)

lemma mask_for_iff:
  assumes "distinct (map gm_group a)"
  shows "bit (mask_for a g) i \<longleftrightarrow> in_masks a g i"
  using assms
proof (induction a)
  case (Cons gm a)
  then have "\<not> in_masks a (gm_group gm) i" using in_masks_group [of a "gm_group gm" i] by auto
  with Cons show ?case by auto
qed simp

lemma aff_ok_distinct: "aff_ok a \<Longrightarrow> distinct (map gm_group a)"
  by (simp add: aff_ok_def strict_sorted_iff)

lemma and_single_bit: "(m :: u64) AND push_bit n 1 \<noteq> 0 \<longleftrightarrow> bit m n"
  by (simp add: push_bit_of_1 and_exp_eq_0_iff_not_bit)

lemma contains_iff:
  assumes "aff_ok a"
  shows "aff_contains a g idx \<longleftrightarrow> unat idx < 64 \<and> in_masks a g (unat idx)"
  unfolding aff_contains_def and_single_bit mask_for_iff [OF aff_ok_distinct [OF assms]]
  by (simp add: max_group_mask_bits_def)

section \<open>The constructor and the updates\<close>

text \<open>
  An affinity set built from any list of masks over valid groups, in any order and with
  repeated groups, is in normal form and contains exactly the processors that some mask
  of the list names.
\<close>

theorem affinity_constructor_is_union:
  assumes "\<forall>gm\<in>set ms. id_valid (gm_group gm)"
  shows "\<exists>a. aff_make ms = Inr a \<and> aff_ok a
    \<and> (\<forall>g idx. aff_contains a g idx \<longleftrightarrow>
          unat idx < 64 \<and> (\<exists>gm\<in>set ms. gm_group gm = g \<and> bit (gm_mask gm) (unat idx)))"
proof -
  have ok: "aff_ok (aff_normalize ms)" using assms by (rule normalize_ok)
  have "aff_make ms = Inr (aff_normalize ms)"
    using assms validate_cases [of "aff_normalize ms"] by (simp add: aff_make_def validate_normalize)
  moreover have "aff_contains (aff_normalize ms) g idx \<longleftrightarrow>
      unat idx < 64 \<and> (\<exists>gm\<in>set ms. gm_group gm = g \<and> bit (gm_mask gm) (unat idx))" for g idx
    using contains_iff [OF ok, of g idx] by (simp add: in_masks_def [of ms])
  ultimately show ?thesis using ok by blast
qed

theorem affinity_constructor_is_union_witness:
  "\<exists>a. aff_make [\<lparr>gm_group = Id 2, gm_mask = 4\<rparr>, \<lparr>gm_group = Id 1, gm_mask = 1\<rparr>, \<lparr>gm_group = Id 2, gm_mask = 1\<rparr>] = Inr a
     \<and> aff_ok a \<and> aff_contains a (Id 2) 2 \<and> \<not> aff_contains a (Id 1) 2"
proof -
  let ?ms = "[\<lparr>gm_group = Id 2, gm_mask = 4\<rparr>, \<lparr>gm_group = Id 1, gm_mask = 1\<rparr>, \<lparr>gm_group = Id 2, gm_mask = 1\<rparr>] :: GroupMask list"
  have "\<forall>gm\<in>set ?ms. id_valid (gm_group gm)" by simp
  from affinity_constructor_is_union [OF this] show ?thesis
    by (elim exE, intro exI) (auto simp: bit_numeral_word_iff)
qed

lemma upsert_groups: "gm_group ` set (aff_upsert g upd new a) = insert g (gm_group ` set a)"
  by (induction a) auto

lemma upsert_valid:
  "aff_ok a \<Longrightarrow> id_valid g \<Longrightarrow> \<forall>gm\<in>set (aff_upsert g upd new a). id_valid (gm_group gm)"
  by (induction a) (auto simp: aff_ok_def list_all_iff)

lemma in_masks_upsert:
  assumes "distinct (map gm_group a)"
  shows "in_masks (aff_upsert g upd new a) g' i \<longleftrightarrow>
     (if g' = g then (if g \<in> gm_group ` set a then bit (upd (mask_for a g)) i else bit new i) else in_masks a g' i)"
  using assms
proof (induction a)
  case (Cons gm a)
  then have "\<not> in_masks a (gm_group gm) i" using in_masks_group [of a "gm_group gm" i] by auto
  with Cons show ?case by (cases "gm_group gm = g") auto
qed simp

lemma mask_for_absent: "g \<notin> gm_group ` set a \<Longrightarrow> mask_for a g = 0"
  by (induction a) auto

lemma aff_commit_ok:
  assumes "\<forall>gm\<in>set ms. id_valid (gm_group gm)" and "aff_commit ms = (a', r)"
  shows "r = Inr () \<and> aff_ok a' \<and> a' = aff_normalize ms"
proof -
  from assms(2) have a': "a' = aff_normalize ms" and r: "r = aff_validate (aff_normalize ms)"
    by (auto simp: aff_commit_def Let_def)
  have "r = Inr ()" using assms(1) validate_cases [of "aff_normalize ms"] by (simp add: r validate_normalize)
  with a' normalize_ok [OF assms(1)] show ?thesis by simp
qed

text \<open>
  C39. On a set in normal form and a valid group, \<open>add_processor\<close> adds exactly the named
  processor, \<open>set_mask\<close> replaces exactly the processors of its group, both succeed and
  keep the normal form; an index beyond the 64 bits of a mask is refused with nothing
  changed.
\<close>

theorem affinity_updates_exact:
  assumes "aff_ok a" and "id_valid g"
    and "add_processor g idx a = (a1, r1)" and "set_mask g m a = (a2, r2)"
  shows "(if unat idx < 64
          then r1 = Inr () \<and> aff_ok a1
               \<and> (\<forall>g' j. aff_contains a1 g' j \<longleftrightarrow> (g' = g \<and> j = idx) \<or> aff_contains a g' j)
          else r1 = Inl InvalidAffinityError \<and> a1 = a)
    \<and> r2 = Inr () \<and> aff_ok a2
    \<and> (\<forall>g' j. aff_contains a2 g' j \<longleftrightarrow>
          (if g' = g then unat j < 64 \<and> bit m (unat j) else aff_contains a g' j))"
proof -
  note dist = aff_ok_distinct [OF assms(1)]
  have c2: "r2 = Inr ()" "aff_ok a2" "a2 = aff_normalize (aff_upsert g (\<lambda>_. m) m a)"
    using aff_commit_ok [OF upsert_valid [OF assms(1,2)]] assms(4) by (auto simp: set_mask_def)
  have m2: "aff_contains a2 g' j \<longleftrightarrow> (if g' = g then unat j < 64 \<and> bit m (unat j) else aff_contains a g' j)" for g' j
    using contains_iff [OF c2(2)] contains_iff [OF assms(1)] by (simp add: c2(3) in_masks_upsert [OF dist])
  have m1: "r1 = Inr () \<and> aff_ok a1 \<and> (\<forall>g' j. aff_contains a1 g' j \<longleftrightarrow> (g' = g \<and> j = idx) \<or> aff_contains a g' j)"
    if lt: "unat idx < 64"
  proof -
    define b :: u64 where "b = push_bit (unat idx) 1"
    have c1: "r1 = Inr ()" "aff_ok a1" "a1 = aff_normalize (aff_upsert g (\<lambda>m. m OR b) b a)"
      using aff_commit_ok [OF upsert_valid [OF assms(1,2)]] assms(3) lt
      by (auto simp: add_processor_def b_def max_group_mask_bits_def Let_def)
    have bit_b: "bit b (unat j) \<longleftrightarrow> unat j < 64 \<and> j = idx" for j
      using lt by (auto simp: b_def push_bit_of_1 bit_exp_iff word_unat_eq_iff)
    have "aff_contains a1 g' j \<longleftrightarrow> (g' = g \<and> j = idx) \<or> aff_contains a g' j" for g' j
    proof -
      have "aff_contains a1 g' j \<longleftrightarrow> unat j < 64 \<and> in_masks (aff_upsert g (\<lambda>m. m OR b) b a) g' (unat j)"
        unfolding contains_iff [OF c1(2)] by (simp add: c1(3))
      then show ?thesis
        unfolding contains_iff [OF assms(1)] in_masks_upsert [OF dist]
        using lt bit_b [of j] mask_for_absent [of g a] mask_for_iff [OF dist, of g "unat j"]
        by (cases "g' = g"; cases "g \<in> gm_group ` set a") (auto simp: bit_or_iff)
    qed
    with c1 show ?thesis by blast
  qed
  have "r1 = Inl InvalidAffinityError \<and> a1 = a" if "\<not> unat idx < 64"
    using assms(3) that by (auto simp: add_processor_def max_group_mask_bits_def)
  with m1 m2 c2 show ?thesis by simp
qed

theorem affinity_updates_exact_witness:
  "snd (add_processor (Id 1) 3 []) = Inr () \<and> aff_contains (fst (add_processor (Id 1) 3 [])) (Id 1) 3"
proof -
  have "aff_ok []" and "id_valid (Id 1 :: ProcessorGroupId)" by (simp_all add: aff_ok_def)
  from affinity_updates_exact [OF this, of 3 "fst (add_processor (Id 1) 3 [])" "snd (add_processor (Id 1) 3 [])" 0
      "fst (set_mask (Id 1) 0 [])" "snd (set_mask (Id 1) 0 [])"]
  show ?thesis by simp
qed

section \<open>Counting\<close>

lemma count_as_sum: "popcount64 m = card {i. i < 64 \<and> bit m i}"
proof -
  have "popcount64 m = card (set (filter (bit m) [0..<64]))"
    unfolding popcount64_def by (rule distinct_card [symmetric]) simp
  moreover have "set (filter (bit m) [0..<64]) = {i. i < 64 \<and> bit m i}" by auto
  ultimately show ?thesis by simp
qed

lemma card_in_masks:
  assumes "distinct (map gm_group a)"
  shows "finite {(g, i). i < 64 \<and> in_masks a g i}" and "card {(g, i). i < (64::nat) \<and> in_masks a g i} = aff_count a"
proof -
  have "finite {(g, i). i < 64 \<and> in_masks a g i} \<and> card {(g, i). i < (64::nat) \<and> in_masks a g i} = aff_count a"
    using assms
  proof (induction a)
    case Nil
    then show ?case by (simp add: aff_count_def)
  next
    case (Cons gm a)
    let ?A = "{(g, i). i < (64::nat) \<and> in_masks a g i}" and ?B = "{gm_group gm} \<times> {i. i < 64 \<and> bit (gm_mask gm) i}"
    have "{(g, i). i < 64 \<and> in_masks (gm # a) g i} = ?B \<union> ?A" by auto
    moreover have "?B \<inter> ?A = {}" using Cons.prems in_masks_group [of a "gm_group gm"] by auto
    ultimately show ?case
      using Cons by (simp add: card_Un_disjoint card_cartesian_product_singleton count_as_sum aff_count_def)
  qed
  then show "finite {(g, i). i < 64 \<and> in_masks a g i}" and "card {(g, i). i < (64::nat) \<and> in_masks a g i} = aff_count a"
    by simp_all
qed

text \<open>
  \<open>count\<close> of a set in normal form is the number of processors it contains.
\<close>

theorem affinity_count_is_size:
  assumes "aff_ok a"
  shows "aff_count a = card {(g, i). i < (64::nat) \<and> aff_contains a g (of_nat i)}"
proof -
  have "unat (of_nat i :: u32) = i" if "i < 64" for i using that by (intro unat_of_nat_u32) simp
  then have "{(g, i). i < (64::nat) \<and> aff_contains a g (of_nat i)} = {(g, i). i < 64 \<and> in_masks a g i}"
    using contains_iff [OF assms] by auto
  then show ?thesis using card_in_masks(2) [OF aff_ok_distinct [OF assms]] by simp
qed

theorem affinity_count_is_size_witness:
  "2 = card {(g, i). i < (64::nat) \<and> aff_contains [\<lparr>gm_group = Id 1, gm_mask = 5\<rparr>] g (of_nat i)}"
proof -
  have "aff_ok [\<lparr>gm_group = Id 1, gm_mask = 5\<rparr>]" by (simp add: aff_ok_def)
  from affinity_count_is_size [OF this] show ?thesis
    by (simp add: aff_count_def popcount64_def upt_rec bit_numeral_word_iff)
qed

section \<open>A refused update is not undone\<close>

text \<open>
  \<open>set_mask\<close> with an invalid group throws only after it has stored the mask: the set
  is left out of normal form and every later \<open>set_mask\<close> on it throws as well, also for
  valid groups.
\<close>

theorem refused_set_mask_poisons:
  assumes "\<not> id_valid g" and "set_mask g m a = (a', r)" and "set_mask g2 m2 a' = (a'', r')"
  shows "r = Inl InvalidAffinityError \<and> \<not> aff_ok a' \<and> r' = Inl InvalidAffinityError"
proof -
  have bad: "\<exists>gm\<in>set (aff_upsert g upd new xs). \<not> id_valid (gm_group gm)" for upd new xs
    using upsert_groups [of g upd new xs] assms(1) by (metis imageE insertI1)
  have a': "a' = aff_normalize (aff_upsert g (\<lambda>_. m) m a)" and r: "r = aff_validate a'"
    using assms(2) by (auto simp: set_mask_def aff_commit_def Let_def)
  have inv: "g \<in> gm_group ` set a'" unfolding a' normalize_groups upsert_groups by simp
  have "\<not> is_ok r" using bad by (simp add: r a' validate_normalize)
  then have "r = Inl InvalidAffinityError" using validate_cases [of a'] by (simp add: r)
  moreover have "\<not> aff_ok a'" using inv assms(1) by (auto simp: aff_ok_def list_all_iff)
  moreover have "r' = Inl InvalidAffinityError"
  proof -
    have r': "r' = aff_validate (aff_normalize (aff_upsert g2 (\<lambda>_. m2) m2 a'))"
      using assms(3) by (auto simp: set_mask_def aff_commit_def Let_def)
    have "g \<in> gm_group ` set (aff_upsert g2 (\<lambda>_. m2) m2 a')" using inv by (simp add: upsert_groups)
    then have "\<not> is_ok r'" using assms(1) by (auto simp: r' validate_normalize)
    then show ?thesis
      using validate_cases [of "aff_normalize (aff_upsert g2 (\<lambda>_. m2) m2 a')"] by (simp add: r')
  qed
  ultimately show ?thesis by simp
qed

theorem refused_set_mask_poisons_witness:
  "snd (set_mask (Id 0) 1 []) = Inl InvalidAffinityError
   \<and> snd (set_mask (Id 1) 1 (fst (set_mask (Id 0) 1 []))) = Inl InvalidAffinityError"
  using refused_set_mask_poisons [of "Id 0" 1 "[]" "fst (set_mask (Id 0) 1 [])" "snd (set_mask (Id 0) 1 [])"
      "Id 1" 1 "fst (set_mask (Id 1) 1 (fst (set_mask (Id 0) 1 [])))" "snd (set_mask (Id 1) 1 (fst (set_mask (Id 0) 1 [])))"]
  by simp

end
