(* ===== verification/Backend.thy ===== *)
theory Backend
  imports Affinity
begin

text \<open>
  \<open>backend/backend.hpp\<close> and \<open>accelerator/accelerator.hpp\<close>: the interface between the
  runtime and the memory of a host. A backend is a record of operations over a state type
  of its own; the memory manager is defined over any such record. Pointers are 64-bit
  numbers with 0 as the null pointer. The locale \<open>allocator\<close> states what the manager
  relies on: an allocation hands out a handle that was not outstanding, a failed one
  leaves nothing behind, and \<open>free\<close> returns exactly its handle; \<open>ready\<close> says that the backend
  can number one more allocation.
\<close>

section \<open>Allocation requests and results\<close>

datatype BackendKind = BK_Windows | BK_Synthetic

record AllocationSpec =
  as_bytes :: Bytes
  as_alignment :: Alignment
  as_mode :: PlacementMode
  as_preferred_node :: NumaNodeId
  as_required_node :: NumaNodeId
  as_interleave_nodes :: "NumaNodeId list"
  as_kind :: AllocationKind
  as_touch :: bool
  as_persistent :: bool
  as_tag :: string

definition default_spec :: AllocationSpec where
  "default_spec = \<lparr>as_bytes = qty_zero, as_alignment = qty_zero, as_mode = PM_Any, as_preferred_node = invalid_id,
     as_required_node = invalid_id, as_interleave_nodes = [], as_kind = AK_Host, as_touch = True,
     as_persistent = False, as_tag = ''''\<rparr>"

definition validate_spec :: "AllocationSpec \<Rightarrow> unit result" where
  "validate_spec spec =
     (if qty_value (as_bytes spec) = 0 then Inl (BackendError ''allocation of zero bytes'')
      else if as_mode spec = PM_RequiredNode \<and> \<not> id_valid (as_required_node spec)
      then Inl (BackendError ''REQUIRED_NODE without a node'')
      else if as_mode spec = PM_PreferredNode \<and> \<not> id_valid (as_preferred_node spec)
      then Inl (BackendError ''PREFERRED_NODE without a node'')
      else Inr ())"

record AllocationResult =
  ar_region_id :: MemoryRegionId
  ar_ptr :: u64
  ar_granted_bytes :: Bytes
  ar_ptr_valid :: bool
  ar_locality_known :: bool
  ar_observed_node :: NumaNodeId
  ar_kind :: AllocationKind
  ar_touched :: bool
  ar_requested_mode :: PlacementMode

definition default_result :: AllocationResult where
  "default_result = \<lparr>ar_region_id = invalid_id, ar_ptr = 0, ar_granted_bytes = qty_zero, ar_ptr_valid = False,
     ar_locality_known = False, ar_observed_node = invalid_id, ar_kind = AK_Host, ar_touched = False,
     ar_requested_mode = PM_Any\<rparr>"

definition result_ok :: "AllocationResult \<Rightarrow> bool" where
  "result_ok r \<longleftrightarrow> qty_value (ar_granted_bytes r) \<noteq> 0 \<and> (ar_kind r = AK_Synthetic \<or> ar_ptr_valid r)"

text \<open>
  What identifies an allocation to its backend: the synthetic backend numbers its regions and hands out
  no pointer, the Windows backend hands out a pointer and leaves the number zero.
\<close>

datatype handle = Handle MemoryRegionId u64 bool

definition ar_handle :: "AllocationResult \<Rightarrow> handle" where
  "ar_handle r = Handle (ar_region_id r) (ar_ptr r) (ar_ptr_valid r)"

section \<open>Accelerators\<close>

record DeviceDescriptor =
  dd_device_id :: DeviceId
  dd_device_generation :: DeviceGeneration
  dd_vendor :: string
  dd_name :: string
  dd_pci_bdf :: string
  dd_driver_api_ordinal :: int
  dd_compute_capability :: string

record AcceleratorLocality =
  al_accelerator :: AcceleratorId
  al_locality :: LocalityClass
  al_local_node :: NumaNodeId
  al_node_is_certain :: bool
  al_derived_from :: Nanoseconds
  al_provenance :: Provenance

record AcceleratorInfo =
  ai_id :: AcceleratorId
  ai_generation :: AcceleratorGeneration
  ai_device :: DeviceDescriptor
  ai_locality :: AcceleratorLocality
  ai_enumerated :: bool
  ai_provenance :: Provenance

definition is_cuda :: "AcceleratorInfo \<Rightarrow> bool" where
  "is_cuda a \<longleftrightarrow> dd_driver_api_ordinal (ai_device a) \<ge> 0"

section \<open>The interface\<close>

record 'b Backend =
  be_kind :: BackendKind
  be_kind_name :: string
  be_describe :: "'b \<Rightarrow> string"
  be_discover_host :: "'b \<Rightarrow> HostTopology result"
  be_allocate :: "AllocationSpec \<Rightarrow> 'b \<Rightarrow> ('b, AllocationResult) outcome"
  be_free :: "AllocationResult \<Rightarrow> 'b \<Rightarrow> 'b"
  be_probe_allocation_node :: "AllocationResult \<Rightarrow> 'b \<Rightarrow> NumaNodeId option"
  be_current_thread_affinity :: "'b \<Rightarrow> AffinitySet"
  be_apply_thread_affinity :: "AffinitySet \<Rightarrow> 'b \<Rightarrow> 'b \<times> bool"
  be_enumerate_accelerators :: "'b \<Rightarrow> AcceleratorInfo list"
  be_provides_measured_locality :: bool

locale allocator =
  fixes be :: "'b Backend"
    and outstanding :: "'b \<Rightarrow> handle set"
    and be_inv :: "'b \<Rightarrow> bool"
    and ready :: "'b \<Rightarrow> bool"
  assumes alloc_ok: "be_inv b \<Longrightarrow> ready b \<Longrightarrow> be_allocate be spec b = (b', Inr r) \<Longrightarrow>
        be_inv b' \<and> result_ok r \<and> ar_handle r \<notin> outstanding b \<and> outstanding b' = insert (ar_handle r) (outstanding b)"
    and alloc_error: "be_inv b \<Longrightarrow> be_allocate be spec b = (b', Inl e) \<Longrightarrow>
        be_inv b' \<and> outstanding b' = outstanding b \<and> (\<exists>m. e = BackendError m)"
    and free_handle: "be_inv b \<Longrightarrow> ar_handle r \<in> outstanding b \<Longrightarrow>
        be_inv (be_free be r b) \<and> outstanding (be_free be r b) = outstanding b - {ar_handle r}"

end
