(* ===== verification/Ledger.thy ===== *)
theory Ledger
  imports Ordered_Map
begin

text \<open>
  Accounting shared by the reservation store and the memory manager. Both keep a map of
  entries (reservations, regions) and, beside it, counters per account (node, accelerator)
  that must equal the sum of what the live entries are charged with. \<open>ledger\<close> is the
  contract of the counters; \<open>charged_ledger\<close> adds what an entry is charged with and proves
  once that opening, closing, rewriting and moving an entry keeps the books balanced and
  that no counter is left over when nothing is charged.
\<close>

section \<open>Counters\<close>

locale ledger =
  fixes bal :: "'b \<Rightarrow> 'k \<Rightarrow> nat"
    and present :: "'b \<Rightarrow> 'k \<Rightarrow> bool"
    and credit :: "'k \<Rightarrow> 'l::len word \<Rightarrow> 'b \<Rightarrow> 'b"
    and debit :: "'k \<Rightarrow> 'l word \<Rightarrow> 'b \<Rightarrow> 'b"
  assumes bal_credit: "bal b k + unat x < 2 ^ LENGTH('l) \<Longrightarrow> bal (credit k x b) = (bal b)(k := bal b k + unat x)"
    and bal_debit: "unat x \<le> bal b k \<Longrightarrow> bal (debit k x b) = (bal b)(k := bal b k - unat x)"
    and present_credit: "present (credit k x b) k' \<Longrightarrow> k' = k \<or> present b k'"
    and present_debit: "unat x \<le> bal b k \<Longrightarrow> present (debit k x b) k' \<Longrightarrow>
          present b k' \<and> (k' = k \<longrightarrow> bal (debit k x b) k \<noteq> 0)"

locale charged_ledger = ledger bal present credit debit
  for bal :: "'b \<Rightarrow> 'k \<Rightarrow> nat" and present and credit :: "'k \<Rightarrow> 'l::len word \<Rightarrow> 'b \<Rightarrow> 'b" and debit +
  fixes charge :: "'e \<Rightarrow> ('k \<times> 'l word) option"
begin

definition due :: "'k \<Rightarrow> 'e \<Rightarrow> nat" where
  "due k e = (case charge e of None \<Rightarrow> 0 | Some (k', x) \<Rightarrow> if k' = k then unat x else 0)"

definition balanced :: "'b \<Rightarrow> ('i::linorder, 'e) omap \<Rightarrow> bool" where
  "balanced b es \<longleftrightarrow> (\<forall>k. bal b k = om_total (\<lambda>_. due k) es)"

definition backed :: "'b \<Rightarrow> ('i::linorder, 'e) omap \<Rightarrow> bool" where
  "backed b es \<longleftrightarrow> (\<forall>k. present b k \<longrightarrow> (\<exists>i e x. om_find es i = Some e \<and> charge e = Some (k, x)))"

lemma due_None [simp]: "charge e = None \<Longrightarrow> due k e = 0"
  by (simp add: due_def)

lemma due_Some [simp]: "charge e = Some (k', x) \<Longrightarrow> due k e = (if k' = k then unat x else 0)"
  by (simp add: due_def)

lemma due_cong: "charge e = charge e' \<Longrightarrow> due k e = due k e'"
  by (simp add: due_def)

lemma balanced_open:
  assumes "balanced b es" and "om_find es i = None" and "charge e = Some (k, x)"
    and "bal b k + unat x < 2 ^ LENGTH('l)"
  shows "balanced (credit k x b) (om_insert i e es)"
  using assms by (simp add: balanced_def bal_credit om.total_fresh)

lemma balanced_open_free:
  assumes "balanced b es" and "om_find es i = None" and "\<And>k. due k e = 0"
  shows "balanced b (om_insert i e es)"
  using assms by (simp add: balanced_def om.total_fresh)

lemma balanced_rewrite:
  assumes "balanced b es" and "om_find es i = Some e" and "charge e' = charge e"
  shows "balanced b (om_insert i e' es)"
  using assms by (simp add: balanced_def om.total_same [where v = e] due_cong [of e' e])

lemma charged_covered:
  assumes "balanced b es" and "om_find es i = Some e" and "charge e = Some (k, x)"
  shows "unat x \<le> bal b k"
  using assms om.total_ge [OF assms(2), of "\<lambda>_. due k"] by (simp add: balanced_def)

lemma balanced_close:
  assumes "balanced b es" and "om_find es i = Some e" and "charge e = Some (k, x)" and "charge e' = None"
  shows "balanced (debit k x b) (om_insert i e' es)"
proof -
  have le: "unat x \<le> bal b k" by (rule charged_covered [OF assms(1-3)])
  have tot: "om_total (\<lambda>_. due k') (om_insert i e' es) + due k' e = om_total (\<lambda>_. due k') es" for k'
    using om.total_replace [OF assms(2), of "\<lambda>_. due k'" e'] assms(4) by simp
  show ?thesis
    unfolding balanced_def
  proof
    fix k'
    have "bal (debit k x b) k' + due k' e = bal b k'" using le assms(3) by (auto simp: bal_debit)
    also have "\<dots> = om_total (\<lambda>_. due k') es" using assms(1) by (simp add: balanced_def)
    also have "\<dots> = om_total (\<lambda>_. due k') (om_insert i e' es) + due k' e" by (simp add: tot)
    finally show "bal (debit k x b) k' = om_total (\<lambda>_. due k') (om_insert i e' es)" by simp
  qed
qed

text \<open>Replace an entry: take back what the old one was charged with, charge the new one.\<close>

definition settle :: "('k \<times> 'l word) option \<Rightarrow> 'b \<Rightarrow> 'b" where
  "settle c b = (case c of None \<Rightarrow> b | Some (k, x) \<Rightarrow> debit k x b)"

definition post :: "('k \<times> 'l word) option \<Rightarrow> 'b \<Rightarrow> 'b" where
  "post c b = (case c of None \<Rightarrow> b | Some (k, x) \<Rightarrow> credit k x b)"

definition postable :: "('k \<times> 'l word) option \<Rightarrow> 'b \<Rightarrow> bool" where
  "postable c b \<longleftrightarrow> (case c of None \<Rightarrow> True | Some (k, x) \<Rightarrow> bal b k + unat x < 2 ^ LENGTH('l))"

lemma bal_settle:
  assumes "balanced b es" and "om_find es i = Some e"
  shows "bal (settle (charge e) b) c = om_total (\<lambda>_. due c) (om_erase i es)"
proof -
  have "bal b c = due c e + om_total (\<lambda>_. due c) (om_erase i es)"
    using assms om.total_split [OF assms(2), of "\<lambda>_. due c"] by (simp add: balanced_def)
  moreover have "unat x \<le> bal b k" if "charge e = Some (k, x)" for k x
    by (rule charged_covered [OF assms that])
  ultimately show ?thesis
    by (cases "charge e") (auto simp: settle_def bal_debit split: prod.splits)
qed

lemma balanced_replace:
  assumes "balanced b es" and "om_find es i = Some e" and "postable (charge e') (settle (charge e) b)"
  shows "balanced (post (charge e') (settle (charge e) b)) (om_insert i e' es)"
  unfolding balanced_def
proof
  fix c
  have "bal (post (charge e') (settle (charge e) b)) c = due c e' + bal (settle (charge e) b) c"
    using assms(3) by (cases "charge e'") (auto simp: post_def postable_def bal_credit split: prod.splits)
  then show "bal (post (charge e') (settle (charge e) b)) c = om_total (\<lambda>_. due c) (om_insert i e' es)"
    by (simp add: bal_settle [OF assms(1,2)] om.total_put)
qed

lemma balanced_add:
  assumes "balanced b es" and "om_find es i = None" and "postable (charge e) b"
  shows "balanced (post (charge e) b) (om_insert i e es)"
  using assms balanced_open [OF assms(1,2)] balanced_open_free [OF assms(1,2), of e]
  by (cases "charge e") (auto simp: post_def postable_def)

lemma balanced_map: "(\<And>e. charge (f e) = charge e) \<Longrightarrow> balanced b (om_map f es) = balanced b es"
proof -
  assume "\<And>e. charge (f e) = charge e"
  then have "due k (f e) = due k e" for k e by (rule due_cong)
  then show ?thesis by (simp add: balanced_def om_total_map)
qed

lemma backed_open:
  assumes "backed b es" and "om_find es i = None" and "charge e = Some (k, x)"
  shows "backed (credit k x b) (om_insert i e es)"
  unfolding backed_def
proof (intro allI impI)
  fix k' assume "present (credit k x b) k'"
  then consider "k' = k" | "present b k'" by (auto dest: present_credit)
  then show "\<exists>j e' x'. om_find (om_insert i e es) j = Some e' \<and> charge e' = Some (k', x')"
  proof cases
    case 1
    then show ?thesis using assms(3) by (intro exI [of _ i]) simp
  next
    case 2
    with assms(1) obtain j e' x' where "om_find es j = Some e'" "charge e' = Some (k', x')"
      by (auto simp: backed_def)
    with assms(2) show ?thesis by (intro exI [of _ j]) auto
  qed
qed

lemma backed_open_free: "backed b es \<Longrightarrow> om_find es i = None \<Longrightarrow> backed b (om_insert i e es)"
  unfolding backed_def by (metis om_find_insert option.distinct(1))

lemma backed_rewrite: "backed b es \<Longrightarrow> om_find es i = Some e \<Longrightarrow> charge e' = charge e \<Longrightarrow> backed b (om_insert i e' es)"
  unfolding backed_def by (metis om_find_insert option.inject)

text \<open>An account that is still present after a debit has a positive balance, so by the
  balance some other entry is charged to it.\<close>

lemma backed_close:
  assumes "balanced b es" and "backed b es" and "om_find es i = Some e" and "charge e = Some (k, x)"
    and "charge e' = None"
  shows "backed (debit k x b) (om_insert i e' es)"
  unfolding backed_def
proof (intro allI impI)
  fix k' assume p: "present (debit k x b) k'"
  have le: "unat x \<le> bal b k" by (rule charged_covered [OF assms(1,3,4)])
  show "\<exists>j f y. om_find (om_insert i e' es) j = Some f \<and> charge f = Some (k', y)"
  proof (cases "k' = k")
    case True
    have "balanced (debit k x b) (om_insert i e' es)" by (rule balanced_close [OF assms(1,3-5)])
    with present_debit [OF le p] True have "om_total (\<lambda>_. due k') (om_insert i e' es) \<noteq> 0"
      by (auto simp: balanced_def)
    then obtain j f where "om_find (om_insert i e' es) j = Some f" and "due k' f \<noteq> 0"
      by (auto simp: om.total_eq_0_iff)
    then show ?thesis by (auto simp: due_def split: option.splits prod.splits if_splits)
  next
    case False
    from present_debit [OF le p] assms(2) obtain j f y where f: "om_find es j = Some f" "charge f = Some (k', y)"
      by (auto simp: backed_def)
    with False assms(3,4) have "j \<noteq> i" by auto
    with f show ?thesis by (intro exI [of _ j]) auto
  qed
qed

lemma backed_settle:
  assumes "balanced b es" and "backed b es" and "om_find es i = Some e"
  shows "backed (settle (charge e) b) (om_erase i es)"
  unfolding backed_def
proof (intro allI impI)
  fix c assume p: "present (settle (charge e) b) c"
  have le: "unat x \<le> bal b k" if "charge e = Some (k, x)" for k x
    by (rule charged_covered [OF assms(1,3) that])
  show "\<exists>j f y. om_find (om_erase i es) j = Some f \<and> charge f = Some (c, y)"
  proof (cases "\<exists>x. charge e = Some (c, x)")
    case True
    then obtain x where x: "charge e = Some (c, x)" by blast
    with p present_debit [OF le [OF x], of c] have "bal (settle (charge e) b) c \<noteq> 0" by (simp add: settle_def)
    then obtain j f where "om_find (om_erase i es) j = Some f" and "due c f \<noteq> 0"
      unfolding bal_settle [OF assms(1,3)] om.total_eq_0_iff by blast
    then show ?thesis by (auto simp: due_def split: option.splits prod.splits if_splits)
  next
    case False
    have "present b c"
      using p le present_debit by (cases "charge e") (auto simp: settle_def split: prod.splits)
    with assms(2) obtain j f y where f: "om_find es j = Some f" "charge f = Some (c, y)" by (auto simp: backed_def)
    with False assms(3) have "j \<noteq> i" by auto
    with f show ?thesis by (intro exI [of _ j]) auto
  qed
qed

lemma backed_add:
  assumes "backed b es" and "om_find es i = None"
  shows "backed (post (charge e) b) (om_insert i e es)"
  using assms backed_open [OF assms] backed_open_free [OF assms]
  by (cases "charge e") (auto simp: post_def)

lemma backed_replace:
  assumes "balanced b es" and "backed b es" and "om_find es i = Some e"
  shows "backed (post (charge e') (settle (charge e) b)) (om_insert i e' es)"
  using backed_add [OF backed_settle [OF assms], of i e'] by (simp add: om.put_drop)

lemma backed_map: "(\<And>e. charge (f e) = charge e) \<Longrightarrow> backed b es \<Longrightarrow> backed b (om_map f es)"
  unfolding backed_def by (metis (no_types, lifting) om_find_map option.simps(9))

lemma nothing_left:
  assumes "backed b es" and "\<And>i e. om_find es i = Some e \<Longrightarrow> charge e = None"
  shows "\<not> present b k"
  using assms by (fastforce simp: backed_def)

lemma balanced_cong: "bal b = bal b' \<Longrightarrow> balanced b es = balanced b' es"
  by (simp add: balanced_def)

lemma balanced_open_if:
  assumes "balanced b es" and "om_find es i = None" and "charge e = Some (k, x)"
    and "bal b k + unat x < 2 ^ LENGTH('l)"
  shows "balanced (if x \<noteq> 0 then credit k x b else b) (om_insert i e es)"
  using assms by (auto intro: balanced_open balanced_open_free)

lemma backed_open_if:
  assumes "backed b es" and "om_find es i = None" and "charge e = Some (k, x)"
  shows "backed (if c then credit k x b else b) (om_insert i e es)"
  using assms by (auto intro: backed_open backed_open_free)

lemma balanced_empty: "(\<And>k. bal b k = 0) \<Longrightarrow> balanced b om_empty"
  by (simp add: balanced_def)

end

section \<open>Counters in a map\<close>

definition om_bal :: "('k::linorder, 'l::len word) omap \<Rightarrow> 'k \<Rightarrow> nat" where
  "om_bal m k = unat (om_get0 m k)"

definition om_present :: "('k::linorder, 'l::len word) omap \<Rightarrow> 'k \<Rightarrow> bool" where
  "om_present m k \<longleftrightarrow> om_find m k \<noteq> None"

text \<open>Subtract and drop the account when it reaches zero.\<close>

definition om_sub_drop :: "'k::linorder \<Rightarrow> 'l::len word \<Rightarrow> ('k, 'l word) omap \<Rightarrow> ('k, 'l word) omap" where
  "om_sub_drop k x m = (let v = om_get0 m k - x in if v = 0 then om_erase k m else om_insert k v m)"

lemma om_bal_sub_drop:
  assumes "unat x \<le> om_bal m k"
  shows "om_bal (om_sub_drop k x m) = (om_bal m)(k := om_bal m k - unat x)"
proof -
  have "x \<le> om_get0 m k" using assms by (simp add: om_bal_def word_le_nat_alt)
  then have s: "unat (om_get0 m k - x) = unat (om_get0 m k) - unat x" by (rule unat_sub)
  show ?thesis
  proof
    fix k'
    show "om_bal (om_sub_drop k x m) k' = ((om_bal m)(k := om_bal m k - unat x)) k'"
    proof (cases "om_get0 m k - x = 0")
      case True
      with s have "unat (om_get0 m k) - unat x = 0" by simp
      with True show ?thesis by (simp add: om_bal_def om_sub_drop_def)
    qed (simp add: om_bal_def om_sub_drop_def s)
  qed
qed

lemma om_bal_add:
  assumes "om_bal m k + unat (x :: 'l::len word) < 2 ^ LENGTH('l)"
  shows "om_bal (om_add k x m) = (om_bal m)(k := om_bal m k + unat x)"
  using assms by (auto simp: om_bal_def unat_add_no_wrap)

lemma om_present_sub_drop:
  assumes "unat x \<le> om_bal m k" and "om_present (om_sub_drop k x m) k'"
  shows "om_present m k' \<and> (k' = k \<longrightarrow> om_bal (om_sub_drop k x m) k \<noteq> 0)"
proof -
  have "x = 0" if "om_find m k = None"
    using assms(1) that by (simp add: om_bal_def om_find_None_get0 unat_eq_zero)
  then show ?thesis
    using assms(2) by (auto simp: om_present_def om_sub_drop_def om_bal_def Let_def unat_eq_zero om_get0_def
        split: if_splits option.splits)
qed

interpretation counters: ledger om_bal om_present om_add om_sub_drop
proof unfold_locales
  fix m :: "('k::linorder, 'l::len word) omap" and k k' and x
  show "om_bal m k + unat x < 2 ^ LENGTH('l) \<Longrightarrow> om_bal (om_add k x m) = (om_bal m)(k := om_bal m k + unat x)"
    by (rule om_bal_add)
  show "unat x \<le> om_bal m k \<Longrightarrow> om_bal (om_sub_drop k x m) = (om_bal m)(k := om_bal m k - unat x)"
    by (rule om_bal_sub_drop)
  show "om_present (om_add k x m) k' \<Longrightarrow> k' = k \<or> om_present m k'"
    by (auto simp: om_present_def om_add_def split: if_splits)
  show "unat x \<le> om_bal m k \<Longrightarrow> om_present (om_sub_drop k x m) k' \<Longrightarrow>
      om_present m k' \<and> (k' = k \<longrightarrow> om_bal (om_sub_drop k x m) k \<noteq> 0)"
    by (rule om_present_sub_drop)
qed

end
