(* ===== verification/Step_System.thy ===== *)
theory Step_System
  imports Prelude
begin

text \<open>
  The two contracts that the stateful components share. \<open>step_system\<close>: a step relation
  with an invariant that every step keeps; runs are sequences of steps. \<open>id_source\<close>
  extends it: a component that hands out identifiers from a counter. What a client relies
  on is \<open>retired_never_returns\<close>: an identifier below the counter that is no longer in use
  is never in use again, whatever operations follow. This is the fact behind every stale
  authority check of the runtime.
\<close>

locale step_system =
  fixes step :: "'s \<Rightarrow> 's \<Rightarrow> bool"
    and inv :: "'s \<Rightarrow> bool"
  assumes step_inv: "step s s' \<Longrightarrow> inv s \<Longrightarrow> inv s'"
begin

lemma run_inv: "step\<^sup>*\<^sup>* s s' \<Longrightarrow> inv s \<Longrightarrow> inv s'"
  by (induction rule: rtranclp_induct) (auto intro: step_inv)

lemma run_keeps:
  assumes "step\<^sup>*\<^sup>* s s'" and "inv s" and "P s"
    and "\<And>a b. inv a \<Longrightarrow> step a b \<Longrightarrow> P a \<Longrightarrow> P b"
  shows "P s'"
  using assms(1)
proof (induction rule: rtranclp_induct)
  case base
  show ?case by (rule assms(3))
next
  case (step a b)
  then show ?case using assms(2,4) run_inv by blast
qed

end

locale id_source = step_system +
  fixes counter :: "'a \<Rightarrow> u64"
    and in_use :: "'a \<Rightarrow> u64 set"
  assumes in_use_below: "inv s \<Longrightarrow> i \<in> in_use s \<Longrightarrow> i < counter s"
    and counter_mono: "step s s' \<Longrightarrow> inv s \<Longrightarrow> counter s \<le> counter s'"
    and new_in_use: "step s s' \<Longrightarrow> inv s \<Longrightarrow> i \<in> in_use s' \<Longrightarrow> i \<in> in_use s \<or> counter s \<le> i"
begin

lemma run_counter_mono: "step\<^sup>*\<^sup>* s s' \<Longrightarrow> inv s \<Longrightarrow> counter s \<le> counter s'"
  by (induction rule: rtranclp_induct) (auto intro: order_trans counter_mono run_inv)

lemma retired_never_returns:
  assumes "step\<^sup>*\<^sup>* s s'" and "inv s" and "i < counter s" and "i \<notin> in_use s"
  shows "i \<notin> in_use s'"
proof -
  have "i < counter s' \<and> i \<notin> in_use s'"
  proof (rule run_keeps [OF assms(1,2)])
    show "i < counter s \<and> i \<notin> in_use s" using assms(3,4) by simp
    show "i < counter b \<and> i \<notin> in_use b" if "inv a" "step a b" "i < counter a \<and> i \<notin> in_use a" for a b
      using that counter_mono new_in_use by (meson less_le_trans not_le)
  qed
  then show ?thesis by simp
qed

end

end
