(* ===== verification/Synthetic_Backend.thy ===== *)
theory Synthetic_Backend
  imports Backend Ledger Step_System
begin

text \<open>
  \<open>src/synthetic_backend.cpp\<close>: the deterministic backend that models hosts with several
  nodes. Its state is the configuration, the counter of handles, the node of each
  outstanding handle and the bytes used per node. \<open>capacity - used\<close> is the 64-bit
  subtraction of the code. With no node at all an interleaved allocation divides by zero
  in the code; the model is meant for configurations with at least one node.
  Theorems: discovery returns a valid topology for every configuration; a run of
  non-interleaved allocations never exceeds the capacity of a node and its usage is what
  the outstanding results were granted; interleaved allocations leak usage.
\<close>

section \<open>Configuration and state\<close>

record AcceleratorPlacement =
  ap_locality :: LocalityClass
  ap_node :: NumaNodeId

record SyntheticConfig =
  sc_node_count :: u32
  sc_processors_per_node :: u32
  sc_group_capacity :: u32
  sc_expose_memory :: bool
  sc_node_capacities :: "Capacity list"
  sc_distances :: "LocalityCost list list"
  sc_local_thread_node :: u32
  sc_accelerators :: "AcceleratorPlacement list"
  sc_name :: string

record SyntheticBackend =
  sb_cfg :: SyntheticConfig
  sb_next_region :: u64
  sb_region_node :: "(MemoryRegionId, NumaNodeId) omap"
  sb_used :: "(NumaNodeId, u64) omap"

definition kDefaultNodeCapacity :: u64 where
  "kDefaultNodeCapacity = 16 * 1024 * 1024 * 1024"

definition new_synthetic :: "SyntheticConfig \<Rightarrow> SyntheticBackend" where
  "new_synthetic cfg = \<lparr>sb_cfg = cfg, sb_next_region = 1, sb_region_node = om_empty, sb_used = om_empty\<rparr>"

text \<open>\<open>distances[an - 1][bn - 1]\<close>: identifiers start at 1; the code does not guard against
  identifier 0 or short rows, and such an access has no defined value here either.\<close>

definition distance :: "SyntheticConfig \<Rightarrow> NumaNodeId \<Rightarrow> NumaNodeId \<Rightarrow> LocalityCost" where
  "distance cfg a b =
     (if a = b then qty_zero
      else let d = sc_distances cfg; an = unat (id_value a); bn = unat (id_value b) in
        if d \<noteq> [] \<and> an \<le> length d \<and> bn \<le> length d then (d ! unat (id_value a - 1)) ! unat (id_value b - 1)
        else Quantity 100)"

section \<open>Discovery\<close>

definition node_id_of :: "nat \<Rightarrow> NumaNodeId" where
  "node_id_of n = Id (of_nat n + 1)"

definition synthetic_node :: "SyntheticConfig \<Rightarrow> nat \<Rightarrow> NumaNode" where
  "synthetic_node cfg n =
     (let cap = (if sc_node_capacities cfg = [] then Quantity kDefaultNodeCapacity
                 else if n < length (sc_node_capacities cfg) then sc_node_capacities cfg ! n
                 else Quantity kDefaultNodeCapacity)
      in \<lparr>nn_id = node_id_of n, nn_generation = gen_initial, nn_processors = [], nn_memory_capacity = cap,
          nn_free_memory = Quantity (qty_value cap), nn_memory_info_available = sc_expose_memory cfg,
          nn_page_size = Quantity 4096, nn_page_size_known = True,
          nn_provenance = prov_synthetic (''synthetic node '' @ std_to_string (of_nat (n + 1) :: u32))\<rparr>)"

definition global_index :: "SyntheticConfig \<Rightarrow> nat \<Rightarrow> nat \<Rightarrow> u64" where
  "global_index cfg n lp = of_nat n * ucast (sc_processors_per_node cfg) + of_nat lp"

definition group_cap :: "SyntheticConfig \<Rightarrow> u32" where
  "group_cap cfg = max 1 (sc_group_capacity cfg)"

definition group_index :: "SyntheticConfig \<Rightarrow> nat \<Rightarrow> nat \<Rightarrow> u32" where
  "group_index cfg n lp = ucast (global_index cfg n lp div ucast (group_cap cfg))"

definition synthetic_processor :: "SyntheticConfig \<Rightarrow> nat \<times> nat \<Rightarrow> Processor" where
  "synthetic_processor cfg = (\<lambda>(n, lp).
     \<lparr>pr_id = Id (global_index cfg n lp + 1), pr_group = Id (ucast (group_index cfg n lp) + 1),
      pr_index_in_group = Quantity (ucast (global_index cfg n lp mod ucast (group_cap cfg))),
      pr_node = node_id_of n, pr_online = True, pr_id_certain = False\<rparr>)"

definition processor_slots :: "SyntheticConfig \<Rightarrow> (nat \<times> nat) list" where
  "processor_slots cfg =
     concat (map (\<lambda>n. map (Pair n) [0..<unat (sc_processors_per_node cfg)]) [0..<unat (sc_node_count cfg)])"

definition group_register :: "SyntheticConfig \<Rightarrow> (u32, ProcessorId list) omap" where
  "group_register cfg =
     fold (push_member (\<lambda>(n, lp). group_index cfg n lp) (\<lambda>(n, lp). Id (global_index cfg n lp + 1)))
       (processor_slots cfg) om_empty"

definition synthetic_group :: "u32 \<times> ProcessorId list \<Rightarrow> ProcessorGroupInfo" where
  "synthetic_group = (\<lambda>(idx, pids). \<lparr>pg_id = Id (ucast idx + 1), pg_index = Quantity (ucast (idx + 1)), pg_processors = pids\<rparr>)"

definition synthetic_base :: "SyntheticConfig \<Rightarrow> HostTopology" where
  "synthetic_base cfg =
     \<lparr>ht_host_id = Id 1, ht_generation = Generation 1, ht_groups = [],
      ht_nodes = map (synthetic_node cfg) [0..<unat (sc_node_count cfg)],
      ht_processors = map (synthetic_processor cfg) (processor_slots cfg),
      ht_system_page_size = Quantity 4096, ht_allocation_granularity = Quantity 4096,
      ht_numa_node_count_certain = True,
      ht_provenance = prov_synthetic ''synthetic multi-node model''\<rparr>"

definition add_groups :: "SyntheticConfig \<Rightarrow> HostTopology \<Rightarrow> HostTopology" where
  "add_groups cfg host =
     host\<lparr>ht_groups := sort_key pg_id (ht_groups host @ map synthetic_group (om_entries (group_register cfg)))\<rparr>"

definition discover_host :: "SyntheticConfig \<Rightarrow> HostTopology result" where
  "discover_host cfg =
     (let host = add_groups cfg (sort_canonical (synthetic_base cfg))
      in rbind (validate_topology host) (\<lambda>_. Inr host))"

section \<open>Allocation\<close>

definition capacity_for :: "SyntheticBackend \<Rightarrow> NumaNodeId \<Rightarrow> u64" where
  "capacity_for b n =
     (let caps = sc_node_capacities (sb_cfg b); idx = id_value n - 1 in
      if caps = [] then kDefaultNodeCapacity
      else if unat idx < length caps then qty_value (caps ! unat idx)
      else kDefaultNodeCapacity)"

definition used_for :: "SyntheticBackend \<Rightarrow> NumaNodeId \<Rightarrow> u64" where
  "used_for b n = om_get0 (sb_used b) n"

definition fits_on :: "SyntheticBackend \<Rightarrow> u64 \<Rightarrow> NumaNodeId \<Rightarrow> bool" where
  "fits_on b bytes n \<longleftrightarrow> capacity_for b n - used_for b n \<ge> bytes"

definition choose_node_for :: "SyntheticBackend \<Rightarrow> AllocationSpec \<Rightarrow> NumaNodeId \<Rightarrow> bool \<Rightarrow> NumaNodeId" where
  "choose_node_for b spec target allow_fallback =
     (let bytes = qty_value (as_bytes spec) in
      if id_valid target \<and> fits_on b bytes target then target
      else if id_valid target \<and> \<not> allow_fallback then invalid_id
      else case List.find (fits_on b bytes) (map node_id_of [0..<unat (sc_node_count (sb_cfg b))]) of
             Some n \<Rightarrow> n
           | None \<Rightarrow> invalid_id)"

definition synthetic_result :: "AllocationSpec \<Rightarrow> u64 \<Rightarrow> NumaNodeId \<Rightarrow> AllocationResult" where
  "synthetic_result spec region node =
     default_result\<lparr>ar_region_id := Id region, ar_kind := AK_Synthetic, ar_requested_mode := as_mode spec,
       ar_granted_bytes := as_bytes spec, ar_ptr := 0, ar_ptr_valid := False, ar_touched := False,
       ar_locality_known := True, ar_observed_node := node\<rparr>"

definition allocate_interleaved :: "AllocationSpec \<Rightarrow> SyntheticBackend \<Rightarrow> (SyntheticBackend, AllocationResult) outcome" where
  "allocate_interleaved spec b =
     (let nodes = (if as_interleave_nodes spec = [] then map node_id_of [0..<unat (sc_node_count (sb_cfg b))]
                   else as_interleave_nodes spec);
          chunk = max 1 (qty_value (as_bytes spec) div of_nat (length nodes));
          r = synthetic_result spec (sb_next_region b) (case nodes of [] \<Rightarrow> invalid_id | n # _ \<Rightarrow> n)
      in (b\<lparr>sb_next_region := sb_next_region b + 1,
            sb_used := fold (\<lambda>n. om_add n chunk) nodes (sb_used b),
            sb_region_node := om_insert (ar_region_id r) (ar_observed_node r) (sb_region_node b)\<rparr>, Inr r))"

fun target_of :: "AllocationSpec \<Rightarrow> SyntheticBackend \<Rightarrow> NumaNodeId \<times> bool" where
  "target_of spec b =
     (case as_mode spec of
        PM_RequiredNode \<Rightarrow> (as_required_node spec, False)
      | PM_PreferredNode \<Rightarrow> (as_preferred_node spec, True)
      | PM_Local \<Rightarrow> (Id (ucast (sc_local_thread_node (sb_cfg b)) + 1), True)
      | PM_Interleaved \<Rightarrow> (invalid_id, False)
      | _ \<Rightarrow> (invalid_id, True))"

definition syn_allocate :: "AllocationSpec \<Rightarrow> SyntheticBackend \<Rightarrow> (SyntheticBackend, AllocationResult) outcome" where
  "syn_allocate spec b =
     (case validate_spec spec of
        Inl e \<Rightarrow> (b, Inl e)
      | Inr _ \<Rightarrow>
          if as_mode spec = PM_Interleaved then allocate_interleaved spec b
          else let (target, allow_fallback) = target_of spec b;
                   chosen = choose_node_for b spec target allow_fallback;
                   bytes = qty_value (as_bytes spec) in
               if \<not> id_valid chosen then (b, Inl (BackendError ''no synthetic node has capacity for this allocation''))
               else if bytes > capacity_for b chosen - used_for b chosen
               then (b, Inl (BackendError ''required synthetic node capacity exhausted''))
               else let r = synthetic_result spec (sb_next_region b) chosen in
                    (b\<lparr>sb_next_region := sb_next_region b + 1,
                       sb_region_node := om_insert (ar_region_id r) chosen (sb_region_node b),
                       sb_used := om_add chosen bytes (sb_used b)\<rparr>, Inr r))"

definition syn_free :: "AllocationResult \<Rightarrow> SyntheticBackend \<Rightarrow> SyntheticBackend" where
  "syn_free alloc b =
     (if \<not> id_valid (ar_region_id alloc) then b
      else case om_find (sb_region_node b) (ar_region_id alloc) of
        None \<Rightarrow> b
      | Some node \<Rightarrow>
          let bytes = qty_value (ar_granted_bytes alloc);
              used = (case om_find (sb_used b) node of
                        None \<Rightarrow> sb_used b
                      | Some u \<Rightarrow> om_insert node (if bytes \<ge> u then 0 else u - bytes) (sb_used b))
          in b\<lparr>sb_used := used, sb_region_node := om_erase (ar_region_id alloc) (sb_region_node b)\<rparr>)"

definition syn_probe :: "AllocationResult \<Rightarrow> SyntheticBackend \<Rightarrow> NumaNodeId option" where
  "syn_probe alloc b =
     (case om_find (sb_region_node b) (ar_region_id alloc) of
        Some n \<Rightarrow> Some n
      | None \<Rightarrow> Some (ar_observed_node alloc))"

definition syn_current_thread_affinity :: "SyntheticBackend \<Rightarrow> AffinitySet" where
  "syn_current_thread_affinity b = fst (add_processor (Id 1) 0 [])"

definition syn_apply_thread_affinity :: "AffinitySet \<Rightarrow> SyntheticBackend \<Rightarrow> SyntheticBackend \<times> bool" where
  "syn_apply_thread_affinity target b = (b, \<not> aff_empty target)"

definition syn_accelerator :: "nat \<times> AcceleratorPlacement \<Rightarrow> AcceleratorInfo" where
  "syn_accelerator = (\<lambda>(i, ap).
     \<lparr>ai_id = Id (of_nat i + 1), ai_generation = gen_initial,
      ai_device = \<lparr>dd_device_id = invalid_id, dd_device_generation = gen_initial, dd_vendor = ''Synthetic'',
                   dd_name = ''SyntheticAccelerator'' @ std_to_string (of_nat (i + 1) :: u64), dd_pci_bdf = '''',
                   dd_driver_api_ordinal = -1, dd_compute_capability = ''''\<rparr>,
      ai_locality = \<lparr>al_accelerator = Id (of_nat i + 1), al_locality = ap_locality ap, al_local_node = ap_node ap,
                     al_node_is_certain = (ap_locality ap = LC_SameNumaNode), al_derived_from = qty_zero,
                     al_provenance = prov_unknown\<rparr>,
      ai_enumerated = False,
      ai_provenance = prov_synthetic (''synthetic accelerator '' @ std_to_string (of_nat (i + 1) :: u64))\<rparr>)"

definition syn_enumerate_accelerators :: "SyntheticBackend \<Rightarrow> AcceleratorInfo list" where
  "syn_enumerate_accelerators b = map syn_accelerator (List.enumerate 0 (sc_accelerators (sb_cfg b)))"

definition syn_describe :: "SyntheticBackend \<Rightarrow> string" where
  "syn_describe b = ''Synthetic backend (deterministic '' @ std_to_string (sc_node_count (sb_cfg b))
     @ ''-node model; provenance=SYNTHETIC)''"

definition make_synthetic_backend :: "SyntheticBackend Backend" where
  "make_synthetic_backend = \<lparr>be_kind = BK_Synthetic, be_kind_name = ''synthetic'', be_describe = syn_describe, be_discover_host = (\<lambda>b. discover_host (sb_cfg b)), be_allocate = syn_allocate, be_free = syn_free,
     be_probe_allocation_node = syn_probe, be_current_thread_affinity = syn_current_thread_affinity,
     be_apply_thread_affinity = syn_apply_thread_affinity, be_enumerate_accelerators = syn_enumerate_accelerators,
     be_provides_measured_locality = False\<rparr>"

section \<open>The allocator contract\<close>

definition syn_ids :: "SyntheticBackend \<Rightarrow> MemoryRegionId set" where
  "syn_ids b = {i. om_find (sb_region_node b) i \<noteq> None}"

definition syn_inv :: "SyntheticBackend \<Rightarrow> bool" where
  "syn_inv b \<longleftrightarrow> 0 < sb_next_region b \<and> (\<forall>i\<in>syn_ids b. id_valid i \<and> id_value i < sb_next_region b)"

definition syn_ready :: "SyntheticBackend \<Rightarrow> bool" where
  "syn_ready b \<longleftrightarrow> sb_next_region b \<noteq> - 1"

lemma new_synthetic_inv: "syn_inv (new_synthetic cfg)"
  by (simp add: syn_inv_def new_synthetic_def syn_ids_def)

text \<open>Every successful allocation, interleaved or not, stores one new handle.\<close>

lemma syn_allocate_Inr:
  assumes "syn_allocate spec b = (b', Inr r)"
  shows "ar_region_id r = Id (sb_next_region b)" and "sb_next_region b' = sb_next_region b + 1"
    and "sb_region_node b' = om_insert (ar_region_id r) (ar_observed_node r) (sb_region_node b)"
    and "sb_cfg b' = sb_cfg b" and "qty_value (ar_granted_bytes r) \<noteq> 0"
    and "ar_granted_bytes r = as_bytes spec"
  using assms
  by (auto simp: syn_allocate_def allocate_interleaved_def synthetic_result_def default_result_def validate_spec_def Let_def
      split: sum.splits if_splits prod.splits)

lemma syn_allocate_kind: "syn_allocate spec b = (b', Inr r) \<Longrightarrow> ar_kind r = AK_Synthetic"
  by (auto simp: syn_allocate_def allocate_interleaved_def synthetic_result_def Let_def
      split: sum.splits if_splits prod.splits)

lemma syn_allocate_Inl:
  assumes "syn_allocate spec b = (b', Inl e)"
  shows "b' = b \<and> (\<exists>m. e = BackendError m)"
  using assms
  by (auto simp: syn_allocate_def allocate_interleaved_def validate_spec_def Let_def split: sum.splits if_splits prod.splits)

lemma syn_inv_alloc:
  assumes "syn_inv b" and "syn_ready b" and "syn_allocate spec b = (b', Inr r)"
  shows "syn_inv b' \<and> id_valid (ar_region_id r) \<and> ar_region_id r \<notin> syn_ids b
         \<and> syn_ids b' = insert (ar_region_id r) (syn_ids b)"
proof -
  note r = syn_allocate_Inr [OF assms(3)]
  have lt: "sb_next_region b < sb_next_region b + 1"
    using assms(2) word_less_succ(1) by (auto simp: syn_ready_def)
  have out: "syn_ids b' = insert (ar_region_id r) (syn_ids b)"
    by (auto simp: syn_ids_def r(3))
  have pos: "0 < sb_next_region b" using assms(1) by (simp add: syn_inv_def)
  then have "0 < sb_next_region b + 1" by (rule less_trans [OF _ lt])
  with assms(1) lt pos out show ?thesis
    by (auto simp: syn_inv_def r(1,2) intro: less_trans)
qed

lemma syn_ids_free:
  assumes "syn_inv b"
  shows "syn_ids (syn_free r b) = syn_ids b - {ar_region_id r}"
  using assms by (auto simp: syn_inv_def syn_free_def syn_ids_def Let_def split: option.splits)

lemma syn_free_next [simp]: "sb_next_region (syn_free r b) = sb_next_region b" "sb_cfg (syn_free r b) = sb_cfg b"
  by (simp_all add: syn_free_def Let_def split: option.splits)

definition syn_outstanding :: "SyntheticBackend \<Rightarrow> handle set" where
  "syn_outstanding b = (\<lambda>i. Handle i 0 False) ` syn_ids b"

lemma syn_allocate_handle: "syn_allocate spec b = (b', Inr r) \<Longrightarrow> ar_handle r = Handle (ar_region_id r) 0 False"
  by (auto simp: syn_allocate_def allocate_interleaved_def synthetic_result_def ar_handle_def Let_def
      split: sum.splits if_splits prod.splits)

interpretation synthetic: allocator make_synthetic_backend syn_outstanding syn_inv syn_ready
proof unfold_locales
  fix b b' :: SyntheticBackend and spec r e
  show "syn_inv b \<Longrightarrow> syn_ready b \<Longrightarrow> be_allocate make_synthetic_backend spec b = (b', Inr r) \<Longrightarrow>
      syn_inv b' \<and> result_ok r \<and> ar_handle r \<notin> syn_outstanding b
      \<and> syn_outstanding b' = insert (ar_handle r) (syn_outstanding b)"
    using syn_inv_alloc [of b spec b' r] syn_allocate_Inr(5) [of spec b b' r] syn_allocate_kind [of spec b b' r]
      syn_allocate_handle [of spec b b' r]
    by (auto simp: make_synthetic_backend_def result_ok_def syn_outstanding_def)
  show "syn_inv b \<Longrightarrow> be_allocate make_synthetic_backend spec b = (b', Inl e) \<Longrightarrow>
      syn_inv b' \<and> syn_outstanding b' = syn_outstanding b \<and> (\<exists>m. e = BackendError m)"
    using syn_allocate_Inl [of spec b b' e] by (simp add: make_synthetic_backend_def)
  show "syn_inv b \<Longrightarrow> ar_handle r \<in> syn_outstanding b \<Longrightarrow> syn_inv (be_free make_synthetic_backend r b)
      \<and> syn_outstanding (be_free make_synthetic_backend r b) = syn_outstanding b - {ar_handle r}"
    using syn_ids_free [of b r] by (auto simp: make_synthetic_backend_def syn_inv_def syn_outstanding_def ar_handle_def)
qed

section \<open>Usage and capacity\<close>

text \<open>
  A run of allocations that are not interleaved and frees of results that are still
  outstanding. The second component records what was handed out: \<open>Some r\<close> while the
  result is outstanding, \<open>None\<close> once it was freed.
\<close>

type_synonym handed_out = "(MemoryRegionId, AllocationResult option) omap"

inductive syn_step :: "SyntheticBackend \<times> handed_out \<Rightarrow> SyntheticBackend \<times> handed_out \<Rightarrow> bool" where
  allocated: "as_mode spec \<noteq> PM_Interleaved \<Longrightarrow> syn_ready b \<Longrightarrow> syn_allocate spec b = (b', Inr r) \<Longrightarrow>
     syn_step (b, h) (b', om_insert (ar_region_id r) (Some r) h)"
| refused: "syn_allocate spec b = (b', Inl e) \<Longrightarrow> syn_step (b, h) (b', h)"
| freed: "om_find h i = Some (Some r) \<Longrightarrow> syn_step (b, h) (syn_free r b, om_insert i None h)"

definition result_charge :: "AllocationResult option \<Rightarrow> (NumaNodeId \<times> u64) option" where
  "result_charge e = map_option (\<lambda>r. (ar_observed_node r, qty_value (ar_granted_bytes r))) e"

definition sub_clamp :: "NumaNodeId \<Rightarrow> u64 \<Rightarrow> (NumaNodeId, u64) omap \<Rightarrow> (NumaNodeId, u64) omap" where
  "sub_clamp node bytes m =
     (case om_find m node of
        None \<Rightarrow> m
      | Some u \<Rightarrow> om_insert node (if bytes \<ge> u then 0 else u - bytes) m)"

lemma om_bal_sub_clamp:
  assumes "unat x \<le> om_bal m k"
  shows "om_bal (sub_clamp k x m) = (om_bal m)(k := om_bal m k - unat x)"
proof (cases "om_find m k")
  case None
  then show ?thesis by (auto simp: sub_clamp_def om_bal_def om_find_None_get0)
next
  case (Some u)
  then have u: "om_get0 m k = u" by (simp add: om_get0_def)
  with assms have le: "unat x \<le> unat u" by (simp add: om_bal_def)
  have "unat (if x \<ge> u then 0 else u - x) = unat u - unat x"
    using le by (auto simp: word_le_nat_alt intro!: unat_sub)
  with Some u show ?thesis by (auto simp: sub_clamp_def om_bal_def)
qed

text \<open>The backend keeps a counter that reached zero, so nothing is claimed on presence.\<close>

interpretation usage: charged_ledger om_bal "\<lambda>_ _. False" om_add sub_clamp result_charge
  by unfold_locales (simp_all add: om_bal_add om_bal_sub_clamp)

definition usage_inv :: "SyntheticConfig \<Rightarrow> SyntheticBackend \<times> handed_out \<Rightarrow> bool" where
  "usage_inv cfg = (\<lambda>(b, h). syn_inv b \<and> sb_cfg b = cfg \<and> usage.balanced (sb_used b) h
     \<and> (\<forall>n. unat (used_for b n) \<le> unat (capacity_for b n))
     \<and> (\<forall>i e. om_find h i = Some e \<longrightarrow> id_value i < sb_next_region b)
     \<and> (\<forall>i r. om_find h i = Some (Some r) \<longrightarrow> ar_region_id r = i \<and> id_valid i
          \<and> om_find (sb_region_node b) i = Some (ar_observed_node r)))"

lemma capacity_for_cong: "sb_cfg b = sb_cfg b' \<Longrightarrow> capacity_for b = capacity_for b'"
  by (rule ext) (simp add: capacity_for_def)

lemma syn_allocate_used:
  assumes "syn_allocate spec b = (b', Inr r)" and "as_mode spec \<noteq> PM_Interleaved"
  shows "sb_used b' = om_add (ar_observed_node r) (qty_value (ar_granted_bytes r)) (sb_used b)"
    and "qty_value (ar_granted_bytes r) \<le> capacity_for b (ar_observed_node r) - used_for b (ar_observed_node r)"
  using assms
  by (auto simp: syn_allocate_def synthetic_result_def default_result_def Let_def not_less
      split: sum.splits if_splits prod.splits)

lemma syn_free_outstanding:
  assumes "id_valid (ar_region_id r)" and "om_find (sb_region_node b) (ar_region_id r) = Some node"
  shows "syn_free r b = b\<lparr>sb_used := sub_clamp node (qty_value (ar_granted_bytes r)) (sb_used b),
                          sb_region_node := om_erase (ar_region_id r) (sb_region_node b)\<rparr>"
  using assms by (simp add: syn_free_def sub_clamp_def Let_def)

lemma usage_inv_alloc:
  assumes "usage_inv cfg (b, h)" and "as_mode spec \<noteq> PM_Interleaved" and "syn_ready b"
    and "syn_allocate spec b = (b', Inr r)"
  shows "usage_inv cfg (b', om_insert (ar_region_id r) (Some r) h)"
proof -
  let ?n = "ar_observed_node r" and ?x = "qty_value (ar_granted_bytes r)"
  note r = syn_allocate_Inr [OF assms(4)] and used = syn_allocate_used [OF assms(4,2)]
  have inv: "syn_inv b" "sb_cfg b = cfg" "usage.balanced (sb_used b) h"
    and cap: "unat (used_for b ?n) \<le> unat (capacity_for b ?n)"
    using assms(1) by (simp_all add: usage_inv_def)
  have fresh: "om_find h (ar_region_id r) = None"
  proof (cases "om_find h (ar_region_id r)")
    case (Some e)
    with assms(1) have "id_value (ar_region_id r) < sb_next_region b" unfolding usage_inv_def by blast
    then show ?thesis by (simp add: r(1))
  qed
  have "used_for b ?n \<le> capacity_for b ?n" using cap by (simp add: word_le_nat_alt)
  then have "unat (capacity_for b ?n - used_for b ?n) = unat (capacity_for b ?n) - unat (used_for b ?n)" by (rule unat_sub)
  with used(2) have room: "unat (used_for b ?n) + unat ?x \<le> unat (capacity_for b ?n)"
    using cap by (simp add: word_le_nat_alt)
  then have "om_bal (sb_used b) ?n + unat ?x \<le> unat (capacity_for b ?n)" by (simp add: om_bal_def used_for_def)
  also have "\<dots> < 2 ^ LENGTH(64)" by simp
  finally have nowrap: "om_bal (sb_used b) ?n + unat ?x < 2 ^ LENGTH(64)" .
  have bal: "usage.balanced (sb_used b') (om_insert (ar_region_id r) (Some r) h)"
    unfolding used(1) by (rule usage.balanced_open [OF inv(3) fresh _ nowrap]) (simp add: result_charge_def)
  have "unat (used_for b' n) \<le> unat (capacity_for b' n)" for n
  proof -
    have "unat (used_for b' n) = (om_bal (sb_used b)) n + (if n = ?n then unat ?x else 0)"
      using om_bal_add [OF nowrap] by (simp add: used_for_def used(1) om_bal_def fun_eq_iff)
    then show ?thesis
      using room assms(1) capacity_for_cong [OF r(4)] by (auto simp: usage_inv_def om_bal_def used_for_def)
  qed
  moreover have "sb_next_region b < sb_next_region b'"
    using assms(3) word_less_succ(1) by (auto simp: r(2) syn_ready_def)
  moreover have "syn_inv b' \<and> id_valid (ar_region_id r)" using syn_inv_alloc [OF inv(1) assms(3,4)] by blast
  ultimately show ?thesis
    using assms(1) bal inv(2) by (auto simp: usage_inv_def r(1,3,4) intro: less_trans)
qed

lemma usage_inv_free:
  assumes "usage_inv cfg (b, h)" and "om_find h i = Some (Some r)"
  shows "usage_inv cfg (syn_free r b, om_insert i None h)"
proof -
  let ?n = "ar_observed_node r" and ?x = "qty_value (ar_granted_bytes r)"
  have r: "ar_region_id r = i" "id_valid i" "om_find (sb_region_node b) i = Some ?n"
    and bal: "usage.balanced (sb_used b) h" and inv: "syn_inv b" using assms by (simp_all add: usage_inv_def)
  have charge: "result_charge (Some r) = Some (?n, ?x)" "result_charge None = None" by (simp_all add: result_charge_def)
  have covered: "unat ?x \<le> om_bal (sb_used b) ?n" by (rule usage.charged_covered [OF bal assms(2) charge(1)])
  have f: "syn_free r b = b\<lparr>sb_used := sub_clamp ?n ?x (sb_used b), sb_region_node := om_erase i (sb_region_node b)\<rparr>"
    using syn_free_outstanding [of r b ?n] r by simp
  have "usage.balanced (sub_clamp ?n ?x (sb_used b)) (om_insert i None h)"
    by (rule usage.balanced_close [OF bal assms(2) charge])
  moreover have "unat (used_for (syn_free r b) n) \<le> unat (capacity_for (syn_free r b) n)" for n
  proof -
    have "unat (used_for (syn_free r b) n) \<le> unat (used_for b n)"
      using fun_cong [OF om_bal_sub_clamp [OF covered], of n] by (simp add: f used_for_def om_bal_def)
    also have "\<dots> \<le> unat (capacity_for b n)" using assms(1) by (simp add: usage_inv_def)
    finally show ?thesis using capacity_for_cong [of "syn_free r b" b] by simp
  qed
  moreover have "syn_inv (syn_free r b)" using inv syn_ids_free [OF inv, of r] by (simp add: syn_inv_def)
  moreover have "id_value i < sb_next_region b" using assms by (auto simp: usage_inv_def)
  ultimately show ?thesis
    using assms(1) r(1) by (auto simp: usage_inv_def f split: if_splits)
qed

lemma new_synthetic_usage: "usage_inv cfg (new_synthetic cfg, om_empty)"
  using new_synthetic_inv [of cfg]
  by (simp add: usage_inv_def new_synthetic_def used_for_def usage.balanced_empty om_bal_def)

interpretation synthetic_runs: step_system syn_step "usage_inv cfg"
  for cfg
proof unfold_locales
  fix s s' assume "syn_step s s'" and "usage_inv cfg s"
  then show "usage_inv cfg s'"
  proof cases
    case (refused spec b b' e h)
    then show ?thesis using \<open>usage_inv cfg s\<close> syn_allocate_Inl [of spec b b' e] by simp
  qed (auto intro: usage_inv_alloc usage_inv_free)
qed

definition granted_on :: "NumaNodeId \<Rightarrow> handed_out \<Rightarrow> u64 list" where
  "granted_on n h = [qty_value (ar_granted_bytes r). Some r \<leftarrow> om_values h, ar_observed_node r = n]"

lemma balanced_granted:
  assumes "usage.balanced m h"
  shows "om_bal m n = sum_list (map unat (granted_on n h))"
proof -
  have due: "usage.due n None = 0"
    "usage.due n (Some r) = (if ar_observed_node r = n then unat (qty_value (ar_granted_bytes r)) else 0)" for r
    by (rule usage.due_None, simp add: result_charge_def) (rule usage.due_Some, simp add: result_charge_def)
  have "sum_list (map (usage.due n) es) =
      sum_list (map unat [qty_value (ar_granted_bytes r). Some r \<leftarrow> es, ar_observed_node r = n])" for es
    by (induction es) (auto simp: due split: option.splits)
  moreover have "om_bal m n = sum_list (map (usage.due n) (om_values h))"
    using assms by (simp add: usage.balanced_def om.total_def om_values_def comp_def split_beta')
  ultimately show ?thesis by (simp add: granted_on_def)
qed


definition sample_config :: SyntheticConfig where
  "sample_config = \<lparr>sc_node_count = 2, sc_processors_per_node = 2, sc_group_capacity = 64, sc_expose_memory = True,
     sc_node_capacities = [Quantity 8192, Quantity 4096], sc_distances = [], sc_local_thread_node = 0,
     sc_accelerators = [], sc_name = ''synthetic''\<rparr>"

definition sample_spec :: AllocationSpec where
  "sample_spec = default_spec\<lparr>as_bytes := Quantity 4096, as_mode := PM_RequiredNode, as_required_node := Id 2\<rparr>"


text \<open>
  Interleaved allocations are not accounted for: an allocation across two nodes that is
  freed again leaves usage on the second node although nothing is outstanding, and it is
  granted although it exceeds the capacity of that node.
\<close>

theorem interleaved_usage_leaks:
  "\<exists>b r. syn_allocate (sample_spec\<lparr>as_mode := PM_Interleaved, as_bytes := Quantity 32768\<rparr>) (new_synthetic sample_config) = (b, Inr r)
     \<and> used_for b (Id 2) > capacity_for b (Id 2)
     \<and> syn_ids (syn_free r b) = {} \<and> used_for (syn_free r b) (Id 2) = 16384"
proof -
  let ?s = "sample_spec\<lparr>as_mode := PM_Interleaved, as_bytes := Quantity 32768\<rparr>"
  let ?q = "syn_allocate ?s (new_synthetic sample_config)"
  let ?f = "case snd ?q of Inl _ \<Rightarrow> fst ?q | Inr r \<Rightarrow> syn_free r (fst ?q)"
  have "is_ok (snd ?q)" and "used_for (fst ?q) (Id 2) > capacity_for (fst ?q) (Id 2)" and "used_for ?f (Id 2) = 16384"
    and e: "om_entries (sb_region_node ?f) = []"
    by code_simp+
  moreover have "syn_ids ?f = {}" using e by (simp add: syn_ids_def om.find_entries)
  ultimately show ?thesis by (cases ?q; cases "snd ?q") auto
qed

section \<open>Discovery is valid for every configuration\<close>

lemma unat_of_nat_u64: "n < 2 ^ 64 \<Longrightarrow> unat (of_nat n :: u64) = n"
  by (simp add: unsigned_of_nat take_bit_eq_mod)

lemma slots_iff: "(n, lp) \<in> set (processor_slots cfg) \<longleftrightarrow> n < unat (sc_node_count cfg) \<and> lp < unat (sc_processors_per_node cfg)"
  by (auto simp: processor_slots_def image_iff)

lemma unat_global_index:
  assumes "(n, lp) \<in> set (processor_slots cfg)"
  shows "unat (global_index cfg n lp) = n * unat (sc_processors_per_node cfg) + lp"
proof -
  let ?p = "unat (sc_processors_per_node cfg)"
  have n: "n < 2 ^ 32" and lp: "lp < ?p"
    using assms unat_lt_2p32 [of "sc_node_count cfg"] by (auto simp: slots_iff simp del: unat_lt_2p32)
  have "n * ?p + lp < (n + 1) * ?p" using lp by simp
  also have "\<dots> \<le> 2 ^ 32 * 2 ^ 32"
  proof (rule mult_le_mono)
    show "?p \<le> 2 ^ 32" by (rule less_imp_le) simp
  qed (use n in simp)
  finally have lt: "n * ?p + lp < 2 ^ 64" by simp
  have "(ucast (sc_processors_per_node cfg) :: u64) = of_nat ?p" by simp
  then have "global_index cfg n lp = of_nat (n * ?p + lp)" by (simp add: global_index_def)
  with lt show ?thesis by (simp only: unat_of_nat_u64)
qed

lemma node_id_of_eq_iff:
  assumes "n < 2 ^ 32" and "m < 2 ^ 32"
  shows "node_id_of n = node_id_of m \<longleftrightarrow> n = m"
proof -
  have "node_id_of n = node_id_of m \<longleftrightarrow> (of_nat n :: u64) = of_nat m" by (simp add: node_id_of_def)
  also have "\<dots> \<longleftrightarrow> n = m"
  proof -
    have "n < 2 ^ 64" and "m < 2 ^ 64" using assms by simp_all
    then show ?thesis using unat_of_nat_u64 by metis
  qed
  finally show ?thesis .
qed

lemma node_id_of_valid: "n < 2 ^ 32 \<Longrightarrow> id_valid (node_id_of n)"
proof -
  assume n: "n < 2 ^ 32"
  have "(of_nat n + 1 :: u64) = of_nat (n + 1)" by simp
  moreover have "unat (of_nat (n + 1) :: u64) = n + 1" using n by (intro unat_of_nat_u64) simp
  ultimately show ?thesis unfolding node_id_of_def id_valid_Id by (metis add_is_0 one_neq_zero unat_0)
qed

lemma group_register_keys:
  "fst ` set (om_entries (group_register cfg)) = (\<lambda>(n, lp). group_index cfg n lp) ` set (processor_slots cfg)"
proof -
  have "k \<in> fst ` set (om_entries (group_register cfg)) \<longleftrightarrow> om_find (group_register cfg) k \<noteq> None" for k
    by (metis map_of_eq_None_iff om.find_entries)
  moreover have "om_find (group_register cfg) k \<noteq> None \<longleftrightarrow> k \<in> (\<lambda>(n, lp). group_index cfg n lp) ` set (processor_slots cfg)" for k
    by (auto simp: group_register_def find_fold_push_member Let_def filter_empty_conv)
  ultimately show ?thesis by blast
qed

definition synthetic_host :: "SyntheticConfig \<Rightarrow> HostTopology" where
  "synthetic_host cfg = add_groups cfg (sort_canonical (synthetic_base cfg))"

lemma node_count_bound: "n < unat (sc_node_count cfg) \<Longrightarrow> n < 2 ^ 32"
  using unat_lt_2p32 [of "sc_node_count cfg"] by (simp del: unat_lt_2p32)

lemma synthetic_processors: "set (ht_processors (synthetic_host cfg)) = synthetic_processor cfg ` set (processor_slots cfg)"
  by (simp add: synthetic_host_def add_groups_def sort_canonical_def synthetic_base_def Let_def)

lemma synthetic_nodes: "map nn_id (ht_nodes (synthetic_host cfg)) = sort (map node_id_of [0..<unat (sc_node_count cfg)])"
proof -
  let ?ns = "map (synthetic_node cfg) [0..<unat (sc_node_count cfg)]"
  have "map nn_id (ht_nodes (synthetic_host cfg)) = map nn_id (sort_key nn_id ?ns)"
    by (simp add: synthetic_host_def add_groups_def sort_canonical_def synthetic_base_def Let_def comp_def)
  also have "\<dots> = sort (map nn_id ?ns)"
    by (intro properties_for_sort [symmetric]) (simp_all add: multiset.map_comp)
  also have "map nn_id ?ns = map node_id_of [0..<unat (sc_node_count cfg)]"
    by (simp add: synthetic_node_def Let_def)
  finally show ?thesis .
qed

lemma synthetic_node_ids:
  "nn_id ` set (ht_nodes (synthetic_host cfg)) = node_id_of ` {0..<unat (sc_node_count cfg)}"
  "distinct (map nn_id (ht_nodes (synthetic_host cfg)))"
proof -
  show "nn_id ` set (ht_nodes (synthetic_host cfg)) = node_id_of ` {0..<unat (sc_node_count cfg)}"
    using arg_cong [OF synthetic_nodes [of cfg], of set] by simp
  have "distinct (map node_id_of [0..<unat (sc_node_count cfg)])"
    using node_id_of_eq_iff node_count_bound by (auto simp: distinct_map inj_on_def) blast
  then show "distinct (map nn_id (ht_nodes (synthetic_host cfg)))" by (simp add: synthetic_nodes)
qed

lemma synthetic_groups:
  "pg_id ` set (ht_groups (synthetic_host cfg)) = (\<lambda>(n, lp). Id (ucast (group_index cfg n lp) + 1)) ` set (processor_slots cfg)"
proof -
  have "set (ht_groups (synthetic_host cfg)) = synthetic_group ` set (om_entries (group_register cfg))"
    by (simp add: synthetic_host_def add_groups_def sort_canonical_def synthetic_base_def Let_def)
  then have "pg_id ` set (ht_groups (synthetic_host cfg)) = (\<lambda>k. Id (ucast k + 1)) ` (fst ` set (om_entries (group_register cfg)))"
    by (simp add: image_image synthetic_group_def split_beta)
  then show ?thesis unfolding group_register_keys by (simp add: image_image split_beta)
qed

lemma same_index_same_node:
  assumes "(n, i) \<in> set (processor_slots cfg)" and "(m, j) \<in> set (processor_slots cfg)"
    and "global_index cfg n i = global_index cfg m j"
  shows "n = m"
proof -
  let ?p = "unat (sc_processors_per_node cfg)"
  have "n * ?p + i = m * ?p + j" using assms unat_global_index by metis
  then have "(n * ?p + i) div ?p = (m * ?p + j) div ?p" by simp
  moreover have "i < ?p" "j < ?p" using assms by (auto simp: slots_iff)
  ultimately show ?thesis by simp
qed

lemma synthetic_host_consistent: "topology_consistent (synthetic_host cfg)"
  unfolding topology_consistent_def synthetic_processors synthetic_node_ids(1) synthetic_groups
proof (intro conjI)
  show "\<forall>p\<in>synthetic_processor cfg ` set (processor_slots cfg). \<forall>q\<in>synthetic_processor cfg ` set (processor_slots cfg).
      pr_id p = pr_id q \<longrightarrow> pr_node p = pr_node q"
    by (auto simp: synthetic_processor_def intro!: arg_cong [where f = node_id_of] dest: same_index_same_node)
  show "\<forall>p\<in>synthetic_processor cfg ` set (processor_slots cfg). pr_node p \<in> node_id_of ` {0..<unat (sc_node_count cfg)}
      \<and> pr_group p \<in> (\<lambda>(n, lp). Id (ucast (group_index cfg n lp) + 1)) ` set (processor_slots cfg)"
    by (force simp: synthetic_processor_def slots_iff)
  show "\<forall>n\<in>set (ht_nodes (synthetic_host cfg)). id_valid (nn_id n)"
    using synthetic_node_ids(1) [of cfg] node_id_of_valid node_count_bound by (metis atLeastLessThan_iff imageE imageI)
qed (rule synthetic_node_ids(2))

text \<open>
  Discovery succeeds for every configuration: the topology that the synthetic backend
  builds passes the validation it ends with, and it has as many nodes and processors as
  the configuration asks for.
\<close>

theorem synthetic_discovery_valid:
  "\<exists>host. discover_host cfg = Inr host \<and> topology_consistent host
     \<and> length (ht_nodes host) = unat (sc_node_count cfg)
     \<and> length (ht_processors host) = unat (sc_node_count cfg) * unat (sc_processors_per_node cfg)"
proof -
  have "validate_topology (synthetic_host cfg) = Inr ()"
    using synthetic_host_consistent [of cfg] by (simp add: validate_topology_iff)
  then have "discover_host cfg = Inr (synthetic_host cfg)"
    by (simp add: discover_host_def synthetic_host_def)
  moreover have "length (processor_slots cfg) = unat (sc_node_count cfg) * unat (sc_processors_per_node cfg)"
    by (simp add: processor_slots_def length_concat comp_def sum_list_triv)
  ultimately show ?thesis
    using synthetic_host_consistent [of cfg]
    by (simp add: synthetic_host_def add_groups_def sort_canonical_def synthetic_base_def Let_def)
qed

end
