(* ===== verification/Scoped_Affinity.thy ===== *)
theory Scoped_Affinity
  imports Synthetic_Backend
begin

text \<open>
  The two objects that set the affinity of a thread for a scope: \<open>ScopedThreadBinding\<close> of
  \<open>affinity/worker.hpp\<close> and \<open>ScopedAffinityApply\<close> of \<open>runtime/runtime.hpp\<close>. Their
  construction, the early restore, the defaulted move and the destruction are operations on the
  state of a backend.
\<close>

record ScopedThreadBinding =
  stb_original :: AffinitySet
  stb_active :: bool

definition stb_new :: "'b Backend \<Rightarrow> AffinitySet \<Rightarrow> 'b \<Rightarrow> ('b, ScopedThreadBinding) outcome" where
  "stb_new be target b =
     (let original = be_current_thread_affinity be b in
      case be_apply_thread_affinity be target b of
        (b, True) \<Rightarrow> (b, Inr \<lparr>stb_original = original, stb_active = True\<rparr>)
      | (b, False) \<Rightarrow> (b, Inl (WorkerError ''failed to apply scoped thread affinity'')))"

definition stb_restore_now :: "'b Backend \<Rightarrow> ScopedThreadBinding \<Rightarrow> 'b \<Rightarrow> 'b \<times> ScopedThreadBinding" where
  "stb_restore_now be g b =
     (if stb_active g then (fst (be_apply_thread_affinity be (stb_original g) b), g\<lparr>stb_active := False\<rparr>) else (b, g))"

definition stb_destroy :: "'b Backend \<Rightarrow> ScopedThreadBinding \<Rightarrow> 'b \<Rightarrow> 'b" where
  "stb_destroy be g b = (if stb_active g then fst (be_apply_thread_affinity be (stb_original g) b) else b)"

text \<open>The defaulted move copies the flag: it returns the object that was moved from and the new one.\<close>

definition stb_move :: "ScopedThreadBinding \<Rightarrow> ScopedThreadBinding \<times> ScopedThreadBinding" where
  "stb_move g = (g, \<lparr>stb_original = stb_original g, stb_active = stb_active g\<rparr>)"

record ScopedAffinityApply =
  saa_original :: AffinitySet
  saa_applied :: bool

definition saa_new :: "'b Backend \<Rightarrow> AffinitySet \<Rightarrow> 'b \<Rightarrow> 'b \<times> ScopedAffinityApply" where
  "saa_new be target b =
     (let original = be_current_thread_affinity be b; (b, applied) = be_apply_thread_affinity be target b
      in (b, \<lparr>saa_original = original, saa_applied = applied\<rparr>))"

definition saa_destroy :: "'b Backend \<Rightarrow> ScopedAffinityApply \<Rightarrow> 'b \<Rightarrow> 'b" where
  "saa_destroy be g b = (if saa_applied g then fst (be_apply_thread_affinity be (saa_original g) b) else b)"

section \<open>The contract of a host with thread affinity\<close>

text \<open>
  What the scoped objects need of a backend: in every state that satisfies its invariant, the
  affinity that was current in an earlier such state can be applied again and is then the
  current one.
\<close>

locale affinity_host =
  fixes be :: "'b Backend"
    and host_inv :: "'b \<Rightarrow> bool"
  assumes apply_keeps: "host_inv b \<Longrightarrow> be_apply_thread_affinity be aff b = (b', ok) \<Longrightarrow> host_inv b'"
    and apply_again: "host_inv b0 \<Longrightarrow> host_inv b \<Longrightarrow>
      be_apply_thread_affinity be (be_current_thread_affinity be b0) b = (b', ok) \<Longrightarrow>
      be_current_thread_affinity be b' = be_current_thread_affinity be b0"
begin

abbreviation affinity_of :: "'b \<Rightarrow> AffinitySet" where
  "affinity_of b \<equiv> be_current_thread_affinity be b"

lemma stb_new_inv: "host_inv b \<Longrightarrow> stb_new be target b = (b', r) \<Longrightarrow> host_inv b'"
  by (auto simp: stb_new_def Let_def split: prod.splits bool.splits dest: apply_keeps)

lemma stb_new_original: "stb_new be target b = (b', Inr g) \<Longrightarrow> stb_original g = affinity_of b \<and> stb_active g"
  by (auto simp: stb_new_def Let_def split: prod.splits bool.splits)

lemma apply_again_fst:
  assumes "host_inv b0" "host_inv b"
  shows "affinity_of (fst (be_apply_thread_affinity be (affinity_of b0) b)) = affinity_of b0"
  using apply_again [OF assms] by (cases "be_apply_thread_affinity be (affinity_of b0) b") simp

lemma scope_restores:
  assumes "host_inv b" "stb_new be target b = (b1, Inr g)" "host_inv b2"
  shows "affinity_of (stb_destroy be g b2) = affinity_of b"
    and "affinity_of (fst (stb_restore_now be g b2)) = affinity_of b"
    and "stb_destroy be (snd (stb_restore_now be g b2)) b3 = b3"
  using apply_again_fst [OF assms(1,3)] stb_new_original [OF assms(2)]
  by (simp_all add: stb_destroy_def stb_restore_now_def)

lemma apply_scope_restores:
  assumes "host_inv b" "saa_new be target b = (b1, g)" "host_inv b2" "saa_applied g"
  shows "affinity_of (saa_destroy be g b2) = affinity_of b"
  using apply_again_fst [OF assms(1,3)] assms(2,4) by (auto simp: saa_new_def saa_destroy_def split: prod.splits)

lemma destroy_inv: "host_inv b \<Longrightarrow> host_inv (stb_destroy be g b)"
  using apply_keeps by (cases "be_apply_thread_affinity be (stb_original g) b") (auto simp: stb_destroy_def)

text \<open>Nested scopes: the inner one gives back the affinity of the outer one, the outer one the first.\<close>

lemma nested_scopes_restore:
  assumes "host_inv b" "stb_new be t1 b = (b1, Inr g1)" "stb_new be t2 b1 = (b2, Inr g2)"
  shows "affinity_of (stb_destroy be g2 b2) = affinity_of b1"
    and "affinity_of (stb_destroy be g1 (stb_destroy be g2 b2)) = affinity_of b"
proof -
  have inv1: "host_inv b1" by (rule stb_new_inv [OF assms(1,2)])
  have inv2: "host_inv b2" by (rule stb_new_inv [OF inv1 assms(3)])
  show "affinity_of (stb_destroy be g2 b2) = affinity_of b1" by (rule scope_restores(1) [OF inv1 assms(3) inv2])
  show "affinity_of (stb_destroy be g1 (stb_destroy be g2 b2)) = affinity_of b"
    by (rule scope_restores(1) [OF assms(1,2) destroy_inv [OF inv2]])
qed

end

interpretation syn_host: affinity_host make_synthetic_backend "\<lambda>_. True"
  by unfold_locales (simp_all add: make_synthetic_backend_def syn_current_thread_affinity_def)

text \<open>
  An object that was moved from keeps its flag: its destruction applies the original affinity
  although the scope lives on in the new object.
\<close>

lemma moved_from_still_active: "stb_active g \<Longrightarrow> stb_active (fst (stb_move g)) \<and> stb_active (snd (stb_move g))"
  by (simp add: stb_move_def)

end
