(* ===== verification/Windows_Backend.thy ===== *)
theory Windows_Backend
  imports Scoped_Affinity "HOL-Library.Product_Lexorder"
begin

text \<open>
  \<open>src/windows_backend.cpp\<close>. The operating system is a record of its calls over a state of its
  own: what each call returns is an argument of the model, and the documented behaviour that a
  theorem needs is a hypothesis of that theorem. The buffer of
  \<open>GetLogicalProcessorInformationEx\<close> is the list of its structures. The pages that the
  allocation touches are not modelled.
\<close>

section \<open>The calls of the operating system\<close>

record ProcessorInfo =
  pi_is_numa_node :: bool
  pi_node_number :: u32
  pi_group_masks :: "(u16 \<times> u64) list"

record 'o Win32 =
  w32_page_size :: "'o \<Rightarrow> u32"
  w32_allocation_granularity :: "'o \<Rightarrow> u32"
  w32_info_length :: "'o \<Rightarrow> u32"
  w32_processor_info :: "'o \<Rightarrow> ProcessorInfo list option"
  w32_group_count :: "'o \<Rightarrow> u16"
  w32_processor_count :: "u16 \<Rightarrow> 'o \<Rightarrow> u32"
  w32_available_memory :: "u8 \<Rightarrow> 'o \<Rightarrow> u64 option"
  w32_total_physical :: "'o \<Rightarrow> u64 option"
  w32_thread_affinity :: "'o \<Rightarrow> (u16 \<times> u64) option"
  w32_set_thread_affinity :: "u16 \<Rightarrow> u64 \<Rightarrow> 'o \<Rightarrow> 'o \<times> bool"
  w32_virtual_alloc :: "u64 \<Rightarrow> u32 \<Rightarrow> 'o \<Rightarrow> 'o \<times> u64"
  w32_virtual_free :: "u64 \<Rightarrow> 'o \<Rightarrow> 'o"
  w32_last_error :: "'o \<Rightarrow> u32"

section \<open>Discovery\<close>

type_synonym GroupBit = "u16 \<times> u16"

definition query_processor_info :: "'o Win32 \<Rightarrow> 'o \<Rightarrow> ProcessorInfo list option" where
  "query_processor_info os st = (if w32_info_length os st = 0 then None else w32_processor_info os st)"

definition mask_bits :: "u16 \<times> u64 \<Rightarrow> GroupBit list" where
  "mask_bits = (\<lambda>(g, m). map (\<lambda>b. (g, of_nat b)) (filter (bit m) [0..<64]))"

definition node_bits :: "ProcessorInfo \<Rightarrow> GroupBit list" where
  "node_bits info = remdups_adj (sort (concat (map mask_bits (pi_group_masks info))))"

definition gathered_node :: "ProcessorInfo \<Rightarrow> NumaNode" where
  "gathered_node info =
     \<lparr>nn_id = Id (ucast (pi_node_number info) + 1), nn_generation = gen_initial, nn_processors = [],
      nn_memory_capacity = qty_zero, nn_free_memory = qty_zero, nn_memory_info_available = False,
      nn_page_size = qty_zero, nn_page_size_known = False, nn_provenance = prov_of PS_Measured ''Win32 RelationNumaNode''\<rparr>"

definition gather_numa_nodes :: "'o Win32 \<Rightarrow> 'o \<Rightarrow> (NumaNode \<times> GroupBit list) list" where
  "gather_numa_nodes os st =
     (case query_processor_info os st of
        None \<Rightarrow> []
      | Some infos \<Rightarrow> map (\<lambda>i. (gathered_node i, node_bits i)) (filter pi_is_numa_node infos))"

definition numa_available_memory :: "'o Win32 \<Rightarrow> NumaNodeId \<Rightarrow> 'o \<Rightarrow> u64 option" where
  "numa_available_memory os node st = w32_available_memory os (ucast (id_value node)) st"

definition has_bit :: "GroupBit list \<Rightarrow> GroupBit \<Rightarrow> bool" where
  "has_bit bits gb = (let i = lower_bound bits gb 0 (length bits) in i < length bits \<and> bits ! i = gb)"

definition owner_of :: "(NumaNode \<times> GroupBit list) list \<Rightarrow> nat \<Rightarrow> nat \<Rightarrow> NumaNodeId" where
  "owner_of gathered g b =
     (case List.find (\<lambda>(n, bits). has_bit bits (of_nat g, of_nat b)) gathered of
        Some (n, bits) \<Rightarrow> nn_id n
      | None \<Rightarrow> invalid_id)"

definition win_processor_id :: "nat \<Rightarrow> nat \<Rightarrow> ProcessorId" where
  "win_processor_id g b = Id (push_bit 32 (of_nat (g + 1)) OR (of_nat b + 1))"

definition win_processor :: "(NumaNode \<times> GroupBit list) list \<Rightarrow> nat \<times> nat \<Rightarrow> Processor" where
  "win_processor gathered = (\<lambda>(g, b).
     \<lparr>pr_id = win_processor_id g b, pr_group = Id (of_nat g + 1), pr_index_in_group = Quantity (of_nat b),
      pr_node = owner_of gathered g b, pr_online = True, pr_id_certain = True\<rparr>)"

definition active_processors :: "'o Win32 \<Rightarrow> 'o \<Rightarrow> (nat \<times> nat) list" where
  "active_processors os st =
     concat (map (\<lambda>g. map (Pair g) [0..<unat (w32_processor_count os (of_nat g) st)]) [0..<unat (w32_group_count os st)])"

definition win_group :: "nat \<Rightarrow> ProcessorGroupInfo" where
  "win_group g = \<lparr>pg_id = Id (of_nat g + 1), pg_index = Quantity (of_nat (g + 1)), pg_processors = []\<rparr>"

definition register_host :: "'o Win32 \<Rightarrow> 'o \<Rightarrow> HostTopology" where
  "register_host os st =
     (let gathered = gather_numa_nodes os st in
      \<lparr>ht_host_id = Id 1, ht_generation = Generation 1,
       ht_groups = map win_group [0..<unat (w32_group_count os st)], ht_nodes = map fst gathered,
       ht_processors = map (win_processor gathered) (active_processors os st),
       ht_system_page_size = Quantity (ucast (w32_page_size os st)),
       ht_allocation_granularity = Quantity (ucast (w32_allocation_granularity os st)),
       ht_numa_node_count_certain = True, ht_provenance = prov_of PS_Measured ''Win32 system topology''\<rparr>)"

definition add_free_memory :: "'o Win32 \<Rightarrow> 'o \<Rightarrow> NumaNode \<Rightarrow> NumaNode" where
  "add_free_memory os st n =
     (case numa_available_memory os (nn_id n) st of
        None \<Rightarrow> n
      | Some avail \<Rightarrow> n\<lparr>nn_free_memory := Quantity avail, nn_memory_info_available := True\<rparr>)"

definition add_capacity :: "'o Win32 \<Rightarrow> 'o \<Rightarrow> NumaNode list \<Rightarrow> NumaNode list" where
  "add_capacity os st ns =
     (case w32_total_physical os st of
        None \<Rightarrow> ns
      | Some phys \<Rightarrow> (case ns of [n] \<Rightarrow> [n\<lparr>nn_memory_capacity := Quantity phys\<rparr>] | _ \<Rightarrow> ns))"

definition win_discover :: "'o Win32 \<Rightarrow> 'o \<Rightarrow> HostTopology result" where
  "win_discover os st =
     (let host = sort_canonical (register_host os st);
          host = host\<lparr>ht_nodes := add_capacity os st (map (add_free_memory os st) (ht_nodes host))\<rparr>
      in rbind (validate_topology host) (\<lambda>_. Inr host))"

section \<open>Allocation\<close>

definition in_thread_group :: "HostTopology \<Rightarrow> u16 \<Rightarrow> NumaNode \<Rightarrow> bool" where
  "in_thread_group host g n =
     list_ex (\<lambda>pid. case find_processor host pid of Some p \<Rightarrow> id_value (pr_group p) = ucast g + 1 | None \<Rightarrow> False) (nn_processors n)"

definition node_of_current_thread :: "'o Win32 \<Rightarrow> 'o \<Rightarrow> u32 result" where
  "node_of_current_thread os st =
     (case w32_thread_affinity os st of
        None \<Rightarrow> Inr 0
      | Some (g, m) \<Rightarrow> rbind (win_discover os st) (\<lambda>host.
          Inr (case List.find (in_thread_group host g) (ht_nodes host) of
                 Some n \<Rightarrow> ucast (id_value (nn_id n) - 1)
               | None \<Rightarrow> 0)))"

definition win_last_error :: "'o Win32 \<Rightarrow> 'o \<Rightarrow> string" where
  "win_last_error os st = ''error '' @ std_to_string (w32_last_error os st)"

definition chosen_node :: "'o Win32 \<Rightarrow> AllocationSpec \<Rightarrow> 'o \<Rightarrow> (u32 \<times> NumaNodeId) result" where
  "chosen_node os spec st =
     (if as_mode spec = PM_RequiredNode \<or> as_mode spec = PM_PreferredNode
      then let nid = (if as_mode spec = PM_RequiredNode then as_required_node spec else as_preferred_node spec)
           in Inr (if id_valid nid then (ucast (id_value nid - 1), nid) else (0, invalid_id))
      else if as_mode spec = PM_Local
      then rbind (node_of_current_thread os st) (\<lambda>node. Inr (node, Id (ucast node + 1)))
      else Inr (0, invalid_id))"

definition win_allocate :: "'o Win32 \<Rightarrow> AllocationSpec \<Rightarrow> 'o \<Rightarrow> ('o, AllocationResult) outcome" where
  "win_allocate os spec st =
     (case validate_spec spec of
        Inl e \<Rightarrow> (st, Inl e)
      | Inr _ \<Rightarrow>
          if as_kind spec = AK_Pinned
          then (st, Inl (BackendError ''pinned page-locked host allocation requires the CUDA backend on this platform''))
          else case chosen_node os spec st of
            Inl e \<Rightarrow> (st, Inl e)
          | Inr (node, observed) \<Rightarrow>
              let numa = (as_mode spec = PM_PreferredNode \<or> as_mode spec = PM_RequiredNode \<or> as_mode spec = PM_Local);
                  (st, p) = w32_virtual_alloc os (qty_value (as_bytes spec)) node st
              in if p = 0 then (st, Inl (BackendError (''VirtualAllocExNuma failed: '' @ win_last_error os st)))
                 else (st, Inr \<lparr>ar_region_id = Id 0, ar_ptr = p, ar_granted_bytes = as_bytes spec, ar_ptr_valid = True,
                                ar_locality_known = False, ar_observed_node = (if numa then observed else invalid_id),
                                ar_kind = as_kind spec, ar_touched = as_touch spec, ar_requested_mode = as_mode spec\<rparr>))"

definition win_free :: "'o Win32 \<Rightarrow> AllocationResult \<Rightarrow> 'o \<Rightarrow> 'o" where
  "win_free os r st = (if ar_ptr r \<noteq> 0 \<and> ar_ptr_valid r then w32_virtual_free os (ar_ptr r) st else st)"

section \<open>Thread affinity\<close>

definition win_current_affinity :: "'o Win32 \<Rightarrow> 'o \<Rightarrow> AffinitySet" where
  "win_current_affinity os st =
     (case w32_thread_affinity os st of
        Some (g, m) \<Rightarrow> fst (set_mask (Id (ucast g + 1)) m [])
      | None \<Rightarrow> [])"

definition win_target :: "'o Win32 \<Rightarrow> AffinitySet \<Rightarrow> 'o \<Rightarrow> u16 \<times> u64" where
  "win_target os aff st =
     (let cur = (case w32_thread_affinity os st of Some (g, m) \<Rightarrow> g | None \<Rightarrow> 0);
          mask = mask_for aff (Id (ucast cur + 1))
      in if mask \<noteq> 0 then (cur, mask)
         else (ucast (id_value (gm_group (hd aff)) - 1), gm_mask (hd aff)))"

definition win_apply_affinity :: "'o Win32 \<Rightarrow> AffinitySet \<Rightarrow> 'o \<Rightarrow> 'o \<times> bool" where
  "win_apply_affinity os aff st =
     (if aff_empty aff then (st, True)
      else let (g, m) = win_target os aff st in w32_set_thread_affinity os g m st)"

definition make_windows_backend :: "'o Win32 \<Rightarrow> 'o Backend" where
  "make_windows_backend os = \<lparr>be_kind = BK_Windows, be_kind_name = ''windows'',
     be_describe = (\<lambda>_. ''Windows backend (processor-group-aware, real OS APIs)''),
     be_discover_host = win_discover os, be_allocate = win_allocate os, be_free = win_free os,
     be_probe_allocation_node = (\<lambda>_ _. None), be_current_thread_affinity = win_current_affinity os,
     be_apply_thread_affinity = win_apply_affinity os, be_enumerate_accelerators = (\<lambda>_. []),
     be_provides_measured_locality = False\<rparr>"

section \<open>Discovery is exact\<close>

definition numa_infos :: "'o Win32 \<Rightarrow> 'o \<Rightarrow> ProcessorInfo list" where
  "numa_infos os st = (case query_processor_info os st of None \<Rightarrow> [] | Some infos \<Rightarrow> filter pi_is_numa_node infos)"

definition info_owns :: "nat \<Rightarrow> nat \<Rightarrow> ProcessorInfo \<Rightarrow> bool" where
  "info_owns g b info = list_ex (\<lambda>(g', m). g' = of_nat g \<and> bit m (unat (of_nat b :: u16))) (pi_group_masks info)"

definition os_node_id :: "ProcessorInfo \<Rightarrow> NumaNodeId" where
  "os_node_id info = Id (ucast (pi_node_number info) + 1)"

definition reported_owner :: "'o Win32 \<Rightarrow> 'o \<Rightarrow> nat \<Rightarrow> nat \<Rightarrow> NumaNodeId" where
  "reported_owner os st g b =
     (case List.find (info_owns g b) (numa_infos os st) of Some info \<Rightarrow> os_node_id info | None \<Rightarrow> invalid_id)"

text \<open>The system describes its host: node numbers are not repeated, and every active processor is in the
  mask of some node.\<close>

definition host_described :: "'o Win32 \<Rightarrow> 'o \<Rightarrow> bool" where
  "host_described os st \<longleftrightarrow>
     distinct (map pi_node_number (numa_infos os st))
     \<and> list_all (\<lambda>(g, b). list_ex (info_owns g b) (numa_infos os st)) (active_processors os st)"

lemma has_bit_iff:
  assumes "sorted bits"
  shows "has_bit bits gb \<longleftrightarrow> gb \<in> set bits"
proof -
  let ?i = "lower_bound bits gb 0 (length bits)"
  have "let r = ?i in r \<le> length bits \<and> (\<forall>i<r. bits ! i < gb) \<and> (\<forall>i. r \<le> i \<and> i < length bits \<longrightarrow> gb \<le> bits ! i)"
    by (rule lower_bound_correct [OF assms]) auto
  then have "gb \<le> bits ! ?i" if "?i < length bits"
    using that by (simp add: Let_def)
  then have "has_bit bits gb \<longleftrightarrow> binary_search bits gb"
    by (auto simp: has_bit_def binary_search_def Let_def)
  then show ?thesis using binary_search_iff [OF assms] by simp
qed

lemma mask_bits_mem: "(g, b) \<in> set (mask_bits (g', m)) \<longleftrightarrow> g = g' \<and> bit m (unat b)"
proof
  assume "(g, b) \<in> set (mask_bits (g', m))"
  then obtain k where "k < 64" "bit m k" "b = of_nat k" "g = g'" by (auto simp: mask_bits_def)
  then show "g = g' \<and> bit m (unat b)" by (simp add: unat_of_nat take_bit_eq_mod)
next
  assume "g = g' \<and> bit m (unat b)"
  moreover from this have "unat b < 64" using bit_imp_le_length [of m "unat b"] by simp
  ultimately show "(g, b) \<in> set (mask_bits (g', m))" by (auto simp: mask_bits_def intro!: image_eqI [of _ _ "unat b"])
qed

lemma node_bits_mem: "(g, b) \<in> set (node_bits info) \<longleftrightarrow> (\<exists>m. (g, m) \<in> set (pi_group_masks info) \<and> bit m (unat b))"
  by (force simp: node_bits_def mask_bits_mem)

lemma has_bit_node: "has_bit (node_bits info) (of_nat g, of_nat b) = info_owns g b info"
proof -
  have "sorted (node_bits info)" by (simp add: node_bits_def sorted_remdups_adj)
  then show ?thesis by (auto simp: has_bit_iff node_bits_mem info_owns_def list_ex_iff)
qed

lemma gather_infos: "gather_numa_nodes os st = map (\<lambda>i. (gathered_node i, node_bits i)) (numa_infos os st)"
  by (simp add: gather_numa_nodes_def numa_infos_def split: option.splits)

lemma find_map: "List.find P (map f xs) = map_option f (List.find (P \<circ> f) xs)"
  by (induction xs) simp_all

lemma owner_reported: "owner_of (gather_numa_nodes os st) g b = reported_owner os st g b"
  by (simp add: owner_of_def reported_owner_def gather_infos find_map comp_def has_bit_node os_node_id_def
      gathered_node_def split: option.splits)

lemma processor_id_value:
  assumes "g < 2 ^ 16" "b < 2 ^ 32 - 1"
  shows "unat (id_value (win_processor_id g b)) = push_bit 32 (g + 1) OR (b + 1)"
proof -
  have "push_bit 32 (g + 1) < (2 :: nat) ^ 64" using assms(1) by (simp add: push_bit_eq_mult)
  moreover have "unat (of_nat (g + 1) :: u64) = g + 1" using assms(1) by (intro unat_of_nat_u64) simp
  ultimately have "unat (push_bit 32 (of_nat (g + 1)) :: u64) = push_bit 32 (g + 1)"
    by (simp only: unsigned_push_bit_eq) (simp add: take_bit_nat_eq_self)
  moreover have "unat (of_nat (b + 1) :: u64) = b + 1" using assms(2) by (intro unat_of_nat_u64) simp
  ultimately show ?thesis
    by (simp add: win_processor_id_def unsigned_or_eq add.commute)
qed

lemma processor_id_inj:
  assumes "g < 2 ^ 16" "b < 2 ^ 32 - 1" "g' < 2 ^ 16" "b' < 2 ^ 32 - 1" "win_processor_id g b = win_processor_id g' b'"
  shows "g = g' \<and> b = b'"
proof -
  have low: "take_bit 32 (push_bit 32 (g + 1) OR (b + 1)) = b + 1" if "b < 2 ^ 32 - 1" for g b :: nat
    using that by (simp add: take_bit_or take_bit_push_bit take_bit_nat_eq_self)
  have high: "drop_bit 32 (push_bit 32 (g + 1) OR (b + 1)) = g + 1" if "b < 2 ^ 32 - 1" for g b :: nat
    using that by (simp add: drop_bit_or drop_bit_push_bit drop_bit_eq_div [of _ "Suc b"])
  have "push_bit 32 (g + 1) OR (b + 1) = push_bit 32 (g' + 1) OR (b' + 1)"
    using processor_id_value [OF assms(1,2)] processor_id_value [OF assms(3,4)] assms(5) by simp
  then show ?thesis
    using low [OF assms(2), of g] low [OF assms(4), of g'] high [OF assms(2), of g] high [OF assms(4), of g']
    by (simp only: add_right_cancel)
qed

lemma active_bounds:
  assumes "(g, b) \<in> set (active_processors os st)"
  shows "g < unat (w32_group_count os st)" "g < 2 ^ 16" "b < 2 ^ 32 - 1"
proof -
  have g: "g < unat (w32_group_count os st)" and b: "b < unat (w32_processor_count os (of_nat g) st)"
    using assms by (auto simp: active_processors_def)
  show "g < unat (w32_group_count os st)" by (rule g)
  have "unat (w32_group_count os st) < 2 ^ 16" "unat (w32_processor_count os (of_nat g) st) < 2 ^ 32"
    using unsigned_less [of "w32_group_count os st", where ?'a = nat] by simp_all
  then show "g < 2 ^ 16" "b < 2 ^ 32 - 1" using g b by linarith+
qed

definition described_host :: "'o Win32 \<Rightarrow> 'o \<Rightarrow> HostTopology" where
  "described_host os st =
     (let host = sort_canonical (register_host os st)
      in host\<lparr>ht_nodes := add_capacity os st (map (add_free_memory os st) (ht_nodes host))\<rparr>)"

lemma win_discover_cases: "win_discover os st = rbind (validate_topology (described_host os st)) (\<lambda>_. Inr (described_host os st))"
  by (simp add: win_discover_def described_host_def Let_def)

lemma add_free_memory_id [simp]: "nn_id (add_free_memory os st n) = nn_id n"
  by (simp add: add_free_memory_def split: option.splits)

lemma add_capacity_ids [simp]: "map nn_id (add_capacity os st ns) = map nn_id ns"
  by (auto simp: add_capacity_def split: option.splits list.splits)

lemma described_node_ids: "map nn_id (ht_nodes (described_host os st)) = sort (map os_node_id (numa_infos os st))"
proof -
  have "map nn_id (ht_nodes (described_host os st)) = map nn_id (sort_key nn_id (map gathered_node (numa_infos os st)))"
    by (simp add: described_host_def sort_canonical_def register_host_def gather_infos Let_def comp_def)
  also have "\<dots> = sort (map nn_id (map gathered_node (numa_infos os st)))"
    by (rule properties_for_sort [symmetric]) (simp_all add: multiset.map_comp)
  also have "nn_id \<circ> gathered_node = os_node_id" by (simp add: fun_eq_iff gathered_node_def os_node_id_def)
  then have "map nn_id (map gathered_node (numa_infos os st)) = map os_node_id (numa_infos os st)" by simp
  finally show ?thesis .
qed

lemma described_processors:
  "ht_processors (described_host os st) = sort_key pr_id (map (win_processor (gather_numa_nodes os st)) (active_processors os st))"
  by (simp add: described_host_def sort_canonical_def register_host_def Let_def)

lemma described_groups: "pg_id ` set (ht_groups (described_host os st)) = (\<lambda>g. Id (of_nat g + 1)) ` {..<unat (w32_group_count os st)}"
  by (auto simp: described_host_def sort_canonical_def register_host_def win_group_def Let_def image_image)

lemma unat_ucast_u32: "unat (ucast (w :: u32) :: u64) = unat w"
  using unat_lt_2p32 [of w] by (simp add: unsigned_ucast_eq take_bit_nat_eq_self del: unat_lt_2p32)

lemma os_node_number: "unat (id_value (os_node_id i)) = unat (pi_node_number i) + 1"
proof -
  have "unat (ucast (pi_node_number i) + 1 :: u64) = unat (of_nat (unat (pi_node_number i) + 1) :: u64)"
    by (simp add: add.commute flip: unat_ucast_u32)
  also have "\<dots> = unat (pi_node_number i) + 1"
    using unat_lt_2p32 [of "pi_node_number i"] by (intro unat_of_nat_u64) (simp del: unat_lt_2p32)
  finally show ?thesis by (simp add: os_node_id_def)
qed

lemma os_node_id_inj: "os_node_id i = os_node_id j \<longleftrightarrow> pi_node_number i = pi_node_number j"
  using os_node_number [of i] os_node_number [of j]
  by (metis add_right_cancel os_node_id_def word_unat_eq_iff)

lemma os_node_id_valid [simp]: "id_valid (os_node_id i)"
  using os_node_number [of i] by (auto simp: id_valid_def)

lemma reported_owner_node:
  "reported_owner os st g b \<in> os_node_id ` set (numa_infos os st) \<longleftrightarrow> list_ex (info_owns g b) (numa_infos os st)"
proof (cases "List.find (info_owns g b) (numa_infos os st)")
  case None
  moreover have "invalid_id \<notin> os_node_id ` set (numa_infos os st)"
    using os_node_id_valid by (metis id_invalid_iff imageE)
  ultimately have "reported_owner os st g b \<notin> os_node_id ` set (numa_infos os st)" by (simp add: reported_owner_def)
  with None show ?thesis by (auto simp: find_None_iff list_ex_iff)
next
  case (Some i)
  then have "i \<in> set (numa_infos os st)" "info_owns g b i" by (auto simp: find_Some_iff)
  with Some show ?thesis by (auto simp: reported_owner_def list_ex_iff)
qed

lemma described_consistent: "topology_consistent (described_host os st) \<longleftrightarrow> host_described os st"
proof -
  let ?ps = "active_processors os st" and ?w = "win_processor (gather_numa_nodes os st)"
  have procs: "set (ht_processors (described_host os st)) = ?w ` set ?ps"
    by (simp add: described_processors)
  have nodes: "nn_id ` set (ht_nodes (described_host os st)) = os_node_id ` set (numa_infos os st)"
    by (metis described_node_ids list.set_map set_sort)
  have agree: "pr_node (?w p) = pr_node (?w q)" if "p \<in> set ?ps" "q \<in> set ?ps" "pr_id (?w p) = pr_id (?w q)" for p q
    using that processor_id_inj [of "fst p" "snd p" "fst q" "snd q"]
      active_bounds [of "fst p" "snd p" os st] active_bounds [of "fst q" "snd q" os st]
    by (auto simp: win_processor_def split: prod.splits)
  have group: "pr_group (?w p) \<in> pg_id ` set (ht_groups (described_host os st))" if "p \<in> set ?ps" for p
    unfolding described_groups using active_bounds(1) [of "fst p" "snd p" os st] that
    by (auto simp: win_processor_def split: prod.splits)
  have "pr_node (?w p) \<in> os_node_id ` set (numa_infos os st) \<longleftrightarrow> (case p of (g, b) \<Rightarrow> list_ex (info_owns g b) (numa_infos os st))" for p
    by (simp add: win_processor_def owner_reported reported_owner_node split: prod.splits)
  then have node: "(\<forall>p\<in>?w ` set ?ps. pr_node p \<in> os_node_id ` set (numa_infos os st) \<and> pr_group p \<in> pg_id ` set (ht_groups (described_host os st)))
      \<longleftrightarrow> list_all (\<lambda>(g, b). list_ex (info_owns g b) (numa_infos os st)) ?ps"
    using group by (simp add: list_all_iff)
  have "distinct (map nn_id (ht_nodes (described_host os st))) \<longleftrightarrow> distinct (map pi_node_number (numa_infos os st))"
    unfolding described_node_ids distinct_sort by (auto simp: distinct_map inj_on_def os_node_id_inj)
  moreover have "\<forall>n\<in>set (ht_nodes (described_host os st)). id_valid (nn_id n)"
    using nodes os_node_id_valid by (metis imageE image_eqI)
  ultimately show ?thesis
    unfolding topology_consistent_def host_described_def procs nodes node using agree by blast
qed

text \<open>
  C21. Discovery on Windows is exact. It succeeds exactly when the system describes its host: node
  numbers are not repeated and every active processor is in the mask of a node. Then it reports
  the nodes of the system, numbered from one, and every active processor of every group once,
  with the first node whose mask holds it; in every other case it throws.
\<close>

theorem windows_discovery_exact:
  "case win_discover os st of
     Inl e \<Rightarrow> \<not> host_described os st
   | Inr host \<Rightarrow> host_described os st
       \<and> map nn_id (ht_nodes host) = sort (map os_node_id (numa_infos os st))
       \<and> image_mset (\<lambda>p. (pr_id p, pr_node p)) (mset (ht_processors host))
           = image_mset (\<lambda>(g, b). (win_processor_id g b, reported_owner os st g b)) (mset (active_processors os st))"
proof (cases "validate_topology (described_host os st)")
  case (Inl e)
  then have "\<not> host_described os st" by (metis described_consistent validate_topology_iff sum.distinct(1))
  with Inl show ?thesis by (simp add: win_discover_cases)
next
  case (Inr u)
  then have "host_described os st" using described_consistent validate_topology_iff by (metis (full_types) unit.exhaust)
  moreover have "image_mset (\<lambda>p. (pr_id p, pr_node p)) (mset (ht_processors (described_host os st)))
      = image_mset (\<lambda>(g, b). (win_processor_id g b, reported_owner os st g b)) (mset (active_processors os st))"
    by (simp add: described_processors multiset.map_comp comp_def win_processor_def owner_reported case_prod_beta')
  ultimately show ?thesis using Inr by (simp add: win_discover_cases described_node_ids)
qed

section \<open>Scoped affinity on Windows\<close>

text \<open>
  What the affinity calls promise, on the states that satisfy an invariant: the thread has a mask
  that is not empty, a call that reports success has set it, a call that fails leaves it, and a mask
  that the thread had once can be set again.
\<close>

definition w32_affinity_ok :: "'o Win32 \<Rightarrow> ('o \<Rightarrow> bool) \<Rightarrow> bool" where
  "w32_affinity_ok os good \<longleftrightarrow>
     (\<forall>st. good st \<longrightarrow> (\<exists>g m. w32_thread_affinity os st = Some (g, m) \<and> m \<noteq> 0))
     \<and> (\<forall>g m st. good st \<longrightarrow> good (fst (w32_set_thread_affinity os g m st)))
     \<and> (\<forall>g m st. snd (w32_set_thread_affinity os g m st) \<longrightarrow>
          w32_thread_affinity os (fst (w32_set_thread_affinity os g m st)) = Some (g, m))
     \<and> (\<forall>g m st0 st. good st0 \<longrightarrow> good st \<longrightarrow> w32_thread_affinity os st0 = Some (g, m) \<longrightarrow>
          snd (w32_set_thread_affinity os g m st))"

lemma windows_backend_simps [simp]:
  "be_current_thread_affinity (make_windows_backend os) = win_current_affinity os"
  "be_apply_thread_affinity (make_windows_backend os) = win_apply_affinity os"
  by (simp_all add: make_windows_backend_def)

lemma ucast_u16_u64: "ucast (ucast (g :: u16) :: u64) = g"
  by transfer simp

lemma ucast_u16_inject: "(ucast (g :: u16) :: u64) = ucast h \<longleftrightarrow> g = h"
  by (metis ucast_u16_u64)

lemma win_current_single:
  "w32_thread_affinity os st = Some (g, m) \<Longrightarrow> win_current_affinity os st = [\<lparr>gm_group = Id (ucast g + 1), gm_mask = m\<rparr>]"
  by (simp add: win_current_affinity_def set_mask_def aff_commit_def aff_normalize_def merge_mask_def Let_def)

lemma win_apply_single:
  assumes "m \<noteq> 0"
  shows "win_apply_affinity os [\<lparr>gm_group = Id (ucast g + 1), gm_mask = m\<rparr>] st = w32_set_thread_affinity os g m st"
  using assms
  by (simp add: win_apply_affinity_def win_target_def aff_empty_def Let_def ucast_u16_inject ucast_u16_u64 split: option.splits)

lemma windows_affinity_host:
  assumes "w32_affinity_ok os good"
  shows "affinity_host (make_windows_backend os) good"
proof
  fix st st' aff ok
  assume "good st" "be_apply_thread_affinity (make_windows_backend os) aff st = (st', ok)"
  then show "good st'"
    using assms by (auto simp: w32_affinity_ok_def win_apply_affinity_def split: if_splits prod.splits) (metis fst_conv)+
next
  fix st0 st st' ok
  assume good: "good st0" "good st"
    and app: "be_apply_thread_affinity (make_windows_backend os)
      (be_current_thread_affinity (make_windows_backend os) st0) st = (st', ok)"
  obtain g m where gm: "w32_thread_affinity os st0 = Some (g, m)" "m \<noteq> 0"
    using assms good(1) by (auto simp: w32_affinity_ok_def)
  then have "w32_set_thread_affinity os g m st = (st', ok)"
    using app by (simp add: win_current_single win_apply_single)
  then have "w32_thread_affinity os st' = Some (g, m)"
    using assms good gm(1) unfolding w32_affinity_ok_def by (metis fst_conv)
  then show "be_current_thread_affinity (make_windows_backend os) st' = be_current_thread_affinity (make_windows_backend os) st0"
    using gm(1) by (simp add: win_current_single)
qed

lemma win_current_inject:
  assumes "w32_affinity_ok os good" "good st" "good st'" "win_current_affinity os st = win_current_affinity os st'"
  shows "w32_thread_affinity os st = w32_thread_affinity os st'"
proof -
  obtain g m g' m' where gm: "w32_thread_affinity os st = Some (g, m)" "w32_thread_affinity os st' = Some (g', m')"
    using assms(1-3) unfolding w32_affinity_ok_def by metis
  then show ?thesis using assms(4) by (simp add: win_current_single ucast_u16_inject)
qed

text \<open>
  C28. Scoped thread bindings on Windows nest: with affinity calls that do what they promise, the
  destruction of the inner binding gives the thread the affinity it had inside the outer one, and
  the destruction of the outer one gives back the affinity before both. After an explicit
  \<open>restore_now\<close> the destructor does nothing more.
\<close>

theorem windows_scopes_restore:
  assumes "w32_affinity_ok os good" "good st"
    and "stb_new (make_windows_backend os) target1 st = (st1, Inr outer)"
    and "stb_new (make_windows_backend os) target2 st1 = (st2, Inr inner)"
  shows "w32_thread_affinity os (stb_destroy (make_windows_backend os) inner st2) = w32_thread_affinity os st1
    \<and> w32_thread_affinity os (stb_destroy (make_windows_backend os) outer (stb_destroy (make_windows_backend os) inner st2))
        = w32_thread_affinity os st
    \<and> w32_thread_affinity os (fst (stb_restore_now (make_windows_backend os) inner st2)) = w32_thread_affinity os st1
    \<and> stb_destroy (make_windows_backend os) (snd (stb_restore_now (make_windows_backend os) inner st2)) st3 = st3"
proof -
  note host = windows_affinity_host [OF assms(1)]
  have inv1: "good st1" and inv2: "good st2"
    using affinity_host.stb_new_inv [OF host] assms(2-4) by blast+
  let ?be = "make_windows_backend os"
  have inv3: "good (stb_destroy ?be g s)" if "good s" for g s
    by (rule affinity_host.destroy_inv [OF host that])
  have "good (fst (stb_restore_now ?be inner st2))"
    using inv2 inv3 [OF inv2, of inner] by (simp add: stb_restore_now_def stb_destroy_def split: if_splits)
  then have "w32_thread_affinity os (fst (stb_restore_now ?be inner st2)) = w32_thread_affinity os st1"
    using affinity_host.scope_restores(2) [OF host inv1 assms(4) inv2] win_current_inject [OF assms(1) _ inv1] by simp
  moreover have "w32_thread_affinity os (stb_destroy ?be inner st2) = w32_thread_affinity os st1"
    using affinity_host.nested_scopes_restore(1) [OF host assms(2-4)]
    by (intro win_current_inject [OF assms(1) inv3 [OF inv2] inv1]) simp
  moreover have "w32_thread_affinity os (stb_destroy ?be outer (stb_destroy ?be inner st2)) = w32_thread_affinity os st"
    using affinity_host.nested_scopes_restore(2) [OF host assms(2-4)]
    by (intro win_current_inject [OF assms(1) inv3 [OF inv3 [OF inv2]] assms(2)]) simp
  moreover have "stb_destroy ?be (snd (stb_restore_now ?be inner st2)) st3 = st3"
    by (rule affinity_host.scope_restores(3) [OF host inv1 assms(4) inv2])
  ultimately show ?thesis by simp
qed

section \<open>A host with two nodes in one group\<close>

definition sample_win32 :: "(u16 \<times> u64) Win32" where
  "sample_win32 = \<lparr>w32_page_size = (\<lambda>_. 4096), w32_allocation_granularity = (\<lambda>_. 65536), w32_info_length = (\<lambda>_. 96),
     w32_processor_info = (\<lambda>_. Some [\<lparr>pi_is_numa_node = True, pi_node_number = 0, pi_group_masks = [(0, 0x3)]\<rparr>,
                                     \<lparr>pi_is_numa_node = True, pi_node_number = 1, pi_group_masks = [(0, 0xC)]\<rparr>]),
     w32_group_count = (\<lambda>_. 1), w32_processor_count = (\<lambda>g _. if g = 0 then 4 else 0),
     w32_available_memory = (\<lambda>n _. if n = 0 then Some 100 else if n = 1 then Some 200 else None),
     w32_total_physical = (\<lambda>_. Some 4096), w32_thread_affinity = Some,
     w32_set_thread_affinity = (\<lambda>g m st. if m = 0 then (st, False) else ((g, m), True)),
     w32_virtual_alloc = (\<lambda>bytes node st. (st, 65536)), w32_virtual_free = (\<lambda>p st. st), w32_last_error = (\<lambda>_. 0)\<rparr>"

theorem windows_scopes_restore_witness:
  "w32_thread_affinity sample_win32
     (stb_destroy (make_windows_backend sample_win32) \<lparr>stb_original = [\<lparr>gm_group = Id 1, gm_mask = 0x3\<rparr>], stb_active = True\<rparr> (0, 0x4))
   = Some (0, 0x3)"
proof -
  have ok: "w32_affinity_ok sample_win32 (\<lambda>st. snd st \<noteq> 0)" by (auto simp: w32_affinity_ok_def sample_win32_def)
  have outer: "stb_new (make_windows_backend sample_win32) [\<lparr>gm_group = Id 1, gm_mask = 0x3\<rparr>] (0, 0xF)
      = ((0, 0x3), Inr \<lparr>stb_original = [\<lparr>gm_group = Id 1, gm_mask = 0xF\<rparr>], stb_active = True\<rparr>)" by code_simp
  have inner: "stb_new (make_windows_backend sample_win32) [\<lparr>gm_group = Id 1, gm_mask = 0x4\<rparr>] (0, 0x3)
      = ((0, 0x4), Inr \<lparr>stb_original = [\<lparr>gm_group = Id 1, gm_mask = 0x3\<rparr>], stb_active = True\<rparr>)" by code_simp
  have "w32_thread_affinity sample_win32 (0, 0x3) = Some (0, 0x3)" by (simp add: sample_win32_def)
  with windows_scopes_restore [OF ok _ outer inner] show ?thesis by simp
qed

text \<open>
  The free memory of a node is asked of the system with the number of the model, which starts at
  one, although the system numbers its nodes from zero. On a host with 100 bytes free on its first
  node and 200 on its second, discovery reports 200 bytes for the first and nothing for the
  second.
\<close>

theorem free_memory_of_next_node:
  "w32_available_memory sample_win32 0 (0, 0xF) = Some 100 \<and> w32_available_memory sample_win32 1 (0, 0xF) = Some 200
   \<and> (case win_discover sample_win32 (0, 0xF) of
        Inl e \<Rightarrow> False
      | Inr host \<Rightarrow> map (\<lambda>n. (nn_id n, nn_memory_info_available n, nn_free_memory n)) (ht_nodes host)
          = [(Id 1, True, Quantity 200), (Id 2, False, Quantity 0)])"
  by code_simp

text \<open>
  A local allocation does not look at the processors of the thread: for a thread that may run on
  the processors of the second node only, the first node is chosen, because it has a processor in
  the same group.
\<close>

theorem local_allocation_ignores_thread_mask:
  "node_of_current_thread sample_win32 (0, 0xC) = Inr 0
   \<and> reported_owner sample_win32 (0, 0xC) 0 2 = Id 2 \<and> reported_owner sample_win32 (0, 0xC) 0 3 = Id 2"
  by code_simp

text \<open>An allocation never claims a measured locality, and the requested alignment has no influence on it.\<close>

lemma windows_allocation_honest:
  "win_allocate os spec st = (st', Inr r) \<Longrightarrow>
     \<not> ar_locality_known r \<and> ar_ptr r \<noteq> 0 \<and> ar_granted_bytes r = as_bytes spec \<and> as_kind spec \<noteq> AK_Pinned"
  by (auto simp: win_allocate_def Let_def split: sum.splits prod.splits if_splits)

lemma windows_allocation_ignores_alignment:
  "win_allocate os (spec\<lparr>as_alignment := a\<rparr>) st = win_allocate os spec st"
proof -
  have fields: "as_mode (spec\<lparr>as_alignment := a\<rparr>) = as_mode spec" "as_bytes (spec\<lparr>as_alignment := a\<rparr>) = as_bytes spec"
    "as_kind (spec\<lparr>as_alignment := a\<rparr>) = as_kind spec" "as_touch (spec\<lparr>as_alignment := a\<rparr>) = as_touch spec"
    "as_required_node (spec\<lparr>as_alignment := a\<rparr>) = as_required_node spec"
    "as_preferred_node (spec\<lparr>as_alignment := a\<rparr>) = as_preferred_node spec" by simp_all
  show ?thesis by (simp only: win_allocate_def validate_spec_def chosen_node_def fields)
qed

end
