(* ===== verification/Memory_Manager.thy ===== *)
theory Memory_Manager
  imports Backend Ledger Step_System
begin

text \<open>
  \<open>memory/memory_region.hpp\<close>, \<open>memory/memory_manager.hpp\<close> and \<open>src/memory_manager.cpp\<close>: the
  governed memory regions, their lifecycle, the per-node accounting and the
  reallocate/copy/rebind of a migration. Operations run on the pair of the backend's
  state and the manager's state; the backend is any record of operations. The clock is an
  argument. \<open>governed_reallocate\<close> gives up the manager's lock between its phases, so each
  phase is a definition of its own (\<open>realloc_begin\<close>, the backend calls, \<open>realloc_abort\<close>,
  \<open>realloc_commit\<close>) and the whole is their composition. The bytes that
  \<open>memcpy\<close> copies between two buffers are not part of the state.
\<close>

section \<open>Regions and their lifecycle\<close>

record MemoryRegion =
  mr_id :: MemoryRegionId
  mr_generation :: MemoryGeneration
  mr_kind :: AllocationKind
  mr_mode :: PlacementMode
  mr_requested_bytes :: Bytes
  mr_granted_bytes :: Bytes
  mr_alignment :: Alignment
  mr_preferred_node :: NumaNodeId
  mr_required_node :: NumaNodeId
  mr_intended_node :: NumaNodeId
  mr_actual_node :: NumaNodeId
  mr_locality_known :: bool
  mr_locality_verified :: bool
  mr_locality_current :: bool
  mr_owning_process :: ProcessId
  mr_associated_worker :: WorkerId
  mr_associated_accelerator :: AcceleratorId
  mr_workload_id :: string
  mr_tag :: string
  mr_provenance :: Provenance
  mr_state :: LifecycleState
  mr_touched :: bool
  mr_created_ms :: u64
  mr_updated_ms :: u64
  mr_backend_result :: AllocationResult

definition is_live :: "MemoryRegion \<Rightarrow> bool" where
  "is_live r \<longleftrightarrow> mr_state r = LS_Allocated \<or> mr_state r = LS_Active \<or> mr_state r = LS_MigrationPending
                  \<or> mr_state r = LS_Migrating \<or> mr_state r = LS_Rebound"

definition released_state :: "LifecycleState \<Rightarrow> bool" where
  "released_state st \<longleftrightarrow> st = LS_Released \<or> st = LS_Invalidated \<or> st = LS_Failed"

definition is_released :: "MemoryRegion \<Rightarrow> bool" where
  "is_released r \<longleftrightarrow> released_state (mr_state r)"

fun can_transition :: "LifecycleState \<Rightarrow> LifecycleState \<Rightarrow> bool" where
  "can_transition LS_Created to = (to = LS_Reserved \<or> to = LS_Invalidated)"
| "can_transition LS_Reserved to = (to = LS_Allocated \<or> to = LS_Released \<or> to = LS_Invalidated)"
| "can_transition LS_Allocated to = (to = LS_Active \<or> to = LS_Failed \<or> to = LS_Invalidated)"
| "can_transition LS_Active to = (to = LS_MigrationPending \<or> to = LS_ReleasePending \<or> to = LS_Invalidated)"
| "can_transition LS_MigrationPending to =
     (to = LS_Migrating \<or> to = LS_Active \<or> to = LS_Failed \<or> to = LS_Invalidated)"
| "can_transition LS_Migrating to = (to = LS_Rebound \<or> to = LS_Failed \<or> to = LS_Invalidated)"
| "can_transition LS_Rebound to = (to = LS_Active \<or> to = LS_ReleasePending \<or> to = LS_Invalidated)"
| "can_transition LS_ReleasePending to = (to = LS_Released \<or> to = LS_Failed)"
| "can_transition LS_Released to = (to = LS_Invalidated)"
| "can_transition LS_Failed to = (to = LS_Invalidated)"
| "can_transition LS_Invalidated to = False"

section \<open>The manager\<close>

record MemoryManager =
  mm_regions :: "(MemoryRegionId, MemoryRegion) omap"
  mm_node_usage :: "(NumaNodeId, u64) omap"
  mm_next_id :: u64
  mm_watermark :: MemoryGeneration

definition empty_manager :: MemoryManager where
  "empty_manager = \<lparr>mm_regions = om_empty, mm_node_usage = om_empty, mm_next_id = 1, mm_watermark = gen_initial\<rparr>"

record AllocateRequest =
  aq_bytes :: Bytes
  aq_alignment :: Alignment
  aq_mode :: PlacementMode
  aq_intended_node :: NumaNodeId
  aq_preferred_node :: NumaNodeId
  aq_required_node :: NumaNodeId
  aq_interleave_nodes :: "NumaNodeId list"
  aq_kind :: AllocationKind
  aq_touch :: bool
  aq_owning_process :: ProcessId
  aq_associated_worker :: WorkerId
  aq_associated_accelerator :: AcceleratorId
  aq_workload_id :: string
  aq_tag :: string
  aq_provenance :: Provenance

definition add_node_usage :: "NumaNodeId \<Rightarrow> u64 \<Rightarrow> (NumaNodeId, u64) omap \<Rightarrow> (NumaNodeId, u64) omap" where
  "add_node_usage node bytes m = om_add node bytes m"

definition sub_node_usage :: "NumaNodeId \<Rightarrow> u64 \<Rightarrow> bool \<Rightarrow> (NumaNodeId, u64) omap \<Rightarrow> ((NumaNodeId, u64) omap, unit) outcome" where
  "sub_node_usage node bytes allow_underflow_error m =
     (let m = (if om_find m node = None then om_insert node 0 m else m); v = om_get0 m node in
      if \<not> allow_underflow_error \<and> bytes > v
      then (m, Inl (InvalidTransitionError ''accounting underflow: release exceeds node allocation''))
      else let v' = v - min v bytes in (if v' = 0 then om_erase node m else om_insert node v' m, Inr ()))"

definition choose_observed_node :: "MemoryRegion \<Rightarrow> NumaNodeId" where
  "choose_observed_node r =
     (if mr_locality_known r \<and> id_valid (mr_actual_node r) then mr_actual_node r
      else if id_valid (mr_actual_node r) then mr_actual_node r
      else mr_intended_node r)"

definition spec_of_request :: "AllocateRequest \<Rightarrow> AllocationSpec" where
  "spec_of_request req = default_spec\<lparr>as_bytes := aq_bytes req, as_alignment := aq_alignment req, as_mode := aq_mode req,
     as_preferred_node := aq_preferred_node req, as_required_node := aq_required_node req,
     as_interleave_nodes := aq_interleave_nodes req, as_kind := aq_kind req, as_touch := aq_touch req, as_tag := aq_tag req\<rparr>"

definition new_region :: "AllocateRequest \<Rightarrow> MemoryRegionId \<Rightarrow> MemoryGeneration \<Rightarrow> u64 \<Rightarrow> MemoryRegion" where
  "new_region req i gen now = \<lparr>mr_id = i, mr_generation = gen, mr_kind = aq_kind req, mr_mode = aq_mode req,
     mr_requested_bytes = aq_bytes req, mr_granted_bytes = qty_zero, mr_alignment = aq_alignment req,
     mr_preferred_node = aq_preferred_node req, mr_required_node = aq_required_node req,
     mr_intended_node = aq_intended_node req, mr_actual_node = invalid_id, mr_locality_known = False,
     mr_locality_verified = False, mr_locality_current = False, mr_owning_process = aq_owning_process req,
     mr_associated_worker = aq_associated_worker req, mr_associated_accelerator = aq_associated_accelerator req,
     mr_workload_id = aq_workload_id req, mr_tag = aq_tag req, mr_provenance = aq_provenance req,
     mr_state = LS_Created, mr_touched = False, mr_created_ms = now, mr_updated_ms = now,
     mr_backend_result = default_result\<rparr>"

definition allocated_region :: "AllocateRequest \<Rightarrow> AllocationResult \<Rightarrow> MemoryRegion \<Rightarrow> MemoryRegion" where
  "allocated_region req res r = r\<lparr>mr_kind := ar_kind res, mr_granted_bytes := ar_granted_bytes res,
     mr_actual_node := ar_observed_node res, mr_locality_known := ar_locality_known res, mr_locality_verified := False,
     mr_locality_current := True, mr_touched := ar_touched res, mr_backend_result := res,
     mr_state := (if aq_touch req then LS_Active else LS_Allocated)\<rparr>"

text \<open>The part of \<open>allocate\<close> under the manager's lock; \<open>None\<close> is a failed backend call.\<close>

definition record_allocation :: "u64 \<Rightarrow> AllocateRequest \<Rightarrow> AllocationResult option \<Rightarrow> MemoryManager \<Rightarrow> (MemoryManager, MemoryRegion) outcome" where
  "record_allocation now req result s =
     (let i = Id (mm_next_id s); s = s\<lparr>mm_next_id := mm_next_id s + 1\<rparr> in
      case gen_next (mm_watermark s) of
        Inl e \<Rightarrow> (s, Inl e)
      | Inr gen \<Rightarrow>
          let s = s\<lparr>mm_watermark := gen\<rparr>; r = new_region req i gen now in
          case result of
            None \<Rightarrow> let r = r\<lparr>mr_state := LS_Failed, mr_locality_current := False\<rparr>
                    in (s\<lparr>mm_regions := om_insert i r (mm_regions s)\<rparr>, Inr r)
          | Some res \<Rightarrow>
              let r = allocated_region req res r;
                  node = choose_observed_node r;
                  bytes = qty_value (mr_granted_bytes r);
                  s = (if id_valid node then s\<lparr>mm_node_usage := add_node_usage node bytes (mm_node_usage s)\<rparr>
                       else if id_valid (aq_intended_node req)
                       then s\<lparr>mm_node_usage := add_node_usage (aq_intended_node req) bytes (mm_node_usage s)\<rparr>
                       else s)
              in (s\<lparr>mm_regions := om_insert i r (mm_regions s)\<rparr>, Inr r))"

definition mm_allocate :: "'b Backend \<Rightarrow> u64 \<Rightarrow> AllocateRequest \<Rightarrow> 'b \<times> MemoryManager \<Rightarrow> ('b \<times> MemoryManager, MemoryRegion) outcome" where
  "mm_allocate be now req = (\<lambda>(b, s).
     if qty_is_zero (aq_bytes req) then ((b, s), Inl (InvalidTransitionError ''cannot allocate zero bytes''))
     else case be_allocate be (spec_of_request req) b of
       (b, Inr res) \<Rightarrow> (let (s, r) = record_allocation now req (Some res) s in ((b, s), r))
     | (b, Inl (BackendError m)) \<Rightarrow> (let (s, r) = record_allocation now req None s in ((b, s), r))
     | (b, Inl e) \<Rightarrow> ((b, s), Inl e))"

text \<open>\<open>release\<close> up to the backend call: the result to free.\<close>

definition release_region :: "u64 \<Rightarrow> MemoryRegionId \<Rightarrow> MemoryGeneration option \<Rightarrow> MemoryManager \<Rightarrow> (MemoryManager, AllocationResult) outcome" where
  "release_region now i expected s =
     (case om_find (mm_regions s) i of
        None \<Rightarrow> (s, Inl (InvalidTransitionError (''release of unknown memory region '' @ id_to_string i)))
      | Some r \<Rightarrow>
          if expected \<noteq> None \<and> expected \<noteq> Some (mr_generation r)
          then (s, Inl (InvalidTransitionError (''stale release generation for region '' @ id_to_string i)))
          else if is_released r
          then (s, Inl (InvalidTransitionError (''double release of region '' @ id_to_string i)))
          else if \<not> can_transition (mr_state r) LS_Released \<and> \<not> can_transition (mr_state r) LS_Invalidated
          then (s, Inl (InvalidTransitionError (''release not permitted from state '' @ lifecycle_state_to_string (mr_state r))))
          else let node = choose_observed_node r in
          case (if id_valid node then sub_node_usage node (qty_value (mr_granted_bytes r)) False (mm_node_usage s)
                else (mm_node_usage s, Inr ())) of
            (usage, Inl e) \<Rightarrow> (s\<lparr>mm_node_usage := usage\<rparr>, Inl e)
          | (usage, Inr _) \<Rightarrow>
              (s\<lparr>mm_node_usage := usage,
                 mm_regions := om_insert i (r\<lparr>mr_state := LS_Released, mr_updated_ms := now, mr_locality_current := False\<rparr>)
                                 (mm_regions s)\<rparr>, Inr (mr_backend_result r)))"

definition mm_release :: "'b Backend \<Rightarrow> u64 \<Rightarrow> MemoryRegionId \<Rightarrow> MemoryGeneration option \<Rightarrow> 'b \<times> MemoryManager \<Rightarrow> ('b \<times> MemoryManager, unit) outcome" where
  "mm_release be now i expected = (\<lambda>(b, s).
     case release_region now i expected s of
       (s, Inl e) \<Rightarrow> ((b, s), Inl e)
     | (s, Inr to_free) \<Rightarrow> ((be_free be to_free b, s), Inr ()))"

definition mm_transition :: "u64 \<Rightarrow> MemoryRegionId \<Rightarrow> LifecycleState \<Rightarrow> MemoryManager \<Rightarrow> (MemoryManager, unit) outcome" where
  "mm_transition now i to s =
     (case om_find (mm_regions s) i of
        None \<Rightarrow> (s, Inl (InvalidTransitionError (''transition of unknown region '' @ id_to_string i)))
      | Some r \<Rightarrow>
          if \<not> can_transition (mr_state r) to
          then (s, Inl (InvalidTransitionError (''transition from '' @ lifecycle_state_to_string (mr_state r) @ '' to ''
                        @ lifecycle_state_to_string to @ '' is not guarded'')))
          else (s\<lparr>mm_regions := om_insert i (r\<lparr>mr_state := to, mr_updated_ms := now\<rparr>) (mm_regions s)\<rparr>, Inr ()))"

definition get_region :: "MemoryManager \<Rightarrow> MemoryRegionId \<Rightarrow> MemoryRegion option" where
  "get_region s i = om_find (mm_regions s) i"

definition mark_stale :: "u64 \<Rightarrow> MemoryRegion \<Rightarrow> MemoryRegion" where
  "mark_stale now r =
     (if is_live r then r\<lparr>mr_locality_current := False, mr_locality_verified := False, mr_updated_ms := now\<rparr> else r)"

definition invalidate_locality_stale :: "u64 \<Rightarrow> MemoryManager \<Rightarrow> MemoryManager" where
  "invalidate_locality_stale now s = s\<lparr>mm_regions := om_map (mark_stale now) (mm_regions s)\<rparr>"

definition per_node_allocated :: "MemoryManager \<Rightarrow> NumaNodeId \<Rightarrow> u64" where
  "per_node_allocated s n = om_get0 (mm_node_usage s) n"

definition total_allocated :: "MemoryManager \<Rightarrow> u64" where
  "total_allocated s = fold (\<lambda>b t. t + b) (om_values (mm_node_usage s)) 0"

definition mm_accounting_clean :: "MemoryManager \<Rightarrow> bool" where
  "mm_accounting_clean s \<longleftrightarrow> \<not> list_ex is_live (om_values (mm_regions s)) \<and> om_is_empty (mm_node_usage s)"

definition all_regions :: "MemoryManager \<Rightarrow> MemoryRegion list" where
  "all_regions s = om_values (mm_regions s)"

section \<open>Reallocate, copy, rebind\<close>

record MigrationView =
  mv_committed :: bool
  mv_copy_succeeded :: bool
  mv_new_node :: NumaNodeId
  mv_generation :: MemoryGeneration

definition no_migration :: MigrationView where
  "no_migration = \<lparr>mv_committed = False, mv_copy_succeeded = False, mv_new_node = invalid_id, mv_generation = gen_invalid\<rparr>"

definition migration_spec :: "NumaNodeId \<Rightarrow> Bytes \<Rightarrow> AllocationSpec" where
  "migration_spec target bytes = default_spec\<lparr>as_kind := AK_Host, as_touch := True, as_mode := PM_RequiredNode,
     as_required_node := target, as_tag := ''migration'', as_bytes := bytes\<rparr>"

definition realloc_begin :: "u64 \<Rightarrow> MemoryRegionId \<Rightarrow> MemoryManager \<Rightarrow> (MemoryManager, MemoryRegion) outcome" where
  "realloc_begin now i s =
     (case om_find (mm_regions s) i of
        None \<Rightarrow> (s, Inl (InvalidTransitionError (''migrate unknown region '' @ id_to_string i)))
      | Some r \<Rightarrow>
          if is_released r then (s, Inl (InvalidTransitionError (''cannot migrate a released region '' @ id_to_string i)))
          else if \<not> can_transition (mr_state r) LS_Migrating
          then (s, Inl (InvalidTransitionError (''migrate not permitted from '' @ lifecycle_state_to_string (mr_state r))))
          else let r = r\<lparr>mr_state := LS_Migrating, mr_updated_ms := now\<rparr>
               in (s\<lparr>mm_regions := om_insert i r (mm_regions s)\<rparr>, Inr r))"

definition realloc_abort :: "MemoryRegionId \<Rightarrow> MemoryManager \<Rightarrow> MemoryManager" where
  "realloc_abort i s =
     (case om_find (mm_regions s) i of
        None \<Rightarrow> s
      | Some r \<Rightarrow> if mr_state r = LS_Migrating
                  then s\<lparr>mm_regions := om_insert i (r\<lparr>mr_state := LS_Active\<rparr>) (mm_regions s)\<rparr> else s)"

definition rebound_region :: "NumaNodeId \<Rightarrow> AllocationResult \<Rightarrow> MemoryRegion \<Rightarrow> MemoryRegion" where
  "rebound_region target new_res r = r\<lparr>mr_backend_result := new_res, mr_actual_node := ar_observed_node new_res,
     mr_intended_node := target, mr_locality_known := ar_locality_known new_res, mr_locality_verified := False,
     mr_locality_current := True\<rparr>"

definition realloc_commit :: "u64 \<Rightarrow> MemoryRegionId \<Rightarrow> NumaNodeId \<Rightarrow> MemoryRegion \<Rightarrow> AllocationResult \<Rightarrow> MemoryManager \<Rightarrow>
    (MemoryManager, MigrationView) outcome" where
  "realloc_commit now i target snapshot new_res s =
     (case om_find (mm_regions s) i of
        None \<Rightarrow> (s, Inr no_migration)
      | Some r \<Rightarrow>
          let old_node = choose_observed_node snapshot; bytes = qty_value (mr_granted_bytes r) in
          case (if id_valid old_node then sub_node_usage old_node bytes False (mm_node_usage s)
                else (mm_node_usage s, Inr ())) of
            (usage, Inl e) \<Rightarrow> (s\<lparr>mm_node_usage := usage\<rparr>, Inl e)
          | (usage, Inr _) \<Rightarrow>
              let s = s\<lparr>mm_node_usage := usage\<rparr>; r = rebound_region target new_res r in
              case gen_next (mr_generation r) of
                Inl e \<Rightarrow> (s\<lparr>mm_regions := om_insert i r (mm_regions s)\<rparr>, Inl e)
              | Inr gen \<Rightarrow>
                  let r = r\<lparr>mr_generation := gen, mr_state := LS_Rebound, mr_updated_ms := now\<rparr>;
                      new_node = choose_observed_node r;
                      s = (if id_valid new_node then s\<lparr>mm_node_usage := add_node_usage new_node bytes (mm_node_usage s)\<rparr> else s)
                  in (s\<lparr>mm_regions := om_insert i r (mm_regions s)\<rparr>,
                      Inr \<lparr>mv_committed = True, mv_copy_succeeded = True,
                           mv_new_node = (if id_valid (ar_observed_node new_res) then ar_observed_node new_res else target),
                           mv_generation = gen\<rparr>))"

definition governed_reallocate :: "'b Backend \<Rightarrow> u64 \<Rightarrow> MemoryRegionId \<Rightarrow> NumaNodeId \<Rightarrow> bool \<Rightarrow> 'b \<times> MemoryManager \<Rightarrow>
    ('b \<times> MemoryManager, MigrationView) outcome" where
  "governed_reallocate be now i target copy_data = (\<lambda>(b, s).
     case realloc_begin now i s of
       (s, Inl e) \<Rightarrow> ((b, s), Inl e)
     | (s, Inr snapshot) \<Rightarrow>
         case be_allocate be (migration_spec target (mr_granted_bytes snapshot)) b of
           (b, Inl (BackendError m)) \<Rightarrow> ((b, realloc_abort i s), Inr no_migration)
         | (b, Inl e) \<Rightarrow> ((b, s), Inl e)
         | (b, Inr new_res) \<Rightarrow>
             if \<not> result_ok new_res then ((b, realloc_abort i s), Inr no_migration)
             else let b = be_free be (mr_backend_result snapshot) b;
                      (s, view) = realloc_commit now i target snapshot new_res s
                  in ((b, s), view))"

section \<open>The books of the manager\<close>

text \<open>What a region is charged with: its granted bytes on its observed node until it is released.\<close>

definition region_charge :: "MemoryRegion \<Rightarrow> (NumaNodeId \<times> u64) option" where
  "region_charge r =
     (if \<not> is_released r \<and> id_valid (choose_observed_node r)
      then Some (choose_observed_node r, qty_value (mr_granted_bytes r)) else None)"

interpretation node_books: charged_ledger om_bal om_present om_add om_sub_drop region_charge
  by unfold_locales

definition region_handle :: "MemoryRegion \<Rightarrow> handle" where
  "region_handle r = ar_handle (mr_backend_result r)"

text \<open>Region \<open>i\<close> is not released and owns the backend handle \<open>h\<close>.\<close>

definition holds :: "MemoryManager \<Rightarrow> MemoryRegionId \<Rightarrow> handle \<Rightarrow> bool" where
  "holds s i h \<longleftrightarrow> (\<exists>r. om_find (mm_regions s) i = Some r \<and> \<not> is_released r \<and> region_handle r = h)"

definition handles :: "MemoryManager \<Rightarrow> handle set" where
  "handles s = {h. \<exists>i. holds s i h}"

definition mm_inv :: "MemoryManager \<Rightarrow> bool" where
  "mm_inv s \<longleftrightarrow> node_books.balanced (mm_node_usage s) (mm_regions s) \<and> node_books.backed (mm_node_usage s) (mm_regions s)
     \<and> (\<forall>i r. om_find (mm_regions s) i = Some r \<longrightarrow> mr_id r = i \<and> id_value i < mm_next_id s)
     \<and> (\<forall>i j h. holds s i h \<longrightarrow> holds s j h \<longrightarrow> i = j)"

lemma empty_manager_inv: "mm_inv empty_manager" "handles empty_manager = {}"
  by (simp_all add: mm_inv_def empty_manager_def holds_def handles_def node_books.balanced_def node_books.backed_def
      om_bal_def om_present_def)

lemma sub_node_usage_covered:
  assumes "unat x \<le> om_bal m k"
  shows "sub_node_usage k x False m = (om_sub_drop k x m, Inr ())"
proof -
  have le: "x \<le> om_get0 m k" using assms by (simp add: om_bal_def word_le_nat_alt)
  show ?thesis
  proof (cases "om_find m k")
    case None
    with le have "x = 0" by (simp add: om_find_None_get0)
    with None show ?thesis by (simp add: sub_node_usage_def om_sub_drop_def om_find_None_get0 om.drop_put om.drop_missing)
  next
    case (Some v)
    with le show ?thesis by (simp add: sub_node_usage_def om_sub_drop_def om_find_get0 Let_def min_absorb2 leD)
  qed
qed

lemma post_charge:
  assumes "\<not> is_released r"
  shows "node_books.post (region_charge r) m =
    (if id_valid (choose_observed_node r) then add_node_usage (choose_observed_node r) (qty_value (mr_granted_bytes r)) m else m)"
  using assms by (simp add: node_books.post_def region_charge_def add_node_usage_def)

text \<open>Taking an unreleased region off the books is what \<open>release\<close> and the commit of a migration do first.\<close>

lemma settle_charge:
  assumes "mm_inv s" and "om_find (mm_regions s) i = Some r" and "\<not> is_released r"
  shows "(if id_valid (choose_observed_node r)
          then sub_node_usage (choose_observed_node r) (qty_value (mr_granted_bytes r)) False (mm_node_usage s)
          else (mm_node_usage s, Inr ())) = (node_books.settle (region_charge r) (mm_node_usage s), Inr ())"
proof (cases "id_valid (choose_observed_node r)")
  case True
  with assms(3) have c: "region_charge r = Some (choose_observed_node r, qty_value (mr_granted_bytes r))"
    by (simp add: region_charge_def)
  have "unat (qty_value (mr_granted_bytes r)) \<le> om_bal (mm_node_usage s) (choose_observed_node r)"
    using assms(1) by (intro node_books.charged_covered [OF _ assms(2) c]) (simp add: mm_inv_def)
  with True c show ?thesis by (simp add: sub_node_usage_covered node_books.settle_def)
qed (simp add: region_charge_def node_books.settle_def)

section \<open>Storing a region\<close>

definition put_region :: "MemoryRegionId \<Rightarrow> MemoryRegion \<Rightarrow> (NumaNodeId, u64) omap \<Rightarrow> MemoryManager \<Rightarrow> MemoryManager" where
  "put_region i r usage s = s\<lparr>mm_node_usage := usage, mm_regions := om_insert i r (mm_regions s)\<rparr>"

lemma put_region_simps [simp]:
  "mm_node_usage (put_region i r u s) = u" "mm_regions (put_region i r u s) = om_insert i r (mm_regions s)"
  "mm_next_id (put_region i r u s) = mm_next_id s" "mm_watermark (put_region i r u s) = mm_watermark s"
  by (simp_all add: put_region_def)

lemma holds_put: "holds (put_region i r u s) j h \<longleftrightarrow>
    (if j = i then \<not> is_released r \<and> region_handle r = h else holds s j h)"
  by (auto simp: holds_def)

lemma put_region_inv:
  assumes "mm_inv s" and "om_find (mm_regions s) i = Some r" and "mr_id r' = i"
    and "node_books.postable (region_charge r') (node_books.settle (region_charge r) (mm_node_usage s))"
    and "\<And>j. j \<noteq> i \<Longrightarrow> \<not> is_released r' \<Longrightarrow> \<not> holds s j (region_handle r')"
  shows "mm_inv (put_region i r' (node_books.post (region_charge r') (node_books.settle (region_charge r) (mm_node_usage s))) s)"
  using assms node_books.balanced_replace [OF _ assms(2,4)] node_books.backed_replace [OF _ _ assms(2)]
  unfolding mm_inv_def holds_put by auto

lemma add_region_inv:
  assumes "mm_inv s" and "om_find (mm_regions s) i = None" and "mr_id r = i" and "id_value i < mm_next_id s"
    and "node_books.postable (region_charge r) (mm_node_usage s)"
    and "\<And>j. \<not> is_released r \<Longrightarrow> \<not> holds s j (region_handle r)"
  shows "mm_inv (put_region i r (node_books.post (region_charge r) (mm_node_usage s)) s)"
  using assms node_books.balanced_add [OF _ assms(2,5)] node_books.backed_add [OF _ assms(2)]
  unfolding mm_inv_def holds_put by auto

lemma put_region_same:
  assumes "mm_inv s" and "om_find (mm_regions s) i = Some r" and "mr_id r' = mr_id r"
    and "region_charge r' = region_charge r" and "is_released r' = is_released r" and "region_handle r' = region_handle r"
  shows "mm_inv (s\<lparr>mm_regions := om_insert i r' (mm_regions s)\<rparr>)"
    and "holds (s\<lparr>mm_regions := om_insert i r' (mm_regions s)\<rparr>) = holds s"
proof -
  show h: "holds (s\<lparr>mm_regions := om_insert i r' (mm_regions s)\<rparr>) = holds s"
    using assms(2,5,6) by (auto simp: holds_def fun_eq_iff)
  show "mm_inv (s\<lparr>mm_regions := om_insert i r' (mm_regions s)\<rparr>)"
    using assms(1-4) node_books.balanced_rewrite [OF _ assms(2,4)] node_books.backed_rewrite [OF _ assms(2,4)]
    unfolding mm_inv_def h by auto
qed

lemma handles_put_iff:
  "h \<in> handles (put_region i r u s) \<longleftrightarrow> (\<not> is_released r \<and> h = region_handle r) \<or> (\<exists>j. j \<noteq> i \<and> holds s j h)"
  unfolding handles_def mem_Collect_eq holds_put by metis

lemma handles_put:
  assumes "mm_inv s" and "om_find (mm_regions s) i = Some r" and "\<not> is_released r"
  shows "handles (put_region i r' u s) = (handles s - {region_handle r}) \<union> (if is_released r' then {} else {region_handle r'})"
proof -
  have own: "holds s i h \<longleftrightarrow> h = region_handle r" for h using assms(2,3) by (auto simp: holds_def)
  have "j \<noteq> i \<Longrightarrow> \<not> holds s j (region_handle r)" for j
    using assms(1) own [of "region_handle r"] by (auto simp: mm_inv_def)
  then have "(\<exists>j. j \<noteq> i \<and> holds s j h) \<longleftrightarrow> h \<in> handles s \<and> h \<noteq> region_handle r" for h
    unfolding handles_def mem_Collect_eq by (metis own)
  then show ?thesis by (auto simp: set_eq_iff handles_put_iff)
qed

lemma handles_add:
  assumes "om_find (mm_regions s) i = None"
  shows "handles (put_region i r u s) = handles s \<union> (if is_released r then {} else {region_handle r})"
proof -
  have "\<not> holds s i h" for h using assms by (simp add: holds_def)
  then have "(\<exists>j. j \<noteq> i \<and> holds s j h) \<longleftrightarrow> h \<in> handles s" for h
    unfolding handles_def mem_Collect_eq by metis
  then show ?thesis by (auto simp: set_eq_iff handles_put_iff)
qed

section \<open>The operations on every branch\<close>

definition released_region :: "u64 \<Rightarrow> MemoryRegion \<Rightarrow> MemoryRegion" where
  "released_region now r = r\<lparr>mr_state := LS_Released, mr_updated_ms := now, mr_locality_current := False\<rparr>"

lemma released_region_simps [simp]:
  "is_released (released_region now r)" "region_charge (released_region now r) = None"
  "mr_id (released_region now r) = mr_id r"
  by (simp_all add: released_region_def is_released_def released_state_def region_charge_def)

lemma releasable: "\<not> released_state st \<Longrightarrow> can_transition st LS_Released \<or> can_transition st LS_Invalidated"
  by (cases st) (simp_all add: released_state_def)

lemma release_region_active:
  assumes "mm_inv s" and "om_find (mm_regions s) i = Some r" and "\<not> is_released r"
    and "expected = None \<or> expected = Some (mr_generation r)"
  shows "release_region now i expected s =
    (put_region i (released_region now r) (node_books.settle (region_charge r) (mm_node_usage s)) s, Inr (mr_backend_result r))"
  using assms settle_charge [OF assms(1-3)] releasable [of "mr_state r"]
  by (auto simp: release_region_def Let_def released_region_def put_region_def is_released_def)

lemma release_region_refused:
  assumes "om_find (mm_regions s) i = None \<or> (\<exists>r. om_find (mm_regions s) i = Some r \<and>
    (is_released r \<or> expected \<noteq> None \<and> expected \<noteq> Some (mr_generation r)))"
  shows "\<exists>e. release_region now i expected s = (s, Inl e)"
  using assms by (auto simp: release_region_def)

lemma release_region_cases:
  assumes "mm_inv s" and "release_region now i expected s = (s', res)"
  obtains (released) r where "om_find (mm_regions s) i = Some r" and "\<not> is_released r"
      and "s' = put_region i (released_region now r) (node_books.settle (region_charge r) (mm_node_usage s)) s"
      and "res = Inr (mr_backend_result r)"
    | (refused) e where "s' = s" and "res = Inl e"
proof (cases "\<exists>r. om_find (mm_regions s) i = Some r \<and> \<not> is_released r \<and> (expected = None \<or> expected = Some (mr_generation r))")
  case True
  then show ?thesis using assms(2) released release_region_active [OF assms(1), of i _ expected now] by auto
next
  case False
  then have "\<exists>e. release_region now i expected s = (s, Inl e)"
    by (intro release_region_refused) (metis option.exhaust)
  then show ?thesis using assms(2) refused by auto
qed

text \<open>The second branch of the accounting in \<open>allocate\<close> is never taken: the observed node
  falls back to the intended node already.\<close>

lemma record_allocation_some:
  assumes "gen_next (mm_watermark s) = Inr gen"
  shows "record_allocation now req (Some res) s =
    (let r = allocated_region req res (new_region req (Id (mm_next_id s)) gen now) in
     (put_region (Id (mm_next_id s)) r (node_books.post (region_charge r) (mm_node_usage s))
        (s\<lparr>mm_next_id := mm_next_id s + 1, mm_watermark := gen\<rparr>), Inr r))"
proof -
  let ?r = "allocated_region req res (new_region req (Id (mm_next_id s)) gen now)"
  have "\<not> is_released ?r" by (simp add: is_released_def allocated_region_def released_state_def)
  moreover have "id_valid (choose_observed_node ?r) \<or> \<not> id_valid (aq_intended_node req)"
    by (simp add: choose_observed_node_def allocated_region_def new_region_def)
  ultimately show ?thesis
    using assms by (auto simp: record_allocation_def Let_def post_charge put_region_def)
qed

definition failed_region :: "AllocateRequest \<Rightarrow> MemoryRegionId \<Rightarrow> MemoryGeneration \<Rightarrow> u64 \<Rightarrow> MemoryRegion" where
  "failed_region req i gen now = (new_region req i gen now)\<lparr>mr_state := LS_Failed, mr_locality_current := False\<rparr>"

lemma record_allocation_none:
  assumes "gen_next (mm_watermark s) = Inr gen"
  shows "record_allocation now req None s =
    (let r = failed_region req (Id (mm_next_id s)) gen now in
     (put_region (Id (mm_next_id s)) r (mm_node_usage s)
        (s\<lparr>mm_next_id := mm_next_id s + 1, mm_watermark := gen\<rparr>), Inr r))"
  using assms by (simp add: record_allocation_def Let_def failed_region_def put_region_def)

lemma mm_transition_cases:
  assumes "mm_transition now i to s = (s', res)"
  obtains (moved) r where "om_find (mm_regions s) i = Some r" and "can_transition (mr_state r) to"
      and "s' = s\<lparr>mm_regions := om_insert i (r\<lparr>mr_state := to, mr_updated_ms := now\<rparr>) (mm_regions s)\<rparr>" and "res = Inr ()"
    | (refused) e where "s' = s" and "res = Inl e"
      and "\<forall>r. om_find (mm_regions s) i = Some r \<longrightarrow> \<not> can_transition (mr_state r) to"
  using assms by (auto simp: mm_transition_def split: option.splits if_splits)

lemma released_stays: "released_state st \<Longrightarrow> can_transition st to \<Longrightarrow> released_state to"
  by (cases st) (auto simp: released_state_def)

definition committed_region :: "u64 \<Rightarrow> NumaNodeId \<Rightarrow> AllocationResult \<Rightarrow> MemoryGeneration \<Rightarrow> MemoryRegion \<Rightarrow> MemoryRegion" where
  "committed_region now target new_res gen r =
     (rebound_region target new_res r)\<lparr>mr_generation := gen, mr_state := LS_Rebound, mr_updated_ms := now\<rparr>"

lemma committed_region_simps [simp]:
  "\<not> is_released (committed_region now target res gen r)" "mr_id (committed_region now target res gen r) = mr_id r"
  "region_handle (committed_region now target res gen r) = ar_handle res"
  "mr_granted_bytes (committed_region now target res gen r) = mr_granted_bytes r"
  "mr_generation (committed_region now target res gen r) = gen"
  by (simp_all add: committed_region_def rebound_region_def is_released_def released_state_def region_handle_def)

text \<open>Without interference the commit moves the region's charge to the new node.\<close>

lemma realloc_commit_exclusive:
  assumes "mm_inv s" and "om_find (mm_regions s) i = Some r" and "\<not> is_released r"
    and "gen_next (mr_generation r) = Inr gen"
  shows "realloc_commit now i target r new_res s =
    (let r' = committed_region now target new_res gen r in
     (put_region i r' (node_books.post (region_charge r') (node_books.settle (region_charge r) (mm_node_usage s))) s,
      Inr \<lparr>mv_committed = True, mv_copy_succeeded = True,
           mv_new_node = (if id_valid (ar_observed_node new_res) then ar_observed_node new_res else target),
           mv_generation = gen\<rparr>))"
proof -
  have "mr_generation (rebound_region target new_res r) = mr_generation r" by (simp add: rebound_region_def)
  then show ?thesis
    using assms(2,4)
    by (simp add: realloc_commit_def Let_def settle_charge [OF assms(1-3)] post_charge committed_region_simps(4)
        put_region_def flip: committed_region_def)
qed

lemma realloc_begin_cases:
  assumes "realloc_begin now i s = (s', res)"
  obtains (begun) r where "om_find (mm_regions s) i = Some r" and "\<not> is_released r" and "can_transition (mr_state r) LS_Migrating"
      and "s' = s\<lparr>mm_regions := om_insert i (r\<lparr>mr_state := LS_Migrating, mr_updated_ms := now\<rparr>) (mm_regions s)\<rparr>"
      and "res = Inr (r\<lparr>mr_state := LS_Migrating, mr_updated_ms := now\<rparr>)"
    | (refused) e where "s' = s" and "res = Inl e"
  using assms by (auto simp: realloc_begin_def Let_def split: option.splits if_splits)

lemma rebook_state:
  "\<not> released_state st \<Longrightarrow> \<not> is_released r \<Longrightarrow> region_charge (r\<lparr>mr_state := st, mr_updated_ms := t\<rparr>) = region_charge r"
  "is_released (r\<lparr>mr_state := st, mr_updated_ms := t\<rparr>) = released_state st"
  "region_handle (r\<lparr>mr_state := st, mr_updated_ms := t\<rparr>) = region_handle r"
  by (simp_all add: region_charge_def is_released_def choose_observed_node_def region_handle_def)

lemma mark_stale_books:
  "region_charge (mark_stale now r) = region_charge r" "is_released (mark_stale now r) = is_released r"
  "region_handle (mark_stale now r) = region_handle r" "mr_id (mark_stale now r) = mr_id r"
  "mr_state (mark_stale now r) = mr_state r"
  by (simp_all add: mark_stale_def region_charge_def is_released_def choose_observed_node_def region_handle_def)

end
