(* ===== verification/Memory_Safety.thy ===== *)
theory Memory_Safety
  imports Memory_Manager Synthetic_Backend
begin

text \<open>
  What the memory manager and a backend guarantee together. \<open>mm_step\<close> is one operation of
  the manager under its lock; runs of it interleave the clients of a runtime. A step
  assumes that the 64-bit counters are not exhausted. The invariant \<open>coherent\<close> ties the
  manager to the backend: the outstanding handles of the backend are those of the regions
  that are not released, each owned by one region, and the usage of every node is the sum
  of what those regions were granted. It is proved for every backend that meets the
  contract \<open>allocator\<close>; the synthetic backend is the instance of the witnesses. Moving a
  region into a released state by \<open>transition\<close> instead of \<open>release\<close>, and operations between
  the phases of a migration, are outside of \<open>mm_step\<close>; what happens there is shown at the end.
\<close>

section \<open>Steps\<close>

definition usage_room :: "u64 \<Rightarrow> MemoryManager \<Rightarrow> bool" where
  "usage_room bytes s \<longleftrightarrow> (\<forall>n. om_bal (mm_node_usage s) n + unat bytes < 2 ^ 64)"

inductive mm_step :: "'b Backend \<Rightarrow> ('b \<Rightarrow> bool) \<Rightarrow> 'b \<times> MemoryManager \<Rightarrow> 'b \<times> MemoryManager \<Rightarrow> bool"
  for be :: "'b Backend" and ready :: "'b \<Rightarrow> bool" where
  allocating: "ready b \<Longrightarrow> mm_next_id s \<noteq> - 1 \<Longrightarrow> gen_value (mm_watermark s) \<noteq> - 1 \<Longrightarrow>
     (\<And>b' res. be_allocate be (spec_of_request req) b = (b', Inr res) \<Longrightarrow> usage_room (qty_value (ar_granted_bytes res)) s) \<Longrightarrow>
     mm_allocate be now req (b, s) = (t, r) \<Longrightarrow> mm_step be ready (b, s) t"
| releasing: "mm_release be now i expected (b, s) = (t, r) \<Longrightarrow> mm_step be ready (b, s) t"
| transitioning: "\<not> released_state to \<Longrightarrow> mm_transition now i to s = (s', r) \<Longrightarrow> mm_step be ready (b, s) (b, s')"
| retiring: "om_find (mm_regions s) i = Some reg \<Longrightarrow> is_released reg \<Longrightarrow> mm_transition now i to s = (s', r) \<Longrightarrow>
     mm_step be ready (b, s) (b, s')"
| staling: "mm_step be ready (b, s) (b, invalidate_locality_stale now s)"
| migrating: "ready b \<Longrightarrow>
     (\<And>reg. om_find (mm_regions s) i = Some reg \<Longrightarrow>
        gen_value (mr_generation reg) \<noteq> - 1 \<and> usage_room (qty_value (mr_granted_bytes reg)) s) \<Longrightarrow>
     governed_reallocate be now i target copy_data (b, s) = (t, r) \<Longrightarrow> mm_step be ready (b, s) t"

fun coherent :: "('b \<Rightarrow> handle set) \<Rightarrow> ('b \<Rightarrow> bool) \<Rightarrow> 'b \<times> MemoryManager \<Rightarrow> bool" where
  "coherent outstanding be_inv (b, s) \<longleftrightarrow> be_inv b \<and> mm_inv s \<and> outstanding b = handles s"

lemma fresh_region: "mm_inv s \<Longrightarrow> om_find (mm_regions s) (Id (mm_next_id s)) = None"
  unfolding mm_inv_def by (metis Id.sel less_irrefl option.exhaust)

lemma room_postable: "usage_room bytes s \<Longrightarrow> \<not> is_released r \<Longrightarrow> qty_value (mr_granted_bytes r) = bytes \<Longrightarrow>
    node_books.postable (region_charge r) (mm_node_usage s)"
  by (simp add: usage_room_def node_books.postable_def region_charge_def)

lemma advance_inv:
  assumes "mm_inv s" and "mm_next_id s \<noteq> - 1"
  shows "mm_inv (s\<lparr>mm_next_id := mm_next_id s + 1, mm_watermark := g\<rparr>)"
    and "holds (s\<lparr>mm_next_id := mm_next_id s + 1, mm_watermark := g\<rparr>) = holds s"
proof -
  show h: "holds (s\<lparr>mm_next_id := mm_next_id s + 1, mm_watermark := g\<rparr>) = holds s"
    by (simp add: holds_def fun_eq_iff)
  show "mm_inv (s\<lparr>mm_next_id := mm_next_id s + 1, mm_watermark := g\<rparr>)"
    using assms word_less_succ(1) [OF assms(2)] unfolding mm_inv_def h by (auto intro: less_trans)
qed

lemma record_allocation_inv:
  assumes "mm_inv s" and "mm_next_id s \<noteq> - 1" and "gen_value (mm_watermark s) \<noteq> - 1"
  shows "usage_room (qty_value (ar_granted_bytes res)) s \<Longrightarrow> ar_handle res \<notin> handles s \<Longrightarrow>
      mm_inv (fst (record_allocation now req (Some res) s))
      \<and> handles (fst (record_allocation now req (Some res) s)) = insert (ar_handle res) (handles s)"
    and "mm_inv (fst (record_allocation now req None s)) \<and> handles (fst (record_allocation now req None s)) = handles s"
proof -
  from assms(3) obtain gen where gen: "gen_next (mm_watermark s) = Inr gen" by (simp add: gen_next_def)
  let ?s = "s\<lparr>mm_next_id := mm_next_id s + 1, mm_watermark := gen\<rparr>" and ?i = "Id (mm_next_id s) :: MemoryRegionId"
  note adv = advance_inv [OF assms(1,2), of gen]
  have h: "handles ?s = handles s" by (simp add: handles_def adv(2))
  have fresh: "om_find (mm_regions ?s) ?i = None" using fresh_region [OF assms(1)] by simp
  have lt: "id_value ?i < mm_next_id ?s" using word_less_succ(1) [OF assms(2)] by simp
  {
    assume room: "usage_room (qty_value (ar_granted_bytes res)) s" and new: "ar_handle res \<notin> handles s"
    let ?r = "allocated_region req res (new_region req ?i gen now)"
    have r: "\<not> is_released ?r" "mr_id ?r = ?i" "region_handle ?r = ar_handle res" "mr_granted_bytes ?r = ar_granted_bytes res"
      by (simp_all add: is_released_def released_state_def allocated_region_def new_region_def region_handle_def)
    have "node_books.postable (region_charge ?r) (mm_node_usage ?s)" using room_postable [OF room r(1)] r(4) by simp
    moreover have "\<not> holds ?s j (region_handle ?r)" for j using new r(3) adv(2) by (auto simp: handles_def)
    ultimately show "mm_inv (fst (record_allocation now req (Some res) s))
        \<and> handles (fst (record_allocation now req (Some res) s)) = insert (ar_handle res) (handles s)"
      using add_region_inv [OF adv(1) fresh r(2) lt] handles_add [OF fresh, of ?r] r(1,3) h
      by (simp add: record_allocation_some [OF gen] Let_def)
  }
  let ?r = "failed_region req ?i gen now"
  have r: "is_released ?r" "mr_id ?r = ?i" "region_charge ?r = None"
    by (simp_all add: failed_region_def is_released_def released_state_def new_region_def region_charge_def)
  then show "mm_inv (fst (record_allocation now req None s)) \<and> handles (fst (record_allocation now req None s)) = handles s"
    using add_region_inv [OF adv(1) fresh r(2) lt] handles_add [OF fresh, of ?r] h
    by (simp add: record_allocation_none [OF gen] Let_def node_books.post_def node_books.postable_def)
qed

section \<open>Every step keeps the manager and the backend coherent\<close>

lemma transition_inv:
  assumes "mm_inv s" and "mm_transition now i to s = (s', res)"
    and "\<not> released_state to \<or> (\<exists>r. om_find (mm_regions s) i = Some r \<and> is_released r)"
  shows "mm_inv s' \<and> handles s' = handles s"
  using assms(2)
proof (cases rule: mm_transition_cases)
  case (moved r)
  let ?r = "r\<lparr>mr_state := to, mr_updated_ms := now\<rparr>"
  have rel: "released_state to = is_released r"
    using moved assms(3) released_stays [of "mr_state r" to] by (auto simp: is_released_def)
  have "region_charge ?r = region_charge r"
  proof (cases "is_released r")
    case True
    with rel show ?thesis by (simp add: region_charge_def rebook_state(2))
  qed (use rel in \<open>simp add: rebook_state(1)\<close>)
  then show ?thesis
    using put_region_same [OF assms(1) moved(1), of ?r] rel moved(3) by (simp add: rebook_state(2,3) handles_def)
qed (simp add: assms(1))

lemma stale_inv:
  assumes "mm_inv s"
  shows "mm_inv (invalidate_locality_stale now s)" and "handles (invalidate_locality_stale now s) = handles s"
proof -
  have h: "holds (invalidate_locality_stale now s) = holds s"
    by (auto simp: holds_def invalidate_locality_stale_def fun_eq_iff mark_stale_books)
  then show "handles (invalidate_locality_stale now s) = handles s" by (simp add: handles_def)
  show "mm_inv (invalidate_locality_stale now s)"
    using assms node_books.backed_map [of "mark_stale now" "mm_node_usage s" "mm_regions s"] unfolding mm_inv_def h
    by (auto simp: invalidate_locality_stale_def node_books.balanced_map mark_stale_books)
qed

text \<open>The state of the manager once \<open>realloc_begin\<close> has moved region \<open>i\<close> to \<open>Migrating\<close>.\<close>

lemma begin_inv:
  assumes "mm_inv s" and "om_find (mm_regions s) i = Some r" and "\<not> is_released r" and "\<not> released_state st"
  shows "mm_inv (s\<lparr>mm_regions := om_insert i (r\<lparr>mr_state := st, mr_updated_ms := now\<rparr>) (mm_regions s)\<rparr>)"
    and "holds (s\<lparr>mm_regions := om_insert i (r\<lparr>mr_state := st, mr_updated_ms := now\<rparr>) (mm_regions s)\<rparr>) = holds s"
  using put_region_same [OF assms(1,2), of "r\<lparr>mr_state := st, mr_updated_ms := now\<rparr>"] assms(3,4)
  by (simp_all add: rebook_state)

lemma settle_room:
  assumes "mm_inv s" and "om_find (mm_regions s) i = Some r"
  shows "om_bal (node_books.settle (region_charge r) (mm_node_usage s)) n \<le> om_bal (mm_node_usage s) n"
proof -
  have bal: "node_books.balanced (mm_node_usage s) (mm_regions s)" using assms(1) by (simp add: mm_inv_def)
  show ?thesis
    using node_books.bal_settle [OF bal assms(2), of n] bal om.total_split [OF assms(2), of "\<lambda>_. node_books.due n"]
    by (simp add: node_books.balanced_def)
qed

lemma commit_inv:
  assumes "mm_inv s" and "om_find (mm_regions s) i = Some r" and "\<not> is_released r"
    and "usage_room (qty_value (mr_granted_bytes r)) s" and "gen_next (mr_generation r) = Inr gen"
    and "ar_handle res \<notin> handles s"
  shows "mm_inv (fst (realloc_commit now i target r res s))
    \<and> handles (fst (realloc_commit now i target r res s)) = insert (ar_handle res) (handles s - {region_handle r})"
proof -
  let ?r = "committed_region now target res gen r"
  have "mr_id ?r = i" using assms(1,2) by (simp add: mm_inv_def)
  moreover have "om_bal (node_books.settle (region_charge r) (mm_node_usage s)) n + unat (qty_value (mr_granted_bytes r)) < 2 ^ 64" for n
    by (rule le_less_trans [OF add_right_mono [OF settle_room [OF assms(1,2)]]]) (use assms(4) in \<open>simp add: usage_room_def\<close>)
  then have "node_books.postable (region_charge ?r) (node_books.settle (region_charge r) (mm_node_usage s))"
    by (simp add: node_books.postable_def region_charge_def [of ?r])
  moreover have "\<not> holds s j (region_handle ?r)" for j using assms(6) by (auto simp: handles_def)
  ultimately show ?thesis
    using put_region_inv [OF assms(1,2), of ?r] handles_put [OF assms(1-3), of ?r]
    by (simp add: realloc_commit_exclusive [OF assms(1-3,5)] Let_def)
qed

context allocator
begin

abbreviation joined :: "'b \<times> MemoryManager \<Rightarrow> bool" where
  "joined \<equiv> coherent outstanding be_inv"

lemma allocate_joined:
  assumes "joined (b, s)" and "ready b" and "mm_next_id s \<noteq> - 1" and "gen_value (mm_watermark s) \<noteq> - 1"
    and "\<And>b' res. be_allocate be (spec_of_request req) b = (b', Inr res) \<Longrightarrow> usage_room (qty_value (ar_granted_bytes res)) s"
  shows "joined (fst (mm_allocate be now req (b, s)))"
proof (cases "qty_is_zero (aq_bytes req)")
  case False
  from assms(1) have b: "be_inv b" "outstanding b = handles s" and inv: "mm_inv s" by simp_all
  note rec = record_allocation_inv [OF inv assms(3,4)]
  obtain b' q where q: "be_allocate be (spec_of_request req) b = (b', q)" by (metis prod.exhaust)
  show ?thesis
  proof (cases q)
    case (Inl e)
    with alloc_error [OF b(1), of "spec_of_request req" b' e] q obtain m where
      "be_inv b'" "outstanding b' = handles s" "e = BackendError m" using b(2) by auto
    with Inl q False rec(2) [of now req] show ?thesis by (simp add: mm_allocate_def split_beta)
  next
    case (Inr res)
    with alloc_ok [OF b(1) assms(2), of "spec_of_request req" b' res] q b(2) have
      "be_inv b'" "ar_handle res \<notin> handles s" "outstanding b' = insert (ar_handle res) (handles s)" by auto
    with Inr q False rec(1) [OF assms(5), of b' res now req] show ?thesis by (simp add: mm_allocate_def split_beta)
  qed
qed (use assms(1) in \<open>simp add: mm_allocate_def\<close>)

lemma release_joined:
  assumes "joined (b, s)"
  shows "joined (fst (mm_release be now i expected (b, s)))"
proof -
  from assms have b: "be_inv b" "outstanding b = handles s" and inv: "mm_inv s" by simp_all
  obtain s' q where q: "release_region now i expected s = (s', q)" by (metis prod.exhaust)
  from inv q show ?thesis
  proof (cases rule: release_region_cases)
    case (released r)
    have owned: "ar_handle (mr_backend_result r) \<in> outstanding b"
      using b(2) released(1,2) by (auto simp: handles_def holds_def region_handle_def)
    have "mr_id (released_region now r) = i" using inv released(1) by (simp add: mm_inv_def)
    from put_region_inv [OF inv released(1) this] have "mm_inv s'"
      unfolding released(3) by (simp add: node_books.post_def node_books.postable_def)
    moreover have "handles s' = handles s - {region_handle r}"
      using handles_put [OF inv released(1,2), of "released_region now r"] unfolding released(3) by simp
    ultimately show ?thesis
      using free_handle [OF b(1), of "mr_backend_result r"] owned b(2) q released(4)
      by (simp add: mm_release_def region_handle_def)
  qed (use q b inv in \<open>simp add: mm_release_def\<close>)
qed

lemma migrate_joined:
  assumes "joined (b, s)" and "ready b"
    and "\<And>r. om_find (mm_regions s) i = Some r \<Longrightarrow> gen_value (mr_generation r) \<noteq> - 1 \<and> usage_room (qty_value (mr_granted_bytes r)) s"
  shows "joined (fst (governed_reallocate be now i target copy_data (b, s)))"
proof -
  from assms(1) have b: "be_inv b" "outstanding b = handles s" and inv: "mm_inv s" by simp_all
  obtain s1 q where q: "realloc_begin now i s = (s1, q)" by (metis prod.exhaust)
  from q show ?thesis
  proof (cases rule: realloc_begin_cases)
    case (begun r)
    let ?r = "r\<lparr>mr_state := LS_Migrating, mr_updated_ms := now\<rparr>"
    have st: "\<not> released_state LS_Migrating" "\<not> released_state LS_Active" by (simp_all add: released_state_def)
    note s1 = begin_inv [OF inv begun(1,2) st(1), of now, folded begun(4)]
    have h1: "handles s1 = handles s" by (simp add: handles_def s1(2))
    have r1: "om_find (mm_regions s1) i = Some ?r" "\<not> is_released ?r" by (simp_all add: begun(4) rebook_state(2) st)
    obtain b' p where p: "be_allocate be (migration_spec target (mr_granted_bytes ?r)) b = (b', p)" by (metis prod.exhaust)
    show ?thesis
    proof (cases p)
      case (Inl e)
      with alloc_error [OF b(1)] p b(2) obtain m where
        "be_inv b'" "outstanding b' = handles s" "e = BackendError m" by metis
      moreover have "realloc_abort i s1 = s1\<lparr>mm_regions := om_insert i (?r\<lparr>mr_state := LS_Active, mr_updated_ms := now\<rparr>) (mm_regions s1)\<rparr>"
        using r1(1) by (cases r) (simp add: realloc_abort_def)
      then have "mm_inv (realloc_abort i s1)" "handles (realloc_abort i s1) = handles s"
        using begin_inv [OF s1(1) r1 st(2), of now] h1 by (simp_all add: handles_def)
      ultimately show ?thesis using Inl p q begun(5) by (simp add: governed_reallocate_def)
    next
      case (Inr res)
      with alloc_ok [OF b(1) assms(2)] p b(2) have a: "be_inv b'" "result_ok res" "ar_handle res \<notin> handles s1"
        "outstanding b' = insert (ar_handle res) (handles s1)" unfolding h1 by metis+
      from assms(3) [OF begun(1)] obtain gen where "gen_next (mr_generation ?r) = Inr gen" by (auto simp: gen_next_def)
      moreover have "usage_room (qty_value (mr_granted_bytes ?r)) s1"
        using assms(3) [OF begun(1)] by (simp add: usage_room_def begun(4))
      ultimately have c: "mm_inv (fst (realloc_commit now i target ?r res s1))"
        "handles (fst (realloc_commit now i target ?r res s1)) = insert (ar_handle res) (handles s1 - {region_handle ?r})"
        using commit_inv [OF s1(1) r1 _ _ a(3), of gen now target] by auto
      have "region_handle ?r \<in> handles s1" using r1 by (auto simp: handles_def holds_def)
      with a c free_handle [OF a(1), of "mr_backend_result ?r"] Inr p q begun(5) show ?thesis
        by (auto simp: governed_reallocate_def split_beta Let_def region_handle_def)
    qed
  qed (use q b inv in \<open>simp add: governed_reallocate_def\<close>)
qed

lemma step_joined: "mm_step be ready t t' \<Longrightarrow> joined t \<Longrightarrow> joined t'"
proof (induction rule: mm_step.induct)
  case (allocating b s req now t r)
  then show ?case using allocate_joined [of b s req now] by simp
next
  case (releasing now i expected b s t r)
  then show ?case using release_joined [of b s now i expected] by simp
next
  case (transitioning to now i s s' r b)
  then show ?case using transition_inv [of s now i to s' r] by simp
next
  case (retiring s i reg now to s' r b)
  then show ?case using transition_inv [of s now i to s' r] by auto
next
  case (staling b s now)
  then show ?case using stale_inv [of s now] by simp
next
  case (migrating b s i now target copy_data t r)
  then show ?case using migrate_joined [of b s i now target copy_data] by simp
qed

end

section \<open>What the books say\<close>

definition unreleased :: "MemoryManager \<Rightarrow> MemoryRegion list" where
  "unreleased s = filter (\<lambda>r. \<not> is_released r) (all_regions s)"

definition granted_bytes_on :: "NumaNodeId \<Rightarrow> MemoryRegion list \<Rightarrow> nat list" where
  "granted_bytes_on n rs = map (\<lambda>r. unat (qty_value (mr_granted_bytes r))) (filter (\<lambda>r. choose_observed_node r = n) rs)"

lemma due_region:
  "node_books.due n r = (if \<not> is_released r \<and> id_valid (choose_observed_node r) \<and> choose_observed_node r = n
     then unat (qty_value (mr_granted_bytes r)) else 0)"
  by (auto simp: node_books.due_def region_charge_def)

lemma books_usage:
  assumes "mm_inv s" and "id_valid n"
  shows "unat (per_node_allocated s n) = sum_list (granted_bytes_on n (unreleased s))"
proof -
  have "sum_list (map (node_books.due n) rs) = sum_list (granted_bytes_on n (filter (\<lambda>r. \<not> is_released r) rs))" for rs
    using assms(2) by (induction rs) (auto simp: due_region granted_bytes_on_def)
  moreover have "unat (per_node_allocated s n) = sum_list (map (node_books.due n) (om_values (mm_regions s)))"
    using assms(1) by (simp add: mm_inv_def node_books.balanced_def om.total_def om_values_def comp_def split_beta'
        per_node_allocated_def om_bal_def)
  ultimately show ?thesis by (simp add: unreleased_def all_regions_def)
qed

lemma unreleased_handles: "set (map region_handle (unreleased s)) = handles s"
  by (auto simp: unreleased_def all_regions_def om_values_set handles_def holds_def)

lemma unreleased_distinct:
  assumes "mm_inv s"
  shows "distinct (map region_handle (unreleased s))"
proof -
  have id: "mr_id r = i" if "om_find (mm_regions s) i = Some r" for i r using assms that by (simp add: mm_inv_def)
  have "map fst (om_entries (mm_regions s)) = map mr_id (all_regions s)"
    using id om.entries_iff [of _ _ "mm_regions s"] by (auto simp: all_regions_def om_values_def)
  then have "distinct (map mr_id (all_regions s))" using om.entries_distinct [of "mm_regions s"] by simp
  then have d: "distinct (unreleased s)" by (simp add: unreleased_def distinct_map)
  have "inj_on region_handle (set (unreleased s))"
  proof (rule inj_onI)
    fix r q assume "r \<in> set (unreleased s)" "q \<in> set (unreleased s)" and eq: "region_handle r = region_handle q"
    then obtain i j where "om_find (mm_regions s) i = Some r" "om_find (mm_regions s) j = Some q" "\<not> is_released r" "\<not> is_released q"
      by (auto simp: unreleased_def all_regions_def om_values_set)
    moreover from this eq have "holds s i (region_handle q)" "holds s j (region_handle q)" by (auto simp: holds_def)
    then have "i = j" using assms unfolding mm_inv_def by blast
    ultimately show "r = q" by simp
  qed
  with d show ?thesis by (simp add: distinct_map)
qed

lemma run_coherent:
  assumes "allocator be outstanding be_inv ready" and "(mm_step be ready)\<^sup>*\<^sup>* t t'" and "coherent outstanding be_inv t"
  shows "coherent outstanding be_inv t'"
  using assms(2,3) by (induction rule: rtranclp_induct) (auto intro: allocator.step_joined [OF assms(1)])

text \<open>
  The usage counter of a node is exactly what the regions on it that are not released
  were granted, after every run of operations, with any backend that meets the contract.
\<close>

theorem usage_equals_unreleased_regions:
  assumes "allocator be outstanding be_inv ready" and "be_inv b0" and "outstanding b0 = {}"
    and "(mm_step be ready)\<^sup>*\<^sup>* (b0, empty_manager) (b, s)" and "id_valid n"
  shows "unat (per_node_allocated s n) = sum_list (granted_bytes_on n (unreleased s))"
proof -
  have "coherent outstanding be_inv (b, s)"
    by (rule run_coherent [OF assms(1,4)]) (simp add: assms(2,3) empty_manager_inv)
  then show ?thesis using books_usage assms(5) by simp
qed


text \<open>
  Once every region has been released the accounting is clean: no node has usage left
  and the backend has nothing outstanding.
\<close>

theorem memory_accounting_closes:
  assumes "allocator be outstanding be_inv ready" and "be_inv b0" and "outstanding b0 = {}"
    and "(mm_step be ready)\<^sup>*\<^sup>* (b0, empty_manager) (b, s)" and "unreleased s = []"
  shows "mm_accounting_clean s \<and> outstanding b = {}"
proof -
  have c: "coherent outstanding be_inv (b, s)"
    by (rule run_coherent [OF assms(1,4)]) (simp add: assms(2,3) empty_manager_inv)
  have rel: "is_released r" if "om_find (mm_regions s) i = Some r" for i r
    using assms(5) that by (auto simp: unreleased_def all_regions_def filter_empty_conv om_values_set)
  then have "region_charge r = None" if "om_find (mm_regions s) i = Some r" for i r using that by (simp add: region_charge_def)
  moreover have "node_books.backed (mm_node_usage s) (mm_regions s)" using c by (simp add: mm_inv_def)
  ultimately have "\<not> om_present (mm_node_usage s) n" for n by (rule node_books.nothing_left [rotated])
  moreover have "\<not> is_live r" if "is_released r" for r
    using that by (auto simp: is_live_def is_released_def released_state_def)
  ultimately have "mm_accounting_clean s"
    using rel by (auto simp: mm_accounting_clean_def list_ex_iff om_values_set om_is_empty_iff om_present_def)
  moreover have "outstanding b = {}" using c assms(5) by (simp flip: unreleased_handles)
  ultimately show ?thesis by simp
qed

section \<open>A run on the synthetic backend\<close>

definition sample_alloc_request :: "u64 \<Rightarrow> u64 \<Rightarrow> AllocateRequest" where
  "sample_alloc_request node bytes = \<lparr>aq_bytes = Quantity bytes, aq_alignment = Quantity 64, aq_mode = PM_RequiredNode,
     aq_intended_node = Id node, aq_preferred_node = invalid_id, aq_required_node = Id node, aq_interleave_nodes = [],
     aq_kind = AK_Host, aq_touch = True, aq_owning_process = Id 7, aq_associated_worker = invalid_id,
     aq_associated_accelerator = invalid_id, aq_workload_id = ''w'', aq_tag = '''', aq_provenance = prov_unknown\<rparr>"

definition sample_memory :: "SyntheticBackend \<times> MemoryManager" where
  "sample_memory = fst (mm_allocate make_synthetic_backend 5 (sample_alloc_request 2 4096) (new_synthetic sample_config, empty_manager))"

lemma sample_allocator: "allocator make_synthetic_backend syn_outstanding syn_inv syn_ready"
  by (rule synthetic.allocator_axioms)

lemma sample_start: "syn_inv (new_synthetic sample_config)" "syn_outstanding (new_synthetic sample_config) = {}"
  by (rule new_synthetic_inv) (simp add: syn_outstanding_def syn_ids_def new_synthetic_def)

lemma sample_memory_run: "(mm_step make_synthetic_backend syn_ready)\<^sup>*\<^sup>* (new_synthetic sample_config, empty_manager) sample_memory"
proof (rule r_into_rtranclp)
  let ?req = "sample_alloc_request 2 4096"
  obtain t r where t: "mm_allocate make_synthetic_backend 5 ?req (new_synthetic sample_config, empty_manager) = (t, r)"
    by (metis prod.exhaust)
  have "usage_room (qty_value (ar_granted_bytes res)) empty_manager" for res
    by (simp add: usage_room_def empty_manager_def om_bal_def)
  then have "mm_step make_synthetic_backend syn_ready (new_synthetic sample_config, empty_manager) t"
    by (intro allocating [OF _ _ _ _ t]) (simp_all add: syn_ready_def new_synthetic_def empty_manager_def gen_initial_def)
  then show "mm_step make_synthetic_backend syn_ready (new_synthetic sample_config, empty_manager) sample_memory"
    by (simp add: sample_memory_def t)
qed

lemma sample_memory_run':
  "(mm_step make_synthetic_backend syn_ready)\<^sup>*\<^sup>* (new_synthetic sample_config, empty_manager) (fst sample_memory, snd sample_memory)"
  by (simp add: sample_memory_run)

lemma sample_memory_region: "granted_bytes_on (Id 2) (unreleased (snd sample_memory)) = [4096]"
  "map region_handle (unreleased (snd sample_memory)) = [Handle (Id 1) 0 False]"
  by code_simp+

theorem usage_equals_unreleased_regions_witness:
  "unat (per_node_allocated (snd sample_memory) (Id 2)) = 4096"
  using usage_equals_unreleased_regions [OF sample_allocator sample_start sample_memory_run', of "Id 2"]
  by (simp add: sample_memory_region)


definition sample_released :: "SyntheticBackend \<times> MemoryManager" where
  "sample_released = fst (mm_release make_synthetic_backend 6 (Id 1) None sample_memory)"

lemma sample_released_run:
  "(mm_step make_synthetic_backend syn_ready)\<^sup>*\<^sup>* (new_synthetic sample_config, empty_manager) (fst sample_released, snd sample_released)"
proof -
  have "mm_step make_synthetic_backend syn_ready (fst sample_memory, snd sample_memory) sample_released"
    unfolding sample_released_def by (metis releasing prod.collapse)
  with sample_memory_run' show ?thesis by (simp add: rtranclp.rtrancl_into_rtrancl)
qed

theorem memory_accounting_closes_witness:
  "mm_accounting_clean (snd sample_released) \<and> syn_outstanding (fst sample_released) = {}"
proof -
  have "unreleased (snd sample_released) = []" by code_simp
  then show ?thesis by (rule memory_accounting_closes [OF sample_allocator sample_start sample_released_run])
qed

section \<open>Released for good\<close>

definition retired :: "MemoryRegionId \<Rightarrow> MemoryManager \<Rightarrow> bool" where
  "retired i s \<longleftrightarrow> (\<exists>r. om_find (mm_regions s) i = Some r \<and> is_released r)"

lemma realloc_retired:
  assumes "retired i s"
  shows "\<exists>e. governed_reallocate be now i target copy_data (b, s) = ((b, s), Inl e)"
  using assms by (auto simp: retired_def governed_reallocate_def realloc_begin_def)

lemma release_retired:
  assumes "retired i s"
  shows "\<exists>e. mm_release be now i expected (b, s) = ((b, s), Inl e)"
  using assms release_region_refused [of s i expected now] by (auto simp: retired_def mm_release_def)

text \<open>Only an operation on region \<open>j\<close> changes the entry of region \<open>j\<close>, apart from its locality.\<close>

lemma realloc_other:
  "j \<noteq> i \<Longrightarrow> om_find (mm_regions (snd (fst (governed_reallocate be now i target copy_data (b, s))))) j = om_find (mm_regions s) j"
  by (auto simp: governed_reallocate_def realloc_begin_def realloc_abort_def realloc_commit_def Let_def
      split: prod.splits option.splits sum.splits exn.splits if_splits)

lemma release_other:
  "j \<noteq> i \<Longrightarrow> om_find (mm_regions (snd (fst (mm_release be now i expected (b, s))))) j = om_find (mm_regions s) j"
  by (auto simp: mm_release_def release_region_def Let_def split: prod.splits option.splits sum.splits if_splits)

lemma allocate_other:
  "j \<noteq> Id (mm_next_id s) \<Longrightarrow> om_find (mm_regions (snd (fst (mm_allocate be now req (b, s))))) j = om_find (mm_regions s) j"
  by (auto simp: mm_allocate_def record_allocation_def Let_def split: prod.splits option.splits sum.splits exn.splits if_splits)

lemma transition_retired: "retired j s \<Longrightarrow> retired j (fst (mm_transition now i to s))"
  by (auto simp: retired_def mm_transition_def is_released_def dest: released_stays split: option.splits)

lemma step_retired:
  assumes "mm_step be ready t t'" and "mm_inv (snd t)" and "retired j (snd t)"
  shows "retired j (snd t')"
  using assms
proof (induction rule: mm_step.induct)
  case (allocating b s req now t r)
  then have "j \<noteq> Id (mm_next_id s)" using fresh_region [of s] by (auto simp: retired_def)
  with allocating allocate_other [of j s be now req b] show ?case by (simp add: retired_def)
next
  case (releasing now i expected b s t r)
  then show ?case
    using release_retired [of i s be now expected b] release_other [of j i be now expected b s]
    by (cases "j = i") (auto simp: retired_def)
next
  case (migrating b s i now target copy_data t r)
  then show ?case
    using realloc_retired [of i s be now target copy_data b] realloc_other [of j i be now target copy_data b s]
    by (cases "j = i") (auto simp: retired_def)
next
  case (staling b s now)
  then show ?case by (auto simp: retired_def invalidate_locality_stale_def mark_stale_books)
next
  case (transitioning to now i s s' r b)
  then show ?case using transition_retired [of j s now i to] by simp
next
  case (retiring s i reg now to s' r b)
  then show ?case using transition_retired [of j s now i to] by simp
qed

text \<open>
  A region is released at most once: after a successful release, whatever operations
  follow, every further release and every migration of the region is refused, and
  neither the backend nor the manager is changed by it.
\<close>

theorem region_released_once:
  assumes "allocator be outstanding be_inv ready" and "coherent outstanding be_inv (b, s)"
    and "mm_release be now i expected (b, s) = (t1, Inr ())" and "(mm_step be ready)\<^sup>*\<^sup>* t1 (b2, s2)"
  shows "(\<exists>e. mm_release be now' i expected' (b2, s2) = ((b2, s2), Inl e))
         \<and> (\<exists>e. governed_reallocate be now' i target copy_data (b2, s2) = ((b2, s2), Inl e))"
proof -
  have c1: "coherent outstanding be_inv t1" using allocator.release_joined [OF assms(1,2), of now i expected] assms(3) by simp
  have inv: "mm_inv s" using assms(2) by simp
  obtain s' q where q: "release_region now i expected s = (s', q)" by (metis prod.exhaust)
  from inv q have "retired i (snd t1)"
  proof (cases rule: release_region_cases)
    case (released r)
    then show ?thesis using q assms(3) by (auto simp: mm_release_def retired_def)
  qed (use q assms(3) in \<open>simp add: mm_release_def\<close>)
  with assms(4) c1 have "retired i s2 \<and> coherent outstanding be_inv (b2, s2)"
  proof (induction "(b2, s2)" arbitrary: b2 s2 rule: rtranclp_induct)
    case base
    then show ?case by simp
  next
    case (step y)
    then show ?case
      using step_retired [of be ready y "(b2, s2)" i] allocator.step_joined [OF assms(1) step(2)] by (cases y) simp
  qed
  then show ?thesis by (simp add: release_retired realloc_retired)
qed

theorem region_released_once_witness:
  "\<exists>e. mm_release make_synthetic_backend 9 (Id 1) None sample_released = (sample_released, Inl e)"
proof -
  have "snd (mm_release make_synthetic_backend 6 (Id 1) None sample_memory) = Inr ()" by code_simp
  then have "mm_release make_synthetic_backend 6 (Id 1) None (fst sample_memory, snd sample_memory) = (sample_released, Inr ())"
    by (simp add: sample_released_def prod_eq_iff)
  moreover have "coherent syn_outstanding syn_inv (fst sample_memory, snd sample_memory)"
    by (rule run_coherent [OF sample_allocator sample_memory_run']) (simp add: sample_start empty_manager_inv)
  ultimately show ?thesis
    using region_released_once [OF sample_allocator, of "fst sample_memory" "snd sample_memory" 6 "Id 1" None sample_released
        "fst sample_released" "snd sample_released" 9 None] by simp
qed

section \<open>Migration commits or retains\<close>

text \<open>
  C24. A permitted migration either commits or retains the original authority. Committed: the
  region is rebound with the next generation, it owns a fresh handle of the backend, and
  the old handle is no longer outstanding. Not committed: the region is active with its old
  buffer, generation and node, and neither the usage nor the outstanding handles changed.
\<close>

theorem migration_commits_or_retains:
  assumes "allocator be outstanding be_inv ready" and "coherent outstanding be_inv (b, s)" and "ready b"
    and "om_find (mm_regions s) i = Some r" and "can_transition (mr_state r) LS_Migrating" and "gen_value (mr_generation r) \<noteq> - 1"
  shows "\<exists>b' s' view r'. governed_reallocate be now i target copy_data (b, s) = ((b', s'), Inr view)
    \<and> om_find (mm_regions s') i = Some r'
    \<and> (if mv_committed view
       then mr_state r' = LS_Rebound \<and> gen_next (mr_generation r) = Inr (mr_generation r') \<and> mv_generation view = mr_generation r'
            \<and> region_handle r' \<notin> outstanding b
            \<and> outstanding b' = insert (region_handle r') (outstanding b - {region_handle r})
       else mr_state r' = LS_Active \<and> mr_backend_result r' = mr_backend_result r \<and> mr_generation r' = mr_generation r
            \<and> mr_actual_node r' = mr_actual_node r \<and> mm_node_usage s' = mm_node_usage s \<and> outstanding b' = outstanding b)"
proof -
  from assms(2) have bi: "be_inv b" "outstanding b = handles s" and inv: "mm_inv s" by simp_all
  have st: "\<not> released_state LS_Migrating" by (simp add: released_state_def)
  have nr: "\<not> is_released r" using assms(5) by (cases "mr_state r") (auto simp: is_released_def released_state_def)
  let ?r = "r\<lparr>mr_state := LS_Migrating, mr_updated_ms := now\<rparr>"
  define s1 where "s1 = s\<lparr>mm_regions := om_insert i ?r (mm_regions s)\<rparr>"
  have bg: "realloc_begin now i s = (s1, Inr ?r)" using assms(4,5) nr by (simp add: realloc_begin_def s1_def Let_def)
  note i1 = begin_inv [OF inv assms(4) nr st, of now, folded s1_def]
  have h1: "handles s1 = handles s" by (simp add: handles_def i1(2))
  have r1: "om_find (mm_regions s1) i = Some ?r" "\<not> is_released ?r" by (simp_all add: s1_def rebook_state(2) st)
  obtain b' p where p: "be_allocate be (migration_spec target (mr_granted_bytes ?r)) b = (b', p)" by (metis prod.exhaust)
  show ?thesis
  proof (cases p)
    case (Inl e)
    with allocator.alloc_error [OF assms(1) bi(1)] p obtain m where
      "outstanding b' = outstanding b" "e = BackendError m" by metis
    with Inl p bg r1(1) show ?thesis
      by (simp add: governed_reallocate_def realloc_abort_def no_migration_def) (simp add: s1_def)
  next
    case (Inr res)
    with allocator.alloc_ok [OF assms(1) bi(1) assms(3)] p have a: "be_inv b'" "result_ok res" "ar_handle res \<notin> outstanding b"
      "outstanding b' = insert (ar_handle res) (outstanding b)" by metis+
    from assms(6) obtain gen where gen: "gen_next (mr_generation ?r) = Inr gen" by (auto simp: gen_next_def)
    have "region_handle r \<in> outstanding b" unfolding bi(2) using assms(4) nr by (auto simp: handles_def holds_def)
    with a have "outstanding (be_free be (mr_backend_result ?r) b') = insert (ar_handle res) (outstanding b - {region_handle r})"
      using allocator.free_handle [OF assms(1) a(1), of "mr_backend_result ?r"] by (auto simp: region_handle_def)
    with Inr p bg a(2,3) gen show ?thesis
      by (simp add: governed_reallocate_def realloc_commit_exclusive [OF i1(1) r1 gen] Let_def)
        (simp add: committed_region_def)
  qed
qed

definition sample_pending :: MemoryManager where
  "sample_pending = fst (mm_transition 7 (Id 1) LS_MigrationPending (snd sample_memory))"

lemma sample_memory_coherent: "coherent syn_outstanding syn_inv (fst sample_memory, snd sample_memory)"
  by (rule run_coherent [OF sample_allocator sample_memory_run']) (simp add: sample_start empty_manager_inv)

lemma sample_memory_outstanding: "syn_outstanding (fst sample_memory) = {Handle (Id 1) 0 False}"
proof -
  have "syn_outstanding (fst sample_memory) = handles (snd sample_memory)"
    using sample_memory_coherent by (simp only: coherent.simps)
  then show ?thesis unfolding unreleased_handles [symmetric] sample_memory_region by simp
qed

lemma sample_pending_coherent: "coherent syn_outstanding syn_inv (fst sample_memory, sample_pending)"
proof -
  have "\<not> released_state LS_MigrationPending" by (simp add: released_state_def)
  from synthetic.step_joined [OF transitioning [OF this prod.collapse [symmetric]] sample_memory_coherent]
  show ?thesis unfolding sample_pending_def .
qed

theorem migration_commits_or_retains_witness:
  "\<exists>b s view r. governed_reallocate make_synthetic_backend 8 (Id 1) (Id 1) True (fst sample_memory, sample_pending) = ((b, s), Inr view)
     \<and> mv_committed view \<and> om_find (mm_regions s) (Id 1) = Some r \<and> mr_state r = LS_Rebound
     \<and> syn_outstanding b = {region_handle r}"
proof -
  let ?g = "governed_reallocate make_synthetic_backend 8 (Id 1) (Id 1) True (fst sample_memory, sample_pending)"
  let ?f = "om_find (mm_regions sample_pending) (Id 1)"
  have "map_option mr_state ?f = Some LS_MigrationPending" and "map_option mr_generation ?f = Some (Generation 1)"
    and "map_option region_handle ?f = Some (Handle (Id 1) 0 False)" and c: "map_sum id mv_committed (snd ?g) = Inr True"
    by code_simp+
  then obtain r where r: "?f = Some r" "mr_state r = LS_MigrationPending" "mr_generation r = Generation 1" "region_handle r = Handle (Id 1) 0 False"
    by auto
  have "syn_ready (fst sample_memory)" by code_simp
  from migration_commits_or_retains [OF sample_allocator sample_pending_coherent this r(1), of 8 "Id 1" True] r
  obtain b s view r' where g: "?g = ((b, s), Inr view)" and f: "om_find (mm_regions s) (Id 1) = Some r'"
    and m: "mv_committed view \<Longrightarrow> mr_state r' = LS_Rebound
        \<and> syn_outstanding b = insert (region_handle r') (syn_outstanding (fst sample_memory) - {Handle (Id 1) 0 False})"
    by (auto split: if_splits)
  have "mv_committed view" using c g by simp
  moreover note sample_memory_outstanding
  ultimately show ?thesis using g f m by auto
qed

section \<open>Where the code departs from its contract\<close>

text \<open>
  \<open>transition\<close> accepts \<open>Invalidated\<close> for an active region: the region then counts as
  released, so \<open>release\<close> refuses it, but its buffer stays outstanding in the backend and
  its bytes stay in the node's usage for good.
\<close>

theorem invalidated_region_leaks:
  "\<exists>s. mm_transition 7 (Id 1) LS_Invalidated (snd sample_memory) = (s, Inr ())
     \<and> unreleased s = [] \<and> syn_outstanding (fst sample_memory) = {Handle (Id 1) 0 False} \<and> per_node_allocated s (Id 2) = 4096
     \<and> (\<exists>e. mm_release make_synthetic_backend 8 (Id 1) None (fst sample_memory, s) = ((fst sample_memory, s), Inl e))"
proof -
  obtain s q where e: "mm_transition 7 (Id 1) LS_Invalidated (snd sample_memory) = (s, q)" by (metis prod.exhaust)
  let ?t = "mm_transition 7 (Id 1) LS_Invalidated (snd sample_memory)"
  have "snd ?t = Inr ()" and "unreleased (fst ?t) = []" and "per_node_allocated (fst ?t) (Id 2) = 4096"
    and "map_option is_released (om_find (mm_regions (fst ?t)) (Id 1)) = Some True"
    by code_simp+
  then have s: "q = Inr ()" "unreleased s = []" "per_node_allocated s (Id 2) = 4096" "retired (Id 1) s"
    unfolding e by (auto simp: retired_def)
  from release_retired [OF s(4)] show ?thesis
    unfolding e using s sample_memory_outstanding by simp
qed

text \<open>A release of the region between the phases of its migration: the buffers of the two
  regions on node 1, then begin, allocate on the target, the release of another thread,
  the free of the old buffer and the commit.\<close>

definition two_regions :: "SyntheticBackend \<times> MemoryManager" where
  "two_regions =
     (let m0 = (new_synthetic sample_config, empty_manager);
          m1 = fst (mm_allocate make_synthetic_backend 1 (sample_alloc_request 1 1024) m0);
          m2 = fst (mm_allocate make_synthetic_backend 2 (sample_alloc_request 1 1024) m1)
      in (fst m2, fst (mm_transition 3 (Id 1) LS_MigrationPending (snd m2))))"

definition interleaved_release :: "(SyntheticBackend \<times> MemoryManager, MigrationView) outcome" where
  "interleaved_release =
     (let (b, s) = two_regions in
      case realloc_begin 4 (Id 1) s of
        (s, Inl e) \<Rightarrow> ((b, s), Inl e)
      | (s, Inr snapshot) \<Rightarrow>
          case be_allocate make_synthetic_backend (migration_spec (Id 2) (mr_granted_bytes snapshot)) b of
            (b, Inl e) \<Rightarrow> ((b, s), Inl e)
          | (b, Inr new_res) \<Rightarrow>
              let (b, s) = fst (mm_release make_synthetic_backend 5 (Id 1) None (b, s));
                  b = be_free make_synthetic_backend (mr_backend_result snapshot) b;
                  (s, view) = realloc_commit 6 (Id 1) (Id 2) snapshot new_res s
              in ((b, s), view))"

text \<open>
  The manager gives up its lock during a migration: when the region is released in
  between, its old buffer is freed twice, the commit brings the released region back to
  life and takes its bytes off the node a second time, so that the usage of node 1 is 0
  while another region is still on it.
\<close>

theorem release_during_migration_resurrects:
  "\<exists>b s view. interleaved_release = ((b, s), Inr view) \<and> mv_committed view
     \<and> map_option mr_state (get_region s (Id 1)) = Some LS_Rebound
     \<and> per_node_allocated s (Id 1) = 0 \<and> granted_bytes_on (Id 1) (unreleased s) = [1024]"
proof -
  obtain b s q where e: "interleaved_release = ((b, s), q)" by (metis prod.exhaust)
  have "map_sum id mv_committed (snd interleaved_release) = Inr True"
    and "map_option mr_state (get_region (snd (fst interleaved_release)) (Id 1)) = Some LS_Rebound"
    and "per_node_allocated (snd (fst interleaved_release)) (Id 1) = 0"
    and "granted_bytes_on (Id 1) (unreleased (snd (fst interleaved_release))) = [1024]"
    by code_simp+
  then show ?thesis unfolding e by (cases q) auto
qed

end
