(* ===== verification/Migration.thy ===== *)
theory Migration
  imports Memory_Safety
begin

text \<open>
  \<open>migration/migration.hpp\<close>: migration attempts over the memory manager. The state of an
  operation is the backend and memory manager of \<open>Memory_Safety\<close> beside the table of
  attempts. Theorems: every run of migration operations is, on the memory side, a run of
  the memory manager, so that its guarantees carry over; a resolved attempt is final; the
  authority of a request is recorded but not checked; a rebound region cannot be migrated
  again.
\<close>

section \<open>Attempts\<close>

record Migration =
  ma_attempt_id :: AttemptId
  ma_source_placement :: PlacementId
  ma_source_generation :: PlacementGeneration
  ma_source_node :: NumaNodeId
  ma_target_node :: NumaNodeId
  ma_memory_region :: MemoryRegionId
  ma_worker :: WorkerId
  ma_worker_boot :: WorkerBootId
  ma_epoch :: CoordinatorEpoch
  ma_policy_generation :: PolicyGeneration
  ma_reason :: string
  ma_expected_benefit :: LocalityCost
  ma_expected_cost :: LocalityCost
  ma_lifecycle :: LifecycleState
  ma_active :: bool
  ma_committed :: bool
  ma_copy_data :: bool
  ma_started_ms :: u64

record MigrateRequest =
  mq_worker :: WorkerId
  mq_worker_boot :: WorkerBootId
  mq_epoch :: CoordinatorEpoch
  mq_memory_region :: MemoryRegionId
  mq_source_node :: NumaNodeId
  mq_target_node :: NumaNodeId
  mq_source_placement :: PlacementId
  mq_source_generation :: PlacementGeneration
  mq_policy_generation :: PolicyGeneration
  mq_reason :: string
  mq_copy_data :: bool

record MigrationManager =
  mg_attempts :: "(AttemptId, Migration) omap"
  mg_next_attempt :: u64

definition empty_migrator :: MigrationManager where
  "empty_migrator = \<lparr>mg_attempts = om_empty, mg_next_attempt = 1\<rparr>"

type_synonym 'b migration_state = "('b \<times> MemoryManager) \<times> MigrationManager"

definition attempt_of :: "MigrateRequest \<Rightarrow> AttemptId \<Rightarrow> Migration" where
  "attempt_of req a = \<lparr>ma_attempt_id = a, ma_source_placement = mq_source_placement req,
     ma_source_generation = mq_source_generation req, ma_source_node = mq_source_node req,
     ma_target_node = mq_target_node req, ma_memory_region = mq_memory_region req, ma_worker = mq_worker req,
     ma_worker_boot = mq_worker_boot req, ma_epoch = mq_epoch req, ma_policy_generation = mq_policy_generation req,
     ma_reason = mq_reason req, ma_expected_benefit = qty_zero, ma_expected_cost = qty_zero,
     ma_lifecycle = LS_MigrationPending, ma_active = True, ma_committed = False, ma_copy_data = mq_copy_data req,
     ma_started_ms = 0\<rparr>"

definition put_attempt :: "AttemptId \<Rightarrow> Migration \<Rightarrow> MigrationManager \<Rightarrow> MigrationManager" where
  "put_attempt a m g = g\<lparr>mg_attempts := om_insert a m (mg_attempts g)\<rparr>"

definition mig_begin :: "u64 \<Rightarrow> MigrateRequest \<Rightarrow> 'b migration_state \<Rightarrow> ('b migration_state, AttemptId) outcome" where
  "mig_begin now req = (\<lambda>((b, s), g).
     if \<not> id_valid (mq_memory_region req) then (((b, s), g), Inl (MigrationError ''migration requires a memory region''))
     else if \<not> id_valid (mq_target_node req) then (((b, s), g), Inl (MigrationError ''migration requires a target node''))
     else let a = Id (mg_next_attempt g);
              g = put_attempt a (attempt_of req a) (g\<lparr>mg_next_attempt := mg_next_attempt g + 1\<rparr>) in
          case mm_transition now (mq_memory_region req) LS_MigrationPending s of
            (s, Inl e) \<Rightarrow> (((b, s), g\<lparr>mg_attempts := om_erase a (mg_attempts g)\<rparr>), Inl e)
          | (s, Inr _) \<Rightarrow> (((b, s), g), Inr a))"

definition resolve_attempt :: "AttemptId \<Rightarrow> bool \<Rightarrow> MigrationManager \<Rightarrow> MigrationManager" where
  "resolve_attempt a committed g =
     (case om_find (mg_attempts g) a of
        None \<Rightarrow> g
      | Some m \<Rightarrow>
          if committed then put_attempt a (m\<lparr>ma_lifecycle := LS_Rebound, ma_committed := True, ma_active := False\<rparr>) g
          else put_attempt a (m\<lparr>ma_lifecycle := LS_Failed, ma_active := False, ma_committed := False\<rparr>) g)"

definition mig_execute :: "'b Backend \<Rightarrow> u64 \<Rightarrow> AttemptId \<Rightarrow> 'b migration_state \<Rightarrow> ('b migration_state, unit) outcome" where
  "mig_execute be now a = (\<lambda>(bs, g).
     case om_find (mg_attempts g) a of
       None \<Rightarrow> ((bs, g), Inl (MigrationError (''unknown migration attempt '' @ id_to_string a)))
     | Some m \<Rightarrow>
         if \<not> ma_active m then ((bs, g), Inl (MigrationError (''migration attempt is not active '' @ id_to_string a)))
         else if ma_committed m then ((bs, g), Inl (MigrationError (''migration attempt already committed '' @ id_to_string a)))
         else let m = m\<lparr>ma_lifecycle := LS_Migrating\<rparr>; g = put_attempt a m g in
              case governed_reallocate be now (ma_memory_region m) (ma_target_node m) (ma_copy_data m) bs of
                (bs, Inl e) \<Rightarrow> ((bs, g), Inl e)
              | (bs, Inr view) \<Rightarrow> ((bs, resolve_attempt a (mv_committed view) g), Inr ()))"

definition mig_rollback :: "u64 \<Rightarrow> AttemptId \<Rightarrow> 'b migration_state \<Rightarrow> ('b migration_state, unit) outcome" where
  "mig_rollback now a = (\<lambda>((b, s), g).
     case om_find (mg_attempts g) a of
       None \<Rightarrow> (((b, s), g), Inl (MigrationError (''unknown migration attempt '' @ id_to_string a)))
     | Some m \<Rightarrow>
         if ma_committed m
         then (((b, s), g), Inl (MigrationError (''cannot rollback a committed migration '' @ id_to_string a)))
         else if ma_active m
         then (((b, fst (mm_transition now (ma_memory_region m) LS_Active s)),
                put_attempt a (m\<lparr>ma_lifecycle := LS_Active, ma_active := False\<rparr>) g), Inr ())
         else (((b, s), g), Inr ()))"

definition get_attempt :: "MigrationManager \<Rightarrow> AttemptId \<Rightarrow> Migration option" where
  "get_attempt g a = om_find (mg_attempts g) a"

definition all_attempts :: "MigrationManager \<Rightarrow> Migration list" where
  "all_attempts g = om_values (mg_attempts g)"

definition has_active :: "MigrationManager \<Rightarrow> bool" where
  "has_active g \<longleftrightarrow> list_ex ma_active (all_attempts g)"

lemmas migration_defs = mig_begin_def mig_execute_def mig_rollback_def resolve_attempt_def put_attempt_def

section \<open>Steps and their simulation by the memory manager\<close>

inductive mig_step :: "'b Backend \<Rightarrow> ('b \<Rightarrow> bool) \<Rightarrow> 'b migration_state \<Rightarrow> 'b migration_state \<Rightarrow> bool"
  for be :: "'b Backend" and ready :: "'b \<Rightarrow> bool" where
  beginning: "mg_next_attempt g \<noteq> - 1 \<Longrightarrow> mig_begin now req (bs, g) = (t, r) \<Longrightarrow> mig_step be ready (bs, g) t"
| executing: "ready b \<Longrightarrow>
     (\<And>m reg. get_attempt g a = Some m \<Longrightarrow> om_find (mm_regions s) (ma_memory_region m) = Some reg \<Longrightarrow>
        gen_value (mr_generation reg) \<noteq> - 1 \<and> usage_room (qty_value (mr_granted_bytes reg)) s) \<Longrightarrow>
     mig_execute be now a ((b, s), g) = (t, r) \<Longrightarrow> mig_step be ready ((b, s), g) t"
| cancelling: "mig_rollback now a (bs, g) = (t, r) \<Longrightarrow> mig_step be ready (bs, g) t"
| other: "mm_step be ready bs bs' \<Longrightarrow> mig_step be ready (bs, g) (bs', g)"

inductive_cases mig_step_elim: "mig_step be ready t t'"

lemma live_targets: "\<not> released_state LS_MigrationPending" "\<not> released_state LS_Active"
  by (simp_all add: released_state_def)

lemma begin_memory:
  assumes "mig_begin now req ((b, s), g) = (t, r)"
  shows "fst t = (b, s) \<or> (\<exists>r'. mm_transition now (mq_memory_region req) LS_MigrationPending s = (snd (fst t), r') \<and> fst (fst t) = b)"
  using assms by (auto simp: mig_begin_def Let_def split: prod.splits sum.splits if_splits)

lemma execute_memory:
  assumes "mig_execute be now a (bs, g) = (t, r)"
  shows "fst t = bs \<or> (\<exists>m r'. get_attempt g a = Some m \<and>
    governed_reallocate be now (ma_memory_region m) (ma_target_node m) (ma_copy_data m) bs = (fst t, r'))"
  using assms by (auto simp: mig_execute_def get_attempt_def Let_def split: prod.splits sum.splits if_splits option.splits)

lemma rollback_memory:
  assumes "mig_rollback now a ((b, s), g) = (t, r)"
  shows "fst t = (b, s) \<or> (\<exists>i. fst t = (b, fst (mm_transition now i LS_Active s)))"
  using assms by (auto simp: mig_rollback_def split: if_splits option.splits)

lemma mig_step_memory:
  assumes "mig_step be ready t t'"
  shows "(mm_step be ready)\<^sup>*\<^sup>* (fst t) (fst t')"
proof -
  have "fst t' = fst t \<or> mm_step be ready (fst t) (fst t')"
    using assms
  proof cases
    case (beginning g now req bs r)
    obtain b s where bs: "bs = (b, s)" by (cases bs)
    with beginning begin_memory [of now req b s g t' r] transitioning [OF live_targets(1), of now "mq_memory_region req" s]
    show ?thesis by (metis fst_conv prod.collapse)
  next
    case (executing b g a s now r)
    from execute_memory [OF executing(4)] show ?thesis
    proof
      assume "\<exists>m r'. get_attempt g a = Some m \<and>
        governed_reallocate be now (ma_memory_region m) (ma_target_node m) (ma_copy_data m) (b, s) = (fst t', r')"
      then obtain m r' where m: "get_attempt g a = Some m"
        and g: "governed_reallocate be now (ma_memory_region m) (ma_target_node m) (ma_copy_data m) (b, s) = (fst t', r')" by blast
      have "mm_step be ready (b, s) (fst t')"
        by (rule migrating [where ready = ready and b = b and s = s and i = "ma_memory_region m", OF executing(2) _ g])
          (rule executing(3) [OF m])
      then show ?thesis by (simp add: executing(1))
    qed (simp add: executing(1))
  next
    case (cancelling now a bs g r)
    obtain b s where bs: "bs = (b, s)" by (cases bs)
    with cancelling rollback_memory [of now a b s g t' r] transitioning [OF live_targets(2), of now _ s]
    show ?thesis by (metis fst_conv prod.collapse)
  next
    case (other bs bs' g)
    then show ?thesis by simp
  qed
  then show ?thesis by auto
qed

section \<open>Attempts are final once resolved\<close>

definition attempts_ok :: "MigrationManager \<Rightarrow> bool" where
  "attempts_ok g \<longleftrightarrow> (\<forall>a m. get_attempt g a = Some m \<longrightarrow>
     ma_attempt_id m = a \<and> id_value a < mg_next_attempt g \<and> \<not> (ma_active m \<and> ma_committed m))"

lemma begin_attempts:
  assumes "mig_begin now req (bs, g) = (t, r)" and "attempts_ok g" and "mg_next_attempt g \<noteq> - 1"
  shows "attempts_ok (snd t)" and "get_attempt g a = Some m \<Longrightarrow> get_attempt (snd t) a = Some m"
proof -
  have fresh: "om_find (mg_attempts g) (Id (mg_next_attempt g)) = None"
    using assms(2) unfolding attempts_ok_def get_attempt_def by (metis Id.sel less_irrefl option.exhaust)
  then have drop: "om_erase (Id (mg_next_attempt g)) (mg_attempts g) = mg_attempts g" by (rule om.drop_missing)
  have lt: "mg_next_attempt g < mg_next_attempt g + 1" by (rule word_less_succ(1) [OF assms(3)])
  then have lt': "x < mg_next_attempt g \<Longrightarrow> x < mg_next_attempt g + 1" for x by (rule less_trans [rotated])
  show "attempts_ok (snd t)"
    using assms(1,2) lt lt' by (auto simp: mig_begin_def put_attempt_def Let_def attempts_ok_def get_attempt_def attempt_of_def
        om.drop_put drop split: prod.splits sum.splits if_splits)
  show "get_attempt g a = Some m \<Longrightarrow> get_attempt (snd t) a = Some m"
    using assms(1) fresh by (auto simp: mig_begin_def put_attempt_def Let_def get_attempt_def om.drop_put drop
        split: prod.splits sum.splits if_splits)
qed

lemma execute_attempts:
  assumes "mig_execute be now c (bs, g) = (t, r)" and "attempts_ok g"
  shows "attempts_ok (snd t)" and "get_attempt g a = Some m \<Longrightarrow> \<not> ma_active m \<Longrightarrow> get_attempt (snd t) a = Some m"
  using assms by (auto simp: migration_defs Let_def attempts_ok_def get_attempt_def
      split: prod.splits sum.splits if_splits option.splits)

lemma rollback_attempts:
  assumes "mig_rollback now c (bs, g) = (t, r)" and "attempts_ok g"
  shows "attempts_ok (snd t)" and "get_attempt g a = Some m \<Longrightarrow> \<not> ma_active m \<Longrightarrow> get_attempt (snd t) a = Some m"
  using assms by (cases bs; auto simp: mig_rollback_def put_attempt_def attempts_ok_def get_attempt_def
      split: if_splits option.splits)+

interpretation migrations: step_system "mig_step be ready" "\<lambda>t. attempts_ok (snd t)"
  for be :: "'b Backend" and ready
proof unfold_locales
  fix t t' :: "'b migration_state"
  assume "mig_step be ready t t'" and "attempts_ok (snd t)"
  then show "attempts_ok (snd t')"
    by cases (auto dest: begin_attempts(1) execute_attempts(1) rollback_attempts(1))
qed

lemma resolved_step:
  assumes "attempts_ok (snd t)" and "mig_step be ready t t'" and "get_attempt (snd t) a = Some m \<and> \<not> ma_active m"
  shows "get_attempt (snd t') a = Some m \<and> \<not> ma_active m"
  using assms(2,1,3)
proof cases
  case (beginning g now req bs r)
  with assms begin_attempts(2) [of now req bs g t' r a m] show ?thesis by simp
next
  case (executing b g c s now r)
  with assms execute_attempts(2) [of be now c "(b, s)" g t' r a m] show ?thesis by simp
next
  case (cancelling now c bs g r)
  with assms rollback_attempts(2) [of now c bs g t' r a m] show ?thesis by simp
qed (use assms in simp)

text \<open>
  C25. Migration refines the memory manager: what any run of begin, execute, rollback and
  memory operations does to regions and buffers is a run of the memory manager alone, so
  from a fresh start the backend's outstanding handles are again exactly those of the
  regions that are not released; and every attempt in the table is known under its own
  identifier and never both active and committed.
\<close>

theorem migration_refines_memory_manager:
  assumes "allocator be outstanding be_inv ready" and "be_inv b0" and "outstanding b0 = {}"
    and "(mig_step be ready)\<^sup>*\<^sup>* ((b0, empty_manager), empty_migrator) ((b, s), g)"
  shows "(mm_step be ready)\<^sup>*\<^sup>* (b0, empty_manager) (b, s)
    \<and> outstanding b = set (map region_handle (unreleased s))
    \<and> (\<forall>a m. get_attempt g a = Some m \<longrightarrow> ma_attempt_id m = a \<and> \<not> (ma_active m \<and> ma_committed m))"
proof -
  have run: "(mm_step be ready)\<^sup>*\<^sup>* (fst t) (fst t')" if "(mig_step be ready)\<^sup>*\<^sup>* t t'" for t t'
    using that by (induction rule: rtranclp_induct) (auto dest: mig_step_memory)
  from run [OF assms(4)] have mem: "(mm_step be ready)\<^sup>*\<^sup>* (b0, empty_manager) (b, s)" by simp
  have "coherent outstanding be_inv (b, s)"
    by (rule run_coherent [OF assms(1) mem]) (simp add: assms(2,3) empty_manager_inv)
  moreover have "attempts_ok g"
    using migrations.run_inv [OF assms(4)] by (simp add: attempts_ok_def empty_migrator_def get_attempt_def)
  ultimately show ?thesis using mem unfolding unreleased_handles attempts_ok_def by simp
qed

text \<open>
  A migration attempt is resolved at most once: after it is committed, failed or rolled
  back its record never changes again, every further execution is refused without any
  effect, and a rollback of a committed attempt is refused.
\<close>

theorem resolved_attempt_final:
  assumes "attempts_ok g" and "get_attempt g a = Some m" and "\<not> ma_active m"
    and "(mig_step be ready)\<^sup>*\<^sup>* (bs, g) (bs', g')"
  shows "get_attempt g' a = Some m
    \<and> mig_execute be now a (bs', g') = ((bs', g'), Inl (MigrationError (''migration attempt is not active '' @ id_to_string a)))
    \<and> mig_rollback now a (bs', g') = ((bs', g'), if ma_committed m
        then Inl (MigrationError (''cannot rollback a committed migration '' @ id_to_string a)) else Inr ())"
proof -
  have "get_attempt (snd (bs', g')) a = Some m \<and> \<not> ma_active m"
  proof (rule migrations.run_keeps [OF assms(4)])
    show "attempts_ok (snd (bs, g))" and "get_attempt (snd (bs, g)) a = Some m \<and> \<not> ma_active m" using assms(1-3) by simp_all
  qed (rule resolved_step)
  then show ?thesis by (cases bs') (simp add: get_attempt_def mig_execute_def mig_rollback_def)
qed

section \<open>A migration on the synthetic backend\<close>

definition sample_migrate :: "u64 \<Rightarrow> CoordinatorEpoch \<Rightarrow> MigrateRequest" where
  "sample_migrate node epoch = \<lparr>mq_worker = Id 1, mq_worker_boot = Id 1, mq_epoch = epoch, mq_memory_region = Id 1,
     mq_source_node = invalid_id, mq_target_node = Id node, mq_source_placement = invalid_id,
     mq_source_generation = gen_initial, mq_policy_generation = gen_invalid, mq_reason = ''rebalance'', mq_copy_data = True\<rparr>"

definition sample_begun :: "SyntheticBackend migration_state" where
  "sample_begun = fst (mig_begin 8 (sample_migrate 1 (Generation 1)) (sample_memory, empty_migrator))"

definition sample_migrated :: "SyntheticBackend migration_state" where
  "sample_migrated = fst (mig_execute make_synthetic_backend 9 (Id 1) sample_begun)"

lemma sample_begun_step: "mig_step make_synthetic_backend syn_ready (sample_memory, empty_migrator) sample_begun"
proof -
  have "mg_next_attempt empty_migrator \<noteq> - 1" by (simp add: empty_migrator_def)
  then show ?thesis unfolding sample_begun_def by (metis beginning prod.collapse)
qed

lemma sample_migrated_step: "mig_step make_synthetic_backend syn_ready sample_begun sample_migrated"
proof -
  have "map_option (\<lambda>r. (mr_generation r, mr_granted_bytes r)) (om_find (mm_regions (snd (fst sample_begun))) (Id 1))
      = Some (Generation 1, Quantity 4096)" and "map_option ma_memory_region (get_attempt (snd sample_begun) (Id 1)) = Some (Id 1)"
    and e: "om_entries (mm_node_usage (snd (fst sample_begun))) = [(Id 2, 4096)]"
    by code_simp+
  moreover have "om_bal (mm_node_usage (snd (fst sample_begun))) n + 4096 < 2 ^ 64" for n
    by (simp add: om_bal_def om_get0_def om.find_entries e)
  ultimately have guard: "gen_value (mr_generation reg) \<noteq> - 1 \<and> usage_room (qty_value (mr_granted_bytes reg)) (snd (fst sample_begun))"
    if "get_attempt (snd sample_begun) (Id 1) = Some m" "om_find (mm_regions (snd (fst sample_begun))) (ma_memory_region m) = Some reg"
    for m reg
    using that by (auto simp: usage_room_def)
  have "syn_ready (fst (fst sample_begun))" by code_simp
  have "mig_step make_synthetic_backend syn_ready ((fst (fst sample_begun), snd (fst sample_begun)), snd sample_begun)
      (fst (mig_execute make_synthetic_backend 9 (Id 1) ((fst (fst sample_begun), snd (fst sample_begun)), snd sample_begun)))"
    by (rule executing [where ready = syn_ready, OF \<open>syn_ready _\<close> _ prod.collapse [symmetric]]) (rule guard)
  then show ?thesis by (simp add: sample_migrated_def)
qed

lemma sample_migrated_run:
  "(mig_step make_synthetic_backend syn_ready)\<^sup>*\<^sup>* ((new_synthetic sample_config, empty_manager), empty_migrator)
     ((fst (fst sample_migrated), snd (fst sample_migrated)), snd sample_migrated)"
proof -
  have lift: "(mig_step make_synthetic_backend syn_ready)\<^sup>*\<^sup>* (t, g) (t', g)"
    if "(mm_step make_synthetic_backend syn_ready)\<^sup>*\<^sup>* t t'" for t t' and g :: MigrationManager
    using that by (induction rule: rtranclp_induct) (auto intro: other rtranclp.rtrancl_into_rtrancl)
  from rtranclp.rtrancl_into_rtrancl [OF rtranclp.rtrancl_into_rtrancl [OF lift [OF sample_memory_run] sample_begun_step] sample_migrated_step]
  show ?thesis by simp
qed

theorem migration_refines_memory_manager_witness:
  "(mm_step make_synthetic_backend syn_ready)\<^sup>*\<^sup>* (new_synthetic sample_config, empty_manager) (fst sample_migrated)
   \<and> syn_outstanding (fst (fst sample_migrated)) = {Handle (Id 2) 0 False}"
proof -
  have "map region_handle (unreleased (snd (fst sample_migrated))) = [Handle (Id 2) 0 False]" by code_simp
  with migration_refines_memory_manager [OF sample_allocator sample_start sample_migrated_run] show ?thesis by simp
qed

theorem resolved_attempt_final_witness:
  "\<exists>e. mig_execute make_synthetic_backend 10 (Id 1) sample_migrated = (sample_migrated, Inl e)"
proof -
  have "map_option ma_active (get_attempt (snd sample_migrated) (Id 1)) = Some False" by code_simp
  then obtain m where m: "get_attempt (snd sample_migrated) (Id 1) = Some m" "\<not> ma_active m" by auto
  have "attempts_ok (snd sample_migrated)"
    using migrations.run_inv [OF sample_migrated_run] by (simp add: attempts_ok_def empty_migrator_def get_attempt_def)
  from resolved_attempt_final [OF this m rtranclp.rtrancl_refl, of make_synthetic_backend 10 "fst sample_migrated"]
  show ?thesis by auto
qed

section \<open>Where the code departs from its contract\<close>

text \<open>
  The authority of a migration request is recorded but never examined: two requests
  that differ only in epoch and boot have the same outcome on the memory and the same
  result, so a stale epoch or boot is not rejected.
\<close>

theorem migration_authority_unchecked:
  "map_prod fst id (mig_begin now (req\<lparr>mq_epoch := epoch, mq_worker_boot := boot\<rparr>) t) = map_prod fst id (mig_begin now req t)"
  by (cases t; cases "fst t") (auto simp: mig_begin_def Let_def split: prod.splits sum.splits)

text \<open>
  A region can be migrated only once: after the commit it is \<open>Rebound\<close>, from where
  \<open>MigrationPending\<close> cannot be reached, so a second attempt is refused.
\<close>

theorem second_migration_refused:
  "mv_committed view \<Longrightarrow> governed_reallocate be now i target copy_data bs = ((b, s), Inr view) \<Longrightarrow>
   mq_memory_region req = i \<Longrightarrow> \<exists>t e. mig_begin now' req ((b, s), g) = (t, Inl e)"
proof -
  assume c: "mv_committed view" and g: "governed_reallocate be now i target copy_data bs = ((b, s), Inr view)"
    and req: "mq_memory_region req = i"
  have "map_option mr_state (om_find (mm_regions s) i) = Some LS_Rebound"
    using c g by (auto simp: governed_reallocate_def realloc_begin_def realloc_abort_def realloc_commit_def no_migration_def Let_def
        split: prod.splits option.splits sum.splits exn.splits if_splits)
  then show ?thesis
    using req by (auto simp: mig_begin_def mm_transition_def Let_def)
qed

theorem second_migration_refused_witness:
  "\<exists>t e. mig_begin 11 (sample_migrate 2 (Generation 1)) (fst sample_migrated, empty_migrator) = (t, Inl e)"
proof -
  let ?g = "governed_reallocate make_synthetic_backend 9 (Id 1) (Id 1) True (fst sample_begun)"
  have c: "map_sum id mv_committed (snd ?g) = Inr True" and "map_option (\<lambda>m. (ma_memory_region m, ma_target_node m, ma_copy_data m,
      ma_active m, ma_committed m)) (get_attempt (snd sample_begun) (Id 1)) = Some (Id 1, Id 1, True, True, False)"
    by code_simp+
  then have "fst sample_migrated = fst ?g"
    by (auto simp: sample_migrated_def mig_execute_def get_attempt_def split_beta Let_def split: sum.splits)
  moreover obtain b s view where g: "?g = ((b, s), Inr view)" "mv_committed view"
    using c by (cases ?g; cases "fst ?g"; cases "snd ?g") auto
  ultimately show ?thesis
    using second_migration_refused [OF g(2,1), of "sample_migrate 2 (Generation 1)"] by (simp add: sample_migrate_def)
qed

end
