(* ===== verification/Binary64.thy ===== *)
theory Binary64
  imports Complex_Main "HOL-Library.Log_Nat" Prelude
begin

text \<open>
  The arithmetic of \<open>double\<close> that the placement engine uses: a value is the rational number it
  denotes, and every operation rounds its exact result to 53 significant bits, ties to
  even. Numbers beyond the exponent range (overflow, subnormal numbers) do not occur for
  64-bit operands with weights of moderate size and are not modelled.
\<close>

section \<open>Rounding\<close>

definition round_half_even :: "rat \<Rightarrow> int" where
  "round_half_even x =
     (let f = \<lfloor>x\<rfloor>; d = x - of_int f in if d < 1 / 2 \<or> (d = 1 / 2 \<and> even f) then f else f + 1)"

definition two_to :: "int \<Rightarrow> rat" where
  "two_to k = (if k \<ge> 0 then 2 ^ nat k else 1 / 2 ^ nat (- k))"

definition exponent_of :: "rat \<Rightarrow> int" where
  "exponent_of x =
     (let (p, q) = quotient_of \<bar>x\<bar>; d = bitlen p - bitlen q in if two_to d \<le> \<bar>x\<bar> then d else d - 1)"

definition binary64 :: "rat \<Rightarrow> rat" where
  "binary64 x =
     (if x = 0 then 0 else let u = two_to (exponent_of x - 52) in of_int (round_half_even (x / u)) * u)"

definition double_of_u64 :: "u64 \<Rightarrow> rat" where
  "double_of_u64 w = binary64 (of_int (uint w))"

definition u64_of_double :: "rat \<Rightarrow> u64" where
  "u64_of_double x = of_int \<lfloor>x\<rfloor>"

definition dbl_add :: "rat \<Rightarrow> rat \<Rightarrow> rat" where
  "dbl_add x y = binary64 (x + y)"

definition dbl_mul :: "rat \<Rightarrow> rat \<Rightarrow> rat" where
  "dbl_mul x y = binary64 (x * y)"

definition dbl_div :: "rat \<Rightarrow> rat \<Rightarrow> rat" where
  "dbl_div x y = binary64 (x / y)"

definition dbl_sub :: "rat \<Rightarrow> rat \<Rightarrow> rat" where
  "dbl_sub x y = binary64 (x - y)"

section \<open>Integers below \<open>2 ^ 53\<close> are exact\<close>

lemma two_to_pos [simp]: "two_to k > 0" "two_to k \<noteq> 0"
  by (simp_all add: two_to_def)

lemma round_of_int [simp]: "round_half_even (of_int n) = n"
  by (simp add: round_half_even_def)

lemma two_to_neg: "k \<le> 0 \<Longrightarrow> x / two_to k = x * 2 ^ nat (- k)"
  by (cases "k = 0") (simp_all add: two_to_def)

lemma exponent_of_int:
  assumes "0 < n" and "n < 2 ^ 53"
  shows "exponent_of (of_int n) \<le> 52"
proof -
  have "bitlen n \<le> 53" using assms by (simp add: bitlen_le_iff_power)
  moreover have "quotient_of \<bar>of_int n\<bar> = (n, 1)" using assms(1) by (simp add: quotient_of_int)
  moreover have "bitlen 1 = 1" by code_simp
  ultimately show ?thesis by (simp add: exponent_of_def Let_def)
qed

lemma binary64_nat:
  assumes "n < 2 ^ 53"
  shows "binary64 (of_nat n) = of_nat n"
proof (cases "n = 0")
  case False
  define k where "k = exponent_of (of_nat n) - 52"
  have "k \<le> 0" using exponent_of_int [of "int n"] assms False by (simp add: k_def)
  then have "of_nat n / two_to k = of_int (int n * 2 ^ nat (- k))" by (simp add: two_to_neg)
  then have "of_int (round_half_even (of_nat n / two_to k)) = of_nat n / two_to k" by (simp only: round_of_int)
  then have "binary64 (of_nat n) = of_nat n / two_to k * two_to k"
    using False by (simp add: binary64_def Let_def flip: k_def)
  then show ?thesis by simp
qed (simp add: binary64_def)

lemma double_of_u64_exact: "unat w < 2 ^ 53 \<Longrightarrow> double_of_u64 w = of_nat (unat w)"
  using binary64_nat [of "unat w"] by (simp add: double_of_u64_def)

lemma dbl_add_nat: "m + n < 2 ^ 53 \<Longrightarrow> dbl_add (of_nat m) (of_nat n) = of_nat (m + n)"
  unfolding dbl_add_def of_nat_add [symmetric] by (rule binary64_nat)

lemma dbl_mul_nat: "m * n < 2 ^ 53 \<Longrightarrow> dbl_mul (of_nat m) (of_nat n) = of_nat (m * n)"
  unfolding dbl_mul_def of_nat_mult [symmetric] by (rule binary64_nat)

lemma u64_of_double_nat: "u64_of_double (of_nat n) = of_nat n"
  by (simp add: u64_of_double_def)

end
