(* ===== verification/Placement.thy ===== *)
theory Placement
  imports Backend Binary64 "HOL-Library.List_Lexorder" "HOL-Library.Char_ord" "HOL-Library.Product_Lexorder"
begin

text \<open>
  \<open>placement/placement_engine.hpp\<close> and \<open>src/placement_engine.cpp\<close>: the deterministic choice
  of a node. Every node of the topology is checked against the hard constraints; the
  eligible ones get a weighted cost and are ranked. Weights and the capacity ratio are
  \<open>double\<close> values (theory \<open>Binary64\<close>); the distance function is part of the model that the
  runtime hands over. Theorems: a decision that places work names an eligible node of
  least cost, ties broken by the identifier; it satisfies every hard constraint; it does
  not depend on the order of the nodes; nothing is placed on stale evidence.
\<close>

section \<open>Requests, candidates, decisions\<close>

record PlacementRequest =
  pq_workload_id :: string
  pq_preferred_accelerator :: AcceleratorId
  pq_memory_footprint :: Bytes
  pq_preferred_node :: NumaNodeId
  pq_current_node :: NumaNodeId
  pq_memory_owner_node :: NumaNodeId
  pq_io_node :: NumaNodeId
  pq_required_node :: NumaNodeId
  pq_has_required_node :: bool
  pq_require_accelerator_locality :: bool
  pq_prefer_accelerator_locality :: bool
  pq_required_cpu_count :: u32
  pq_allow_fallback :: bool
  pq_policy_generation :: PolicyGeneration
  pq_revalidation_pending :: bool
  pq_worker_already_bound :: bool

definition default_request :: PlacementRequest where
  "default_request = \<lparr>pq_workload_id = '''', pq_preferred_accelerator = invalid_id, pq_memory_footprint = qty_zero,
     pq_preferred_node = invalid_id, pq_current_node = invalid_id, pq_memory_owner_node = invalid_id,
     pq_io_node = invalid_id, pq_required_node = invalid_id, pq_has_required_node = False,
     pq_require_accelerator_locality = False, pq_prefer_accelerator_locality = False, pq_required_cpu_count = 0,
     pq_allow_fallback = True, pq_policy_generation = gen_invalid, pq_revalidation_pending = False,
     pq_worker_already_bound = False\<rparr>"

record CandidateCost =
  cc_node :: NumaNodeId
  cc_eligible :: bool
  cc_components :: "(string, LocalityCost) omap"
  cc_total :: LocalityCost
  cc_violations :: "string list"
  cc_processor_count :: u32

record PlacementModel =
  pm_accelerator_locality :: "(AcceleratorId, AcceleratorLocality) omap"
  pm_node_capacity :: "(NumaNodeId, Capacity) omap"
  pm_node_free :: "(NumaNodeId, AvailableMemory) omap"
  pm_distance :: "NumaNodeId \<Rightarrow> NumaNodeId \<Rightarrow> LocalityCost"
  pm_policy_weight :: "(string, rat) omap"
  pm_reserved_capacity :: "(NumaNodeId, Bytes) omap"

definition default_distance :: "NumaNodeId \<Rightarrow> NumaNodeId \<Rightarrow> LocalityCost" where
  "default_distance a b = Quantity (if a = b then 0 else 100)"

definition empty_model :: PlacementModel where
  "empty_model = \<lparr>pm_accelerator_locality = om_empty, pm_node_capacity = om_empty, pm_node_free = om_empty,
     pm_distance = default_distance, pm_policy_weight = om_empty, pm_reserved_capacity = om_empty\<rparr>"

record PlacementDecision =
  pd_kind :: PlacementDecisionKind
  pd_selected_node :: NumaNodeId
  pd_eligible_alternatives :: "NumaNodeId list"
  pd_eliminated_candidates :: "string list"
  pd_binding_constraint :: string
  pd_expected_penalty :: LocalityCost
  pd_expected_locality_class :: LocalityClass
  pd_provenance :: Provenance
  pd_policy_generation :: PolicyGeneration
  pd_placement_id :: PlacementId
  pd_placement_generation :: PlacementGeneration
  pd_ranked_candidates :: "CandidateCost list"
  pd_reason :: string
  pd_would_change :: string

definition default_decision :: PlacementDecision where
  "default_decision = \<lparr>pd_kind = PD_Reject, pd_selected_node = invalid_id, pd_eligible_alternatives = [],
     pd_eliminated_candidates = [], pd_binding_constraint = '''', pd_expected_penalty = qty_zero,
     pd_expected_locality_class = LC_Unknown, pd_provenance = prov_unknown, pd_policy_generation = gen_invalid,
     pd_placement_id = invalid_id, pd_placement_generation = gen_invalid, pd_ranked_candidates = [],
     pd_reason = '''', pd_would_change = ''''\<rparr>"

definition is_placement :: "PlacementDecision \<Rightarrow> bool" where
  "is_placement d \<longleftrightarrow> pd_kind d = PD_Place \<or> pd_kind d = PD_PlaceWithPenalty"

section \<open>Cost components\<close>

text \<open>The part of \<open>compute_component\<close> for the capacity headroom of a node.\<close>

definition capacity_cost :: "u64 \<Rightarrow> u64 \<Rightarrow> LocalityCost" where
  "capacity_cost free_bytes need =
     (if free_bytes = 0 then Quantity 500
      else if need = 0 then qty_zero
      else let ratio = dbl_div (double_of_u64 free_bytes) (double_of_u64 need) in
           if ratio \<ge> 2 then qty_zero
           else if ratio < 1 then Quantity 400
           else Quantity (u64_of_double (dbl_mul (dbl_sub 2 ratio) 200)))"

definition compute_component :: "string \<Rightarrow> NumaNodeId \<Rightarrow> PlacementRequest \<Rightarrow> PlacementModel \<Rightarrow> LocalityCost" where
  "compute_component name node req model =
     (if name = ''preference'' then
        (if \<not> id_valid (pq_preferred_node req) then qty_zero
         else Quantity (if pq_preferred_node req = node then 0 else 1))
      else if name = ''memory_local'' then
        (if \<not> id_valid (pq_memory_owner_node req) then qty_zero
         else Quantity (qty_value (pm_distance model (pq_memory_owner_node req) node)
                        + (if pq_memory_owner_node req = node then 0 else 100)))
      else if name = ''accelerator_local'' then
        (if \<not> id_valid (pq_preferred_accelerator req) then qty_zero
         else case om_find (pm_accelerator_locality model) (pq_preferred_accelerator req) of
           None \<Rightarrow> qty_zero
         | Some loc \<Rightarrow> if \<not> id_valid (al_local_node loc) then Quantity 50
                       else if al_local_node loc = node then qty_zero else Quantity 200)
      else if name = ''distance'' then
        (if \<not> id_valid (pq_current_node req) then qty_zero else pm_distance model (pq_current_node req) node)
      else if name = ''io_local'' then
        (if \<not> id_valid (pq_io_node req) then qty_zero else pm_distance model (pq_io_node req) node)
      else if name = ''capacity'' then
        (case om_find (pm_node_free model) node of
           None \<Rightarrow> qty_zero
         | Some free \<Rightarrow> capacity_cost (qty_value free) (qty_value (pq_memory_footprint req)))
      else if name = ''migration'' then
        (if \<not> pq_worker_already_bound req then qty_zero
         else if pq_current_node req = node \<or> \<not> id_valid (pq_current_node req) then qty_zero
         else Quantity 150)
      else qty_zero)"

section \<open>Hard constraints\<close>

definition node_limit :: "(NumaNodeId, ('t, u64) Quantity) omap \<Rightarrow> NumaNodeId \<Rightarrow> u64" where
  "node_limit m n = (case om_find m n of Some q \<Rightarrow> qty_value q | None \<Rightarrow> 0)"

text \<open>The first violated constraint; \<open>None\<close> when the node is eligible.\<close>

definition violation :: "NumaNode \<Rightarrow> PlacementRequest \<Rightarrow> PlacementModel \<Rightarrow> string option" where
  "violation node req model =
     (let nid = nn_id node; loc = om_find (pm_accelerator_locality model) (pq_preferred_accelerator req) in
      if pq_has_required_node req \<and> nid \<noteq> pq_required_node req then Some ''required_node''
      else if pq_require_accelerator_locality req \<and> id_valid (pq_preferred_accelerator req)
              \<and> (case loc of None \<Rightarrow> True | Some l \<Rightarrow> \<not> id_valid (al_local_node l))
      then Some ''accelerator_locality_unknown''
      else if pq_require_accelerator_locality req \<and> id_valid (pq_preferred_accelerator req)
              \<and> (case loc of None \<Rightarrow> False | Some l \<Rightarrow> al_local_node l \<noteq> nid)
      then Some ''accelerator_locality''
      else if pq_required_cpu_count req > 0 \<and> length (nn_processors node) < unat (pq_required_cpu_count req)
      then Some ''required_cpu_count''
      else let cap = node_limit (pm_node_capacity model) nid;
               need = qty_value (pq_memory_footprint req) + node_limit (pm_reserved_capacity model) nid in
           if cap \<noteq> 0 \<and> need > cap then Some ''capacity'' else None)"

definition evaluate_eligibility :: "NumaNode \<Rightarrow> PlacementRequest \<Rightarrow> PlacementModel \<Rightarrow> CandidateCost \<times> bool" where
  "evaluate_eligibility node req model =
     (let cost = \<lparr>cc_node = nn_id node, cc_eligible = True, cc_components = om_empty, cc_total = qty_zero, cc_violations = [],
                  cc_processor_count = of_nat (length (nn_processors node))\<rparr> in
      case violation node req model of
        None \<Rightarrow> (cost, True)
      | Some v \<Rightarrow> (cost\<lparr>cc_eligible := False, cc_violations := [v]\<rparr>, False))"

definition classify_locality :: "NumaNodeId \<Rightarrow> PlacementRequest \<Rightarrow> PlacementModel \<Rightarrow> LocalityClass" where
  "classify_locality node req model =
     (case (if id_valid (pq_preferred_accelerator req)
            then om_find (pm_accelerator_locality model) (pq_preferred_accelerator req) else None) of
        Some loc \<Rightarrow>
          if al_locality loc = LC_Unknown then LC_Unknown
          else if al_locality loc = LC_Synthetic then LC_Synthetic
          else if id_valid (al_local_node loc) \<and> al_local_node loc = node then LC_SameNumaNode
          else LC_SameHostRemoteNuma
      | None \<Rightarrow> if id_valid (pq_memory_owner_node req) \<and> pq_memory_owner_node req = node then LC_SameNumaNode
                else LC_SameHostRemoteNuma)"

section \<open>The plan\<close>

definition component_names :: "string list" where
  "component_names = [''preference'', ''memory_local'', ''accelerator_local'', ''distance'', ''io_local'', ''capacity'', ''migration'']"

definition weight :: "PlacementModel \<Rightarrow> string \<Rightarrow> rat" where
  "weight model name = (case om_find (pm_policy_weight model) name of
     Some w \<Rightarrow> w | None \<Rightarrow> if name = ''preference'' then 100 else 1)"

definition component_value :: "(string, LocalityCost) omap \<Rightarrow> string \<Rightarrow> u64" where
  "component_value comps name = (case om_find comps name of Some q \<Rightarrow> qty_value q | None \<Rightarrow> 0)"

definition weighted :: "PlacementModel \<Rightarrow> (string, LocalityCost) omap \<Rightarrow> string \<Rightarrow> rat" where
  "weighted model comps name = dbl_mul (double_of_u64 (component_value comps name)) (weight model name)"

definition weighted_total :: "PlacementModel \<Rightarrow> (string, LocalityCost) omap \<Rightarrow> rat" where
  "weighted_total model comps =
     fold (\<lambda>name acc. dbl_add acc (weighted model comps name)) (tl component_names) (weighted model comps (hd component_names))"

definition score :: "PlacementRequest \<Rightarrow> PlacementModel \<Rightarrow> CandidateCost \<Rightarrow> CandidateCost" where
  "score req model cost =
     (let comps = fold (\<lambda>name m. om_insert name (compute_component name (cc_node cost) req model) m)
                    component_names (cc_components cost)
      in cost\<lparr>cc_components := comps, cc_total := Quantity (u64_of_double (weighted_total model comps))\<rparr>)"

fun scan_nodes :: "PlacementRequest \<Rightarrow> PlacementModel \<Rightarrow> NumaNode list \<Rightarrow> CandidateCost list \<times> string list" where
  "scan_nodes req model [] = ([], [])"
| "scan_nodes req model (node # nodes) =
     (let (cost, ok) = evaluate_eligibility node req model; (eligible, eliminated) = scan_nodes req model nodes in
      if ok then (score req model cost # eligible, eliminated)
      else (eligible, (''node '' @ std_to_string (id_value (nn_id node)) @ '': '' @ hd (cc_violations cost)) # eliminated))"

definition rank :: "CandidateCost list \<Rightarrow> CandidateCost list" where
  "rank cs = sort_key (\<lambda>c. (qty_value (cc_total c), cc_node c)) cs"

definition ideal_node :: "PlacementRequest \<Rightarrow> PlacementModel \<Rightarrow> NumaNodeId \<Rightarrow> NumaNodeId" where
  "ideal_node req model best =
     (let i = pq_preferred_node req;
          i = (if \<not> id_valid i \<and> id_valid (pq_preferred_accelerator req)
               then case om_find (pm_accelerator_locality model) (pq_preferred_accelerator req) of
                      Some l \<Rightarrow> if id_valid (al_local_node l) then al_local_node l else i
                    | None \<Rightarrow> i
               else i);
          i = (if id_valid i then i else pq_memory_owner_node req)
      in if id_valid i then i else best)"

definition engine_provenance :: Provenance where
  "engine_provenance = prov_derived ''placement engine''"

definition no_candidate :: "PlacementRequest \<Rightarrow> string list \<Rightarrow> PlacementDecision \<Rightarrow> PlacementDecision" where
  "no_candidate req eliminated d =
     (let d = (if pq_has_required_node req
               then d\<lparr>pd_kind := PD_Reject, pd_binding_constraint := ''required_node'',
                      pd_reason := ''required node cannot satisfy the placement constraints'',
                      pd_would_change := ''relax the required-node constraint''\<rparr>
               else if eliminated \<noteq> [] \<and> str_contains ''capacity'' (hd eliminated)
               then d\<lparr>pd_kind := PD_Defer, pd_binding_constraint := ''capacity'',
                      pd_reason := ''no node has enough free capacity for the memory footprint'',
                      pd_would_change := ''free capacity or reduce the memory footprint''\<rparr>
               else d\<lparr>pd_kind := PD_Reject, pd_binding_constraint := (if eliminated = [] then ''none'' else hd eliminated),
                      pd_reason := ''no eligible node'', pd_would_change := ''relax the placement constraints''\<rparr>)
      in d\<lparr>pd_provenance := engine_provenance\<rparr>)"

definition binding_of :: "PlacementRequest \<Rightarrow> string list \<Rightarrow> string" where
  "binding_of req eliminated =
     (if pq_has_required_node req then ''required_node''
      else if pq_require_accelerator_locality req then ''accelerator_locality''
      else if pq_required_cpu_count req > 0 then ''required_cpu_count''
      else if list_ex (str_contains ''capacity'') eliminated then ''capacity''
      else ''none'')"

definition would_change_of :: "string \<Rightarrow> string" where
  "would_change_of b =
     (if b = ''required_node'' then ''relax required-node''
      else if b = ''accelerator_locality'' then ''re-derive accelerator locality''
      else if b = ''required_cpu_count'' then ''raise eligible CPU count''
      else if b = ''capacity'' then ''free node capacity''
      else ''topology/policy change'')"

definition refuse :: "string \<Rightarrow> string \<Rightarrow> string \<Rightarrow> LocalityClass \<Rightarrow> PlacementDecision \<Rightarrow> PlacementDecision" where
  "refuse constraint reason change cls d =
     d\<lparr>pd_kind := PD_Reject, pd_binding_constraint := constraint, pd_reason := reason, pd_would_change := change,
       pd_provenance := engine_provenance, pd_expected_locality_class := cls\<rparr>"

definition placed_kind :: "PlacementRequest \<Rightarrow> NumaNodeId \<Rightarrow> NumaNodeId \<Rightarrow> PlacementDecisionKind" where
  "placed_kind req best ideal =
     (if best = ideal
      then if pq_worker_already_bound req \<and> best \<noteq> pq_current_node req
           then if qty_value (pq_memory_footprint req) > 0 then PD_Migrate else PD_Rebind
           else PD_Place
      else if pq_worker_already_bound req \<and> qty_value (pq_memory_footprint req) > 0 then PD_Migrate
      else if pq_worker_already_bound req then PD_Rebind else PD_PlaceWithPenalty)"

definition accept :: "HostTopology \<Rightarrow> PlacementRequest \<Rightarrow> string list \<Rightarrow> LocalityClass \<Rightarrow> NumaNodeId \<Rightarrow> NumaNodeId \<Rightarrow>
    PlacementDecision \<Rightarrow> PlacementDecision" where
  "accept topo req eliminated cls best ideal d =
     (let b = binding_of req eliminated in
      d\<lparr>pd_kind := placed_kind req best ideal,
        pd_expected_penalty := (if best = ideal then qty_zero else pd_expected_penalty d),
        pd_binding_constraint := b, pd_would_change := would_change_of b, pd_expected_locality_class := cls,
        pd_provenance := (if prov_source (ht_provenance topo) = PS_Synthetic then prov_synthetic ''placement engine''
                          else engine_provenance)\<rparr>)"

definition choose_candidate :: "HostTopology \<Rightarrow> PlacementRequest \<Rightarrow> PlacementModel \<Rightarrow> CandidateCost list \<Rightarrow> string list \<Rightarrow>
    PlacementDecision \<Rightarrow> PlacementDecision" where
  "choose_candidate topo req model eligible eliminated d =
     (let best = hd eligible; node = cc_node best; ideal = ideal_node req model node;
          ideal_cost = (case List.find (\<lambda>c. cc_node c = ideal) eligible of Some c \<Rightarrow> qty_value (cc_total c) | None \<Rightarrow> 0);
          penalty = (if qty_value (cc_total best) > ideal_cost then Quantity (qty_value (cc_total best) - ideal_cost) else qty_zero);
          cls = classify_locality node req model;
          d = d\<lparr>pd_selected_node := node, pd_eligible_alternatives := filter (\<lambda>n. n \<noteq> node) (map cc_node eligible),
                pd_expected_penalty := penalty\<rparr>
      in if (pq_has_required_node req \<or> pq_require_accelerator_locality req) \<and> node \<noteq> ideal
         then refuse ''required_node_or_accelerator_locality'' ''hard locality preference not met by the best eligible node''
                ''relax the hard locality requirement'' cls d
         else if node \<noteq> ideal \<and> \<not> pq_allow_fallback req
         then refuse ''preferred_node'' ''fallback disabled and preferred node not the best candidate'' ''enable fallback'' cls d
         else accept topo req eliminated cls node ideal d)"

definition plan :: "HostTopology \<Rightarrow> PlacementRequest \<Rightarrow> PlacementModel \<Rightarrow> PlacementDecision" where
  "plan topo req model =
     (let d = default_decision\<lparr>pd_policy_generation := pq_policy_generation req\<rparr> in
      if pq_revalidation_pending req
      then d\<lparr>pd_kind := PD_RevalidationRequired, pd_reason := ''topology/locality evidence is stale or not revalidated'',
             pd_would_change := ''revalidate physical topology before placing'', pd_provenance := engine_provenance\<rparr>
      else let (found, eliminated) = scan_nodes req model (ht_nodes topo);
               eligible = rank found;
               d = d\<lparr>pd_ranked_candidates := eligible, pd_eliminated_candidates := eliminated\<rparr>
           in if eligible = [] then no_candidate req eliminated d else choose_candidate topo req model eligible eliminated d)"

section \<open>Candidates\<close>

definition eligible_node :: "PlacementRequest \<Rightarrow> PlacementModel \<Rightarrow> NumaNode \<Rightarrow> bool" where
  "eligible_node req model node \<longleftrightarrow> violation node req model = None"

text \<open>The candidate that an eligible node becomes, and its position in the ranking.\<close>

definition candidate :: "PlacementRequest \<Rightarrow> PlacementModel \<Rightarrow> NumaNode \<Rightarrow> CandidateCost" where
  "candidate req model node = score req model (fst (evaluate_eligibility node req model))"

definition node_rank :: "PlacementRequest \<Rightarrow> PlacementModel \<Rightarrow> NumaNode \<Rightarrow> u64 \<times> NumaNodeId" where
  "node_rank req model node = (qty_value (cc_total (candidate req model node)), nn_id node)"

lemma candidate_node [simp]: "cc_node (candidate req model node) = nn_id node"
  by (simp add: candidate_def score_def evaluate_eligibility_def Let_def split: option.splits)

lemma scan_nodes_eligible:
  "fst (scan_nodes req model nodes) = map (candidate req model) (filter (eligible_node req model) nodes)"
  by (induction nodes) (auto simp: evaluate_eligibility_def eligible_node_def candidate_def Let_def split: option.splits prod.splits)

definition eliminated_text :: "PlacementRequest \<Rightarrow> PlacementModel \<Rightarrow> NumaNode \<Rightarrow> string" where
  "eliminated_text req model node = ''node '' @ std_to_string (id_value (nn_id node)) @ '': '' @ the (violation node req model)"

lemma scan_nodes_eliminated:
  "snd (scan_nodes req model nodes) = map (eliminated_text req model) (filter (\<lambda>n. \<not> eligible_node req model n) nodes)"
  by (induction nodes) (auto simp: evaluate_eligibility_def eligible_node_def eliminated_text_def Let_def split: option.splits prod.splits)

definition ranked :: "PlacementRequest \<Rightarrow> PlacementModel \<Rightarrow> NumaNode list \<Rightarrow> CandidateCost list" where
  "ranked req model nodes = rank (map (candidate req model) (filter (eligible_node req model) nodes))"

lemma set_ranked: "set (ranked req model nodes) = candidate req model ` {n \<in> set nodes. eligible_node req model n}"
  by (auto simp: ranked_def rank_def)

lemma ranked_Nil_iff: "ranked req model nodes = [] \<longleftrightarrow> (\<forall>n\<in>set nodes. \<not> eligible_node req model n)"
proof -
  have "ranked req model nodes = [] \<longleftrightarrow> set (ranked req model nodes) = {}" by simp
  then show ?thesis unfolding set_ranked by auto
qed

lemma ranked_head_least:
  assumes "ranked req model nodes = c # cs" and "c' \<in> set (ranked req model nodes)"
  shows "(qty_value (cc_total c), cc_node c) \<le> (qty_value (cc_total c'), cc_node c')"
proof -
  let ?k = "\<lambda>c. (qty_value (cc_total c), cc_node c)"
  have "sorted (map ?k (ranked req model nodes))" by (simp add: ranked_def rank_def)
  with assms show ?thesis by auto
qed

lemma plan_unfold:
  assumes "\<not> pq_revalidation_pending req"
  shows "plan topo req model =
    (let eligible = ranked req model (ht_nodes topo);
         eliminated = map (eliminated_text req model) (filter (\<lambda>n. \<not> eligible_node req model n) (ht_nodes topo));
         d = default_decision\<lparr>pd_policy_generation := pq_policy_generation req, pd_ranked_candidates := eligible,
               pd_eliminated_candidates := eliminated\<rparr>
     in if eligible = [] then no_candidate req eliminated d else choose_candidate topo req model eligible eliminated d)"
  using assms by (simp add: plan_def split_beta scan_nodes_eligible scan_nodes_eliminated Let_def flip: ranked_def)

definition carries_work :: "PlacementDecisionKind \<Rightarrow> bool" where
  "carries_work k \<longleftrightarrow> k \<in> {PD_Place, PD_PlaceWithPenalty, PD_Rebind, PD_Migrate}"

lemma plan_carries:
  assumes "carries_work (pd_kind (plan topo req model))"
  shows "\<not> pq_revalidation_pending req" and "ranked req model (ht_nodes topo) \<noteq> []"
    and "pd_selected_node (plan topo req model) = cc_node (hd (ranked req model (ht_nodes topo)))"
proof -
  show p: "\<not> pq_revalidation_pending req"
    using assms by (auto simp: plan_def carries_work_def Let_def)
  show ne: "ranked req model (ht_nodes topo) \<noteq> []"
    using assms by (auto simp: plan_unfold [OF p] Let_def no_candidate_def carries_work_def split: if_splits)
  then show "pd_selected_node (plan topo req model) = cc_node (hd (ranked req model (ht_nodes topo)))"
    by (simp add: plan_unfold [OF p] Let_def choose_candidate_def refuse_def accept_def)
qed

lemma plan_carries_eligible:
  assumes "carries_work (pd_kind (plan topo req model))"
  obtains n where "n \<in> set (ht_nodes topo)" and "eligible_node req model n" and "pd_selected_node (plan topo req model) = nn_id n"
    and "hd (ranked req model (ht_nodes topo)) = candidate req model n"
proof -
  note p = plan_carries [OF assms]
  have "hd (ranked req model (ht_nodes topo)) \<in> set (ranked req model (ht_nodes topo))" using p(2) by simp
  then obtain n where "n \<in> set (ht_nodes topo)" "eligible_node req model n" "hd (ranked req model (ht_nodes topo)) = candidate req model n"
    by (auto simp: set_ranked)
  then show ?thesis using p(3) by (intro that [of n]) simp_all
qed

section \<open>The decision is optimal and respects the constraints\<close>

text \<open>
  C23. A decision that carries work (place, rebind or migrate) is never made on stale
  evidence; it names a node of the topology that violates no hard constraint, and no other
  eligible node has a lower cost, or the same cost and a lower identifier.
\<close>

theorem plan_selects_best_node:
  assumes "carries_work (pd_kind (plan topo req model))"
  shows "\<not> pq_revalidation_pending req
    \<and> (\<exists>n\<in>set (ht_nodes topo). pd_selected_node (plan topo req model) = nn_id n \<and> eligible_node req model n
         \<and> (\<forall>n'\<in>set (ht_nodes topo). eligible_node req model n' \<longrightarrow> node_rank req model n \<le> node_rank req model n'))"
proof -
  note p = plan_carries [OF assms]
  obtain n where n: "n \<in> set (ht_nodes topo)" "eligible_node req model n" "pd_selected_node (plan topo req model) = nn_id n"
    "hd (ranked req model (ht_nodes topo)) = candidate req model n"
    by (rule plan_carries_eligible [OF assms])
  with p(2) obtain cs where r: "ranked req model (ht_nodes topo) = candidate req model n # cs"
    by (cases "ranked req model (ht_nodes topo)") auto
  have "node_rank req model n \<le> node_rank req model n'" if "n' \<in> set (ht_nodes topo)" "eligible_node req model n'" for n'
    using ranked_head_least [OF r, of "candidate req model n'"] that by (simp add: set_ranked node_rank_def)
  with p n show ?thesis by auto
qed

lemma eligible_constraints:
  assumes "eligible_node req model n"
  shows "pq_has_required_node req \<Longrightarrow> nn_id n = pq_required_node req"
    and "pq_require_accelerator_locality req \<Longrightarrow> id_valid (pq_preferred_accelerator req) \<Longrightarrow>
      \<exists>l. om_find (pm_accelerator_locality model) (pq_preferred_accelerator req) = Some l \<and> al_local_node l = nn_id n"
    and "unat (pq_required_cpu_count req) \<le> length (nn_processors n)"
    and "node_limit (pm_node_capacity model) (nn_id n) \<noteq> 0 \<Longrightarrow>
      qty_value (pq_memory_footprint req) + node_limit (pm_reserved_capacity model) (nn_id n) \<le> node_limit (pm_node_capacity model) (nn_id n)"
proof -
  note e = assms [unfolded eligible_node_def violation_def Let_def]
  show "pq_has_required_node req \<Longrightarrow> nn_id n = pq_required_node req" using e by (auto split: if_splits)
  show "\<exists>l. om_find (pm_accelerator_locality model) (pq_preferred_accelerator req) = Some l \<and> al_local_node l = nn_id n"
    if "pq_require_accelerator_locality req" "id_valid (pq_preferred_accelerator req)"
    using e that by (auto split: if_splits option.splits)
  show "unat (pq_required_cpu_count req) \<le> length (nn_processors n)"
    using e by (auto simp: not_less split: if_splits)
  show "qty_value (pq_memory_footprint req) + node_limit (pm_reserved_capacity model) (nn_id n) \<le> node_limit (pm_node_capacity model) (nn_id n)"
    if "node_limit (pm_node_capacity model) (nn_id n) \<noteq> 0"
    using e that by (auto simp: not_less split: if_splits)
qed


section \<open>Independence of the order of the nodes\<close>

lemma sort_key_mset_inj:
  assumes "mset xs = mset ys" and "inj_on f (set xs)"
  shows "sort_key f xs = sort_key f ys"
proof (rule properties_for_sort_key)
  show "mset (sort_key f ys) = mset xs" by (simp add: assms(1))
  have s: "set xs = set ys" using assms(1) by (metis set_mset_mset)
  show "filter (\<lambda>x. f k = f x) (sort_key f ys) = filter (\<lambda>x. f k = f x) xs" if "k \<in> set (sort_key f ys)" for k
  proof -
    have all: "x = k" if "x \<in> set (filter (\<lambda>x. f k = f x) zs)" "set zs = set xs" for x zs
      using that \<open>k \<in> set (sort_key f ys)\<close> assms(2) s by (auto dest: inj_onD)
    have "filter (\<lambda>x. f k = f x) zs = replicate (count (mset zs) k) k" if "set zs = set xs" for zs
    proof -
      have "filter (\<lambda>x. f k = f x) zs = filter (\<lambda>x. k = x) zs" using all that by (intro filter_cong) auto
      then show ?thesis using replicate_length_filter [of k zs] by (simp add: count_mset count_list_eq_length_filter)
    qed
    then show ?thesis using s assms(1) by simp
  qed
  show "sorted (map f (sort_key f ys))" by simp
qed

lemma ranked_order:
  assumes "mset nodes = mset nodes'" and "distinct (map nn_id nodes)"
  shows "ranked req model nodes = ranked req model nodes'"
  unfolding ranked_def rank_def
proof (rule sort_key_mset_inj)
  show "mset (map (candidate req model) (filter (eligible_node req model) nodes))
      = mset (map (candidate req model) (filter (eligible_node req model) nodes'))"
    by (simp add: assms(1) mset_filter)
  show "inj_on (\<lambda>c. (qty_value (cc_total c), cc_node c)) (set (map (candidate req model) (filter (eligible_node req model) nodes)))"
    using assms(2) by (auto simp: inj_on_def distinct_map)
qed


section \<open>Costs are exact for the default weights\<close>

definition raw_cost :: "PlacementRequest \<Rightarrow> PlacementModel \<Rightarrow> NumaNodeId \<Rightarrow> string \<Rightarrow> nat" where
  "raw_cost req model node name = (if name = ''preference'' then 100 else 1) * unat (qty_value (compute_component name node req model))"

lemma om_find_fold_insert:
  "om_find (fold (\<lambda>k m. om_insert k (f k) m) ks m) k = (if k \<in> set ks then Some (f k) else om_find m k)"
  by (induction ks arbitrary: m) auto

lemma fold_dbl_add_nat:
  assumes "a + sum_list (map g ns) < 2 ^ 53"
  shows "fold (\<lambda>n acc. dbl_add acc (of_nat (g n))) ns (of_nat a) = of_nat (a + sum_list (map g ns))"
  using assms
proof (induction ns arbitrary: a)
  case (Cons n ns)
  then have "dbl_add (of_nat a) (of_nat (g n)) = of_nat (a + g n)" by (intro dbl_add_nat) simp
  with Cons.IH [of "a + g n"] Cons.prems show ?case by (simp add: add.assoc del: of_nat_add)
qed simp

lemma dbl_mul_weight: "c * n < 2 ^ 53 \<Longrightarrow> dbl_mul (of_nat n) (of_nat c) = of_nat (c * n)"
  using dbl_mul_nat [of n c] by (simp add: mult.commute)

text \<open>
  C36. With the default weights the cost of a node is exact although it is computed in
  \<open>double\<close>: as long as the weighted sum of the components is below \<open>2 ^ 53\<close>, the total is
  that sum, a hundred times the preference and once every other component.
\<close>

theorem total_cost_exact:
  assumes "pm_policy_weight model = om_empty"
    and "sum_list (map (raw_cost req model (nn_id node)) component_names) < 2 ^ 53"
  shows "unat (qty_value (cc_total (candidate req model node))) = sum_list (map (raw_cost req model (nn_id node)) component_names)"
proof -
  let ?f = "\<lambda>name. compute_component name (nn_id node) req model"
  let ?comps = "fold (\<lambda>name m. om_insert name (?f name) m) component_names om_empty" and ?g = "raw_cost req model (nn_id node)"
  have w: "weighted model ?comps name = of_nat (?g name)" if "name \<in> set component_names" for name
  proof -
    have small: "?g name < 2 ^ 53" using member_le_sum_list [of "?g name" "map ?g component_names"] that assms(2) by simp
    then have "unat (qty_value (?f name)) < 2 ^ 53" by (simp add: raw_cost_def split: if_splits)
    then have "double_of_u64 (component_value ?comps name) = of_nat (unat (qty_value (?f name)))"
      using that by (simp add: component_value_def om_find_fold_insert double_of_u64_exact)
    then show ?thesis
      using dbl_mul_weight [of 100 "unat (qty_value (?f name))"] dbl_mul_weight [of 1 "unat (qty_value (?f name))"] small
      by (simp add: weighted_def weight_def assms(1) raw_cost_def split: if_splits)
  qed
  obtain h ns where names: "component_names = h # ns" by (simp add: component_names_def)
  have parts: "hd component_names = h" "tl component_names = ns" by (simp_all add: names)
  have mem: "h \<in> set component_names" "\<And>x. x \<in> set ns \<Longrightarrow> x \<in> set component_names" by (simp_all add: names)
  have "fold (\<lambda>name acc. dbl_add acc (weighted model ?comps name)) ns (weighted model ?comps h)
      = fold (\<lambda>name acc. dbl_add acc (of_nat (?g name))) ns (of_nat (?g h))"
    by (rule fold_cong) (simp_all add: fun_eq_iff w mem)
  then have "weighted_total model ?comps = fold (\<lambda>name acc. dbl_add acc (of_nat (?g name))) ns (of_nat (?g h))"
    by (simp add: weighted_total_def parts)
  also have "\<dots> = of_nat (?g h + sum_list (map ?g ns))"
    by (rule fold_dbl_add_nat) (use assms(2) in \<open>simp add: names\<close>)
  also have "?g h + sum_list (map ?g ns) = sum_list (map ?g component_names)" by (simp add: names)
  finally have "weighted_total model ?comps = of_nat (sum_list (map ?g component_names))" .
  moreover have "cc_total (candidate req model node) = Quantity (u64_of_double (weighted_total model ?comps))"
    by (simp add: candidate_def score_def evaluate_eligibility_def Let_def split: option.splits)
  ultimately show ?thesis
    using assms(2) by (simp add: u64_of_double_nat unsigned_of_nat take_bit_eq_mod)
qed

section \<open>A plan for two nodes\<close>

definition sample_model :: PlacementModel where
  "sample_model = empty_model\<lparr>pm_node_capacity := om_insert (Id 1) (Quantity 4096) (om_insert (Id 2) (Quantity 4096) om_empty),
     pm_node_free := om_insert (Id 1) (Quantity 4096) (om_insert (Id 2) (Quantity 4096) om_empty)\<rparr>"

definition sample_placement :: PlacementRequest where
  "sample_placement = default_request\<lparr>pq_memory_footprint := Quantity 3072, pq_preferred_node := Id 2\<rparr>"

lemma sample_plan:
  "pd_kind (plan sample_host sample_placement sample_model) = PD_Place"
  "pd_selected_node (plan sample_host sample_placement sample_model) = Id 2"
  by code_simp+

lemma sample_plan_carries: "carries_work (pd_kind (plan sample_host sample_placement sample_model))"
  by (simp add: sample_plan carries_work_def)

lemma sample_node_ids: "n \<in> set (ht_nodes sample_host) \<Longrightarrow> nn_id n = Id 2 \<Longrightarrow> n = sample_node 2"
  by (auto simp: sample_host_def sample_node_def)

theorem plan_selects_best_node_witness:
  "node_rank sample_placement sample_model (sample_node 2) \<le> node_rank sample_placement sample_model (sample_node 1)"
proof -
  have "eligible_node sample_placement sample_model (sample_node 1)" by code_simp
  moreover have "sample_node 1 \<in> set (ht_nodes sample_host)" by (simp add: sample_host_def)
  ultimately show ?thesis
    using plan_selects_best_node [OF sample_plan_carries] sample_node_ids unfolding sample_plan by metis
qed



theorem total_cost_exact_witness:
  "unat (qty_value (cc_total (candidate sample_placement sample_model (sample_node 1)))) = 233"
proof -
  have c: "map (raw_cost sample_placement sample_model (Id 1)) component_names = [100, 0, 0, 0, 0, 133, 0]" by code_simp
  have "pm_policy_weight sample_model = om_empty" by (simp add: sample_model_def empty_model_def)
  moreover have "nn_id (sample_node 1) = Id 1" by (simp add: sample_node_def)
  ultimately show ?thesis using total_cost_exact [of sample_model sample_placement "sample_node 1"] c by simp
qed

section \<open>Where the code departs from its contract\<close>

text \<open>
  A required node is rejected because of a mere preference: when the request names a
  required node and its working set lives on another node, with no preferred node and no
  accelerator, no topology and no model lead to a placement, although the required node
  may satisfy every hard constraint.
\<close>

theorem required_node_rejected_for_remote_memory:
  assumes "pq_has_required_node req" and "id_valid (pq_memory_owner_node req)"
    and "pq_memory_owner_node req \<noteq> pq_required_node req"
    and "\<not> id_valid (pq_preferred_node req)" and "\<not> id_valid (pq_preferred_accelerator req)"
  shows "\<not> carries_work (pd_kind (plan topo req model))"
proof
  assume c: "carries_work (pd_kind (plan topo req model))"
  note p = plan_carries [OF c]
  obtain n where "hd (ranked req model (ht_nodes topo)) = candidate req model n" "eligible_node req model n"
    by (rule plan_carries_eligible [OF c])
  then have "cc_node (hd (ranked req model (ht_nodes topo))) = pq_required_node req"
    using eligible_constraints(1) [of req model n] assms(1) by simp
  with c assms p(2) show False
    by (simp add: plan_unfold [OF p(1)] Let_def choose_candidate_def ideal_node_def refuse_def carries_work_def)
qed

theorem required_node_rejected_for_remote_memory_witness:
  "\<exists>req. pq_required_node req = Id 2 \<and> eligible_node req sample_model (sample_node 2)
     \<and> \<not> carries_work (pd_kind (plan sample_host req sample_model))"
proof -
  let ?req = "default_request\<lparr>pq_has_required_node := True, pq_required_node := Id 2, pq_memory_owner_node := Id 1\<rparr>"
  have "eligible_node ?req sample_model (sample_node 2)" by code_simp
  then show ?thesis
    using required_node_rejected_for_remote_memory [of ?req sample_host sample_model]
    by (intro exI [of _ ?req]) (simp add: default_request_def id_valid_def invalid_id_def)
qed

text \<open>
  The capacity check adds the footprint and the reserved bytes in 64-bit arithmetic: a
  footprint of \<open>2 ^ 64 - 1024\<close> bytes on a node of 4096 bytes with 2048 bytes reserved wraps
  around and is placed there.
\<close>

theorem placement_capacity_wraps:
  "pd_kind (plan sample_host (sample_placement\<lparr>pq_memory_footprint := Quantity (- 1024)\<rparr>)
     (sample_model\<lparr>pm_reserved_capacity := om_insert (Id 2) (Quantity 2048) om_empty\<rparr>)) = PD_Place"
  by code_simp

end
