(* ===== verification/Crc32.thy ===== *)
theory Crc32
  imports Wire
begin

text \<open>
  The table-driven CRC-32 of \<open>src/protocol_frame.cpp\<close> (reflected polynomial
  \<open>0xEDB88320\<close>), the bit-serial shift register it is an optimisation of, their
  equivalence, and what the checksum guarantees: two buffers of the same length that
  differ in exactly one byte never have the same checksum.
\<close>

section \<open>Definitions\<close>

definition crc_shift :: "u32 \<Rightarrow> u32" where
  "crc_shift c = (if c AND 1 \<noteq> 0 then 0xEDB88320 XOR drop_bit 1 c else drop_bit 1 c)"

definition crc_table :: "u32 list" where
  "crc_table = map (\<lambda>i. (crc_shift ^^ 8) (of_nat i)) [0..<256]"

definition crc_update :: "byte \<Rightarrow> u32 \<Rightarrow> u32" where
  "crc_update b crc = crc_table ! unat ((crc XOR ucast b) AND 0xFF) XOR drop_bit 8 crc"

definition crc32 :: "byte list \<Rightarrow> u32" where
  "crc32 data = fold crc_update data 0xFFFFFFFF XOR 0xFFFFFFFF"

text \<open>The reference: the byte enters the low end of the register, which is shifted eight times.\<close>

definition crc32_serial :: "byte list \<Rightarrow> u32" where
  "crc32_serial data = fold (\<lambda>b c. (crc_shift ^^ 8) (c XOR ucast b)) data 0xFFFFFFFF XOR 0xFFFFFFFF"

section \<open>The shift is linear and injective\<close>

lemma and_one_bit: "(c :: 'l::len word) AND 1 \<noteq> 0 \<longleftrightarrow> bit c 0"
  by (simp add: and_one_eq odd_iff_mod_2_eq_one [symmetric] bit_0)

lemma crc_shift_bit: "crc_shift c = (if bit c 0 then 0xEDB88320 XOR drop_bit 1 c else drop_bit 1 c)"
  by (simp only: crc_shift_def and_one_bit)

lemma crc_shift_xor: "crc_shift (a XOR b) = crc_shift a XOR crc_shift b"
  by (auto simp: crc_shift_bit bit_xor_iff drop_bit_xor xor.assoc xor.left_commute)

lemma crc_shifts_xor: "(crc_shift ^^ n) (a XOR b) = (crc_shift ^^ n) a XOR (crc_shift ^^ n) b"
  by (induction n) (auto simp: crc_shift_xor)

lemma crc_shift_top_bit: "bit (crc_shift c) 31 = bit c 0"
proof -
  have "\<not> bit (drop_bit 1 c) 31" by (auto simp: bit_drop_bit_eq dest: bit_imp_le_length)
  then show ?thesis by (auto simp: crc_shift_bit bit_xor_iff)
qed

lemma crc_shift_inj: "crc_shift a = crc_shift b \<Longrightarrow> a = b"
proof -
  assume eq: "crc_shift a = crc_shift b"
  then have low: "bit a 0 = bit b 0" using crc_shift_top_bit by metis
  with eq have "drop_bit 1 a = drop_bit 1 b" by (auto simp: crc_shift_bit xor_cancel_left split: if_splits)
  then have up: "bit a (Suc i) = bit b (Suc i)" for i by (metis bit_drop_bit_eq comp_apply plus_1_eq_Suc)
  show "a = b"
  proof (rule bit_word_eqI)
    show "bit a i = bit b i" for i using low up by (cases i) auto
  qed
qed

lemma crc_shifts_inj: "(crc_shift ^^ n) a = (crc_shift ^^ n) b \<Longrightarrow> a = b"
  by (induction n) (auto dest: crc_shift_inj)

lemma crc_shifts_low_zero: "(\<And>i. i < n \<Longrightarrow> \<not> bit c i) \<Longrightarrow> (crc_shift ^^ n) c = drop_bit n c"
proof (induction n)
  case (Suc n)
  then have "(crc_shift ^^ n) c = drop_bit n c" by simp
  moreover have "\<not> bit (drop_bit n c) 0" using Suc.prems [of n] by (simp add: bit_drop_bit_eq)
  ultimately show ?case by (simp add: crc_shift_bit [of "drop_bit n c"] drop_bit_drop_bit)
qed simp

section \<open>The table computes eight shifts\<close>

lemma unat_low_byte: "unat ((c :: u32) AND 0xFF) < 256"
proof -
  have "c AND 0xFF \<le> 0xFF" by (rule word_and_le1)
  then have "unat (c AND 0xFF) \<le> unat (0xFF :: u32)" by (rule word_le_nat_alt [THEN iffD1])
  then show ?thesis by simp
qed

lemma crc_table_nth: "crc_table ! unat ((c :: u32) AND 0xFF) = (crc_shift ^^ 8) (c AND 0xFF)"
  using unat_low_byte [of c] by (simp add: crc_table_def)

lemma crc_shifts_split: "(crc_shift ^^ 8) c = (crc_shift ^^ 8) (c AND 0xFF) XOR drop_bit 8 c"
proof -
  define hi where "hi = c AND NOT 0xFF"
  have hi_bit: "bit hi i \<longleftrightarrow> bit c i \<and> 8 \<le> i" for i
    unfolding hi_def bit_and_iff bit_not_iff bit_255_byte by (auto dest: bit_imp_le_length)
  have split: "c = (c AND 0xFF) XOR hi"
    by (rule bit_word_eqI) (auto simp only: bit_xor_iff hi_bit bit_and_iff bit_255_byte)
  have "(crc_shift ^^ 8) hi = drop_bit 8 hi" by (rule crc_shifts_low_zero) (simp add: hi_bit)
  also have "\<dots> = drop_bit 8 c" by (rule bit_word_eqI) (simp add: bit_drop_bit_eq hi_bit)
  finally have "(crc_shift ^^ 8) hi = drop_bit 8 c" .
  with split show ?thesis by (metis crc_shifts_xor)
qed

lemma crc_update_serial: "crc_update b c = (crc_shift ^^ 8) (c XOR ucast b)"
proof -
  have "drop_bit 8 (ucast b :: u32) = 0"
    by (rule bit_word_eqI) (auto simp: bit_drop_bit_eq bit_ucast_iff dest: bit_imp_le_length)
  then have "drop_bit 8 (c XOR ucast b) = drop_bit 8 c" by (simp add: drop_bit_xor)
  then show ?thesis by (simp only: crc_update_def crc_table_nth crc_shifts_split [of "c XOR ucast b"])
qed

text \<open>
  C40. The table-driven checksum of the frame and persistence codecs equals the bit-serial
  CRC-32 register on every buffer.
\<close>

theorem crc32_table_equals_serial: "crc32 data = crc32_serial data"
proof -
  have "crc_update = (\<lambda>b c. (crc_shift ^^ 8) (c XOR ucast b))"
    by (intro ext) (rule crc_update_serial)
  then show ?thesis by (simp add: crc32_def crc32_serial_def)
qed

section \<open>One changed byte is always detected\<close>

lemma crc_update_inj_state: "crc_update b c = crc_update b d \<Longrightarrow> c = d"
  unfolding crc_update_serial by (drule crc_shifts_inj) (simp add: xor_cancel_right)

lemma crc_update_inj_byte: "crc_update b c = crc_update b' c \<Longrightarrow> b = b'"
proof -
  assume "crc_update b c = crc_update b' c"
  then have "c XOR ucast b = c XOR (ucast b' :: u32)"
    unfolding crc_update_serial by (rule crc_shifts_inj)
  then have eq: "(ucast b :: u32) = ucast b'" by (simp only: xor_cancel_left)
  show "b = b'"
  proof (rule bit_word_eqI)
    fix i assume i: "i < LENGTH(8)"
    from eq have "bit (ucast b :: u32) i = bit (ucast b' :: u32) i" by (rule arg_cong)
    with i show "bit b i = bit b' i" by (simp add: bit_ucast_iff)
  qed
qed

lemma crc_fold_inj_state: "fold crc_update bs c = fold crc_update bs d \<Longrightarrow> c = d"
  by (induction bs arbitrary: c d) (auto dest: crc_update_inj_state)

lemma crc32_single_byte:
  assumes "i < length bs" and "bs ! i \<noteq> b"
  shows "crc32 (bs[i := b]) \<noteq> crc32 bs"
proof
  assume eq: "crc32 (bs[i := b]) = crc32 bs"
  define st where "st = fold crc_update (take i bs) 0xFFFFFFFF"
  have "fold crc_update (take i bs @ bs ! i # drop (Suc i) bs) 0xFFFFFFFF
      = fold crc_update (drop (Suc i) bs) (crc_update (bs ! i) st)"
    by (simp add: st_def)
  then have old: "fold crc_update bs 0xFFFFFFFF = fold crc_update (drop (Suc i) bs) (crc_update (bs ! i) st)"
    by (simp only: id_take_nth_drop [OF assms(1), symmetric])
  have "bs[i := b] = take i bs @ b # drop (Suc i) bs" using assms(1) by (rule upd_conv_take_nth_drop)
  then have new: "fold crc_update (bs[i := b]) 0xFFFFFFFF = fold crc_update (drop (Suc i) bs) (crc_update b st)"
    by (simp add: st_def)
  from eq have "fold crc_update (bs[i := b]) 0xFFFFFFFF = fold crc_update bs 0xFFFFFFFF"
    unfolding crc32_def xor_cancel_right .
  then have "crc_update b st = crc_update (bs ! i) st"
    using old new crc_fold_inj_state by metis
  with assms(2) show False using crc_update_inj_byte by blast
qed

end
