(* ===== verification/Protocol_Frame.thy ===== *)
theory Protocol_Frame
  imports Crc32
begin

text \<open>
  \<open>protocol/protocol_frame.hpp\<close> and \<open>src/protocol_frame.cpp\<close>: frames of magic, version,
  message type, payload length, checksum and payload, the encoder, and the stream decoder
  that buffers received bytes and pulls complete frames. \<open>decode_one\<close> keeps the order of
  the checks of the code. \<open>drain\<close> is the receive loop of the coordinator and the worker:
  pull frames from the buffer until none is complete. The theorems show that any way of
  splitting a stream of frames into received chunks delivers the same frames, and that a
  frame with one changed byte outside its length field is never delivered.
\<close>

section \<open>Constants and message types\<close>

definition kMagic :: "byte list" where
  "kMagic = [0x4E, 0x55, 0x4D, 0x41, 0x46, 0x52, 0x4D, 0x31]"

definition kProtocolVersion :: u16 where
  "kProtocolVersion = 1"

definition kFrameHeaderSize :: nat where
  "kFrameHeaderSize = 8 + 2 + 2 + 4 + 4"

definition kMaxPayloadLength :: nat where
  "kMaxPayloadLength = 2 ^ 24"

datatype MsgType =
    MT_Hello | MT_Register | MT_RegisterAck | MT_DiscoverRequest | MT_DiscoverReply
  | MT_PlacementRequest | MT_PlacementReply | MT_ReserveRequest | MT_ReserveReply
  | MT_ReleaseRequest | MT_ReleaseReply | MT_BindRequest | MT_BindReply
  | MT_MigrateRequest | MT_MigrateReply | MT_ObserveReport | MT_ObserveAck
  | MT_Ping | MT_Pong | MT_Shutdown | MT_WorkerLost | MT_RevalidateRequest
  | MT_RevalidateReply | MT_Error

fun msg_code :: "MsgType \<Rightarrow> u16" where
  "msg_code MT_Hello = 1"
| "msg_code MT_Register = 2"
| "msg_code MT_RegisterAck = 3"
| "msg_code MT_DiscoverRequest = 4"
| "msg_code MT_DiscoverReply = 5"
| "msg_code MT_PlacementRequest = 6"
| "msg_code MT_PlacementReply = 7"
| "msg_code MT_ReserveRequest = 8"
| "msg_code MT_ReserveReply = 9"
| "msg_code MT_ReleaseRequest = 10"
| "msg_code MT_ReleaseReply = 11"
| "msg_code MT_BindRequest = 12"
| "msg_code MT_BindReply = 13"
| "msg_code MT_MigrateRequest = 14"
| "msg_code MT_MigrateReply = 15"
| "msg_code MT_ObserveReport = 16"
| "msg_code MT_ObserveAck = 17"
| "msg_code MT_Ping = 18"
| "msg_code MT_Pong = 19"
| "msg_code MT_Shutdown = 20"
| "msg_code MT_WorkerLost = 21"
| "msg_code MT_RevalidateRequest = 22"
| "msg_code MT_RevalidateReply = 23"
| "msg_code MT_Error = 24"

definition all_msg_types :: "MsgType list" where
  "all_msg_types =
     [MT_Hello, MT_Register, MT_RegisterAck, MT_DiscoverRequest, MT_DiscoverReply,
      MT_PlacementRequest, MT_PlacementReply, MT_ReserveRequest, MT_ReserveReply,
      MT_ReleaseRequest, MT_ReleaseReply, MT_BindRequest, MT_BindReply,
      MT_MigrateRequest, MT_MigrateReply, MT_ObserveReport, MT_ObserveAck,
      MT_Ping, MT_Pong, MT_Shutdown, MT_WorkerLost, MT_RevalidateRequest,
      MT_RevalidateReply, MT_Error]"

definition msg_of_code :: "u16 \<Rightarrow> MsgType option" where
  "msg_of_code c = List.find (\<lambda>m. msg_code m = c) all_msg_types"

record Frame =
  frame_version :: u16
  frame_type :: u16
  frame_payload :: "byte list"

section \<open>Encoder and decoder\<close>

definition put_u16 :: "byte list \<Rightarrow> u16 \<Rightarrow> byte list" where
  "put_u16 v x = v @ le_bytes 2 x"

definition put_u32 :: "byte list \<Rightarrow> u32 \<Rightarrow> byte list" where
  "put_u32 v x = v @ le_bytes 4 x"

definition get_u16 :: "byte list \<Rightarrow> u16" where
  "get_u16 p = le_word 2 p"

definition get_u32 :: "byte list \<Rightarrow> u32" where
  "get_u32 p = le_word 4 p"

definition encode_frame :: "u16 \<Rightarrow> byte list \<Rightarrow> byte list result" where
  "encode_frame ty payload =
     (if length payload > kMaxPayloadLength then Inl (ProtocolError ''payload too large'')
      else let out = put_u32 (put_u16 (put_u16 kMagic kProtocolVersion) ty) (of_nat (length payload));
               crc = crc32 (out @ payload)
           in Inr (put_u32 out crc @ payload))"

definition decode_one :: "byte list \<Rightarrow> (Frame \<times> nat) option result" where
  "decode_one data =
     (if length data < kFrameHeaderSize then Inr None
      else if take 8 data \<noteq> kMagic then Inl (ProtocolError ''malformed magic'')
      else let version = get_u16 (drop 8 data) in
      if version \<noteq> kProtocolVersion then Inl (ProtocolError ''unsupported protocol version'')
      else let ty = get_u16 (drop 10 data); len = unat (get_u32 (drop 12 data)) in
      if len > kMaxPayloadLength then Inl (ProtocolError ''impossible payload length'')
      else let total = kFrameHeaderSize + len in
      if length data < total then Inr None
      else let payload = take len (drop kFrameHeaderSize data);
               expected_crc = get_u32 (drop 16 data);
               actual = crc32 (take 16 data @ payload) in
      if actual \<noteq> expected_crc then Inl (ProtocolError ''corrupted checksum'')
      else if msg_of_code ty = None then Inl (ProtocolError ''unknown message type'')
      else Inr (Some (\<lparr>frame_version = version, frame_type = ty, frame_payload = payload\<rparr>, total)))"

definition try_extract :: "byte list \<Rightarrow> (byte list, Frame option) outcome" where
  "try_extract buffer =
     (case decode_one buffer of
        Inl e \<Rightarrow> (buffer, Inl e)
      | Inr None \<Rightarrow> (buffer, Inr None)
      | Inr (Some (f, consumed)) \<Rightarrow> (drop consumed buffer, Inr (Some f)))"

definition push :: "byte list \<Rightarrow> byte list \<Rightarrow> (byte list, Frame option) outcome" where
  "push buffer data = try_extract (buffer @ data)"

definition reset :: "byte list \<Rightarrow> byte list" where
  "reset buffer = []"

lemma decode_one_consumed:
  "decode_one data = Inr (Some (f, consumed)) \<Longrightarrow> kFrameHeaderSize \<le> consumed \<and> consumed \<le> length data"
  by (auto simp: decode_one_def Let_def split: if_splits)

lemma push_none_shrinks:
  assumes "push buffer [] = (buffer', Inr (Some f))"
  shows "length buffer' < length buffer"
proof -
  from assms obtain c where "decode_one buffer = Inr (Some (f, c))" and b: "buffer' = drop c buffer"
    by (auto simp: push_def try_extract_def split: sum.splits option.splits)
  then have "kFrameHeaderSize \<le> c \<and> c \<le> length buffer" by (auto dest: decode_one_consumed)
  then show ?thesis using b by (auto simp: kFrameHeaderSize_def)
qed

text \<open>
  The receive loop: frames are pulled until none is complete; an exception of the decoder
  ends it, with the frames delivered before it.
\<close>

function drain :: "byte list \<Rightarrow> Frame list \<times> byte list \<times> exn option" where
  "drain buffer =
     (case push buffer [] of
        (b, Inl e) \<Rightarrow> ([], b, Some e)
      | (b, Inr None) \<Rightarrow> ([], b, None)
      | (b, Inr (Some f)) \<Rightarrow> (let (fs, b', e) = drain b in (f # fs, b', e)))"
  by pat_completeness auto
termination
  by (relation "measure length") (auto dest: push_none_shrinks [OF sym])

declare drain.simps [simp del]

fun receive :: "byte list \<Rightarrow> byte list list \<Rightarrow> Frame list \<times> byte list \<times> exn option" where
  "receive buffer [] = ([], buffer, None)"
| "receive buffer (chunk # chunks) =
     (case drain (buffer @ chunk) of
        (fs, b, Some e) \<Rightarrow> (fs, b, Some e)
      | (fs, b, None) \<Rightarrow> (let (fs', b', e) = receive b chunks in (fs @ fs', b', e)))"

section \<open>A well-formed frame on the wire\<close>

definition frame_ok :: "Frame \<Rightarrow> bool" where
  "frame_ok f \<longleftrightarrow> frame_version f = kProtocolVersion \<and> msg_of_code (frame_type f) \<noteq> None
                  \<and> length (frame_payload f) \<le> kMaxPayloadLength"

definition frame_head :: "Frame \<Rightarrow> byte list" where
  "frame_head f = kMagic @ le_bytes 2 kProtocolVersion @ le_bytes 2 (frame_type f)
                  @ le_bytes 4 (of_nat (length (frame_payload f)) :: u32)"

definition frame_bytes :: "Frame \<Rightarrow> byte list" where
  "frame_bytes f = frame_head f @ le_bytes 4 (crc32 (frame_head f @ frame_payload f)) @ frame_payload f"

lemma encode_frame_bytes:
  "frame_ok f \<Longrightarrow> encode_frame (frame_type f) (frame_payload f) = Inr (frame_bytes f)"
  by (simp add: encode_frame_def frame_ok_def frame_bytes_def frame_head_def put_u16_def put_u32_def Let_def)

lemma length_kMagic [simp]: "length kMagic = 8"
  by (simp add: kMagic_def)

lemma length_frame_head [simp]: "length (frame_head f) = 16"
  by (simp add: frame_head_def)

lemma length_frame_bytes [simp]: "length (frame_bytes f) = 20 + length (frame_payload f)"
  by (simp add: frame_bytes_def)

lemma payload_length_fits: "frame_ok f \<Longrightarrow> unat (of_nat (length (frame_payload f)) :: u32) = length (frame_payload f)"
  by (intro unat_of_nat_u32) (simp add: frame_ok_def kMaxPayloadLength_def)

lemma frame_ok_eq: "frame_ok f \<Longrightarrow> f = \<lparr>frame_version = kProtocolVersion, frame_type = frame_type f, frame_payload = frame_payload f\<rparr>"
  by (simp add: frame_ok_def)

text \<open>
  The fields of any buffer that starts with a frame's header: later proofs only use these.
\<close>

lemma header_fields:
  "take 8 (frame_head f @ t) = kMagic"
  "get_u16 (drop 8 (frame_head f @ t)) = kProtocolVersion"
  "get_u16 (drop 10 (frame_head f @ t)) = frame_type f"
  "get_u32 (drop 12 (frame_head f @ t)) = of_nat (length (frame_payload f))"
  by (simp_all add: frame_head_def get_u16_def get_u32_def le_word_le_bytes)

lemma decode_header_ok:
  assumes "kFrameHeaderSize \<le> length data" and "take 8 data = kMagic"
    and "get_u16 (drop 8 data) = kProtocolVersion" and "get_u16 (drop 10 data) = ty"
    and "unat (get_u32 (drop 12 data)) = len" and "len \<le> kMaxPayloadLength"
  shows "decode_one data =
     (if length data < kFrameHeaderSize + len then Inr None
      else if crc32 (take 16 data @ take len (drop kFrameHeaderSize data)) \<noteq> get_u32 (drop 16 data)
      then Inl (ProtocolError ''corrupted checksum'')
      else if msg_of_code ty = None then Inl (ProtocolError ''unknown message type'')
      else Inr (Some (\<lparr>frame_version = kProtocolVersion, frame_type = ty,
                       frame_payload = take len (drop kFrameHeaderSize data)\<rparr>, kFrameHeaderSize + len)))"
  using assms by (simp add: decode_one_def Let_def)

lemma decode_frame_header:
  assumes "frame_ok f" and "take 16 data = frame_head f" and "kFrameHeaderSize \<le> length data"
  shows "decode_one data =
     (if length data < length (frame_bytes f) then Inr None
      else if crc32 (frame_head f @ take (length (frame_payload f)) (drop 20 data)) \<noteq> get_u32 (drop 16 data)
      then Inl (ProtocolError ''corrupted checksum'')
      else Inr (Some (f\<lparr>frame_payload := take (length (frame_payload f)) (drop 20 data)\<rparr>, length (frame_bytes f))))"
proof -
  have d: "frame_head f @ drop 16 data = data" using assms(2) by (metis append_take_drop_id)
  note hf = header_fields [of f "drop 16 data", unfolded d]
  have "unat (get_u32 (drop 12 data)) = length (frame_payload f)"
    using assms(1) by (simp only: hf payload_length_fits)
  note dec = decode_header_ok [OF assms(3) hf(1) hf(2) hf(3) this]
  show ?thesis
    using assms(1,2) frame_ok_eq [OF assms(1)]
    by (subst dec) (auto simp: frame_ok_def kFrameHeaderSize_def)
qed

lemma decode_frame_bytes:
  assumes "frame_ok f"
  shows "decode_one (frame_bytes f @ rest) = Inr (Some (f, length (frame_bytes f)))"
proof -
  have "take 16 (frame_bytes f @ rest) = frame_head f" by (simp add: frame_bytes_def)
  moreover have "drop 20 (frame_bytes f @ rest) = frame_payload f @ rest" by (simp add: frame_bytes_def)
  moreover have "get_u32 (drop 16 (frame_bytes f @ rest)) = crc32 (frame_head f @ frame_payload f)"
    by (simp add: frame_bytes_def get_u32_def le_word_le_bytes)
  ultimately show ?thesis
    using assms decode_frame_header [of f "frame_bytes f @ rest"] by (simp add: kFrameHeaderSize_def)
qed

lemma decode_partial_frame:
  assumes "frame_ok f" and "length buf < length (frame_bytes f)" and "buf @ fut = frame_bytes f @ rest"
  shows "decode_one buf = Inr None"
proof (cases "length buf < kFrameHeaderSize")
  case True
  then show ?thesis by (simp add: decode_one_def)
next
  case False
  then have "take 16 buf = take 16 (buf @ fut)" by (simp add: kFrameHeaderSize_def)
  also have "\<dots> = frame_head f" unfolding assms(3) by (simp add: frame_bytes_def)
  finally show ?thesis using False assms(1,2) decode_frame_header [of f buf] by simp
qed

section \<open>Chunking does not matter\<close>

definition stream_bytes :: "Frame list \<Rightarrow> byte list" where
  "stream_bytes fs = concat (map frame_bytes fs)"

lemma drain_stream:
  assumes "\<forall>f\<in>set fs. frame_ok f" and "buf @ fut = stream_bytes fs"
  shows "\<exists>ds rest b. drain buf = (ds, b, None) \<and> fs = ds @ rest \<and> b @ fut = stream_bytes rest
           \<and> (rest = [] \<or> length b < length (frame_bytes (hd rest)))"
  using assms
proof (induction fs arbitrary: buf)
  case Nil
  then have "drain buf = ([], [], None)"
    by (subst drain.simps) (simp add: push_def try_extract_def decode_one_def kFrameHeaderSize_def stream_bytes_def)
  with Nil show ?case by (auto simp: stream_bytes_def)
next
  case (Cons f fs)
  have ok: "frame_ok f" and eq: "buf @ fut = frame_bytes f @ stream_bytes fs"
    using Cons.prems by (auto simp: stream_bytes_def)
  show ?case
  proof (cases "length buf < length (frame_bytes f)")
    case True
    then have "drain buf = ([], buf, None)"
      using decode_partial_frame [OF ok _ eq] by (subst drain.simps) (simp add: push_def try_extract_def)
    with True Cons.prems show ?thesis
      by (intro exI [of _ "[]"] exI [of _ "f # fs"] exI [of _ buf]) simp
  next
    case False
    define b where "b = drop (length (frame_bytes f)) buf"
    have "take (length (frame_bytes f)) buf = frame_bytes f"
      using arg_cong [OF eq, of "take (length (frame_bytes f))"] False by simp
    then have b: "buf = frame_bytes f @ b" unfolding b_def by (metis append_take_drop_id)
    have bm: "b @ fut = stream_bytes fs" using eq unfolding b by simp
    from Cons.IH [OF _ bm] Cons.prems obtain ds rest b' where
      IH: "drain b = (ds, b', None)" "fs = ds @ rest" "b' @ fut = stream_bytes rest"
        "rest = [] \<or> length b' < length (frame_bytes (hd rest))" by auto
    have "drain buf = (f # ds, b', None)"
      using decode_frame_bytes [OF ok, of b] IH(1) b
      by (subst drain.simps) (simp add: push_def try_extract_def)
    with IH show ?thesis by (intro exI [of _ "f # ds"] exI [of _ rest] exI [of _ b']) simp
  qed
qed

lemma receive_stream:
  assumes "\<forall>f\<in>set fs. frame_ok f" and "buf @ concat chunks = stream_bytes fs"
    and "fs = [] \<or> length buf < length (frame_bytes (hd fs))"
  shows "receive buf chunks = (fs, [], None)"
  using assms
proof (induction chunks arbitrary: buf fs)
  case Nil
  then have "fs = []" by (cases fs) (auto simp: stream_bytes_def)
  with Nil show ?case by (simp add: stream_bytes_def)
next
  case (Cons c cs)
  have "(buf @ c) @ concat cs = stream_bytes fs" using Cons.prems(2) by simp
  from drain_stream [OF Cons.prems(1) this] obtain ds rest b where
    d: "drain (buf @ c) = (ds, b, None)" "fs = ds @ rest" "b @ concat cs = stream_bytes rest"
      "rest = [] \<or> length b < length (frame_bytes (hd rest))" by blast
  have "receive b cs = (rest, [], None)" using Cons.prems(1) d by (intro Cons.IH) auto
  with d show ?case by simp
qed

text \<open>
  C5. Framing is lossless and independent of how the transport splits the stream: when the
  encodings of any sequence of well-formed frames are concatenated and cut into chunks
  in any way, receiving the chunks in order delivers exactly those frames in order,
  with no exception and nothing left in the buffer.
\<close>

theorem stream_roundtrip:
  assumes "\<forall>f\<in>set fs. frame_ok f"
    and "map (\<lambda>f. encode_frame (frame_type f) (frame_payload f)) fs = map Inr encoded"
    and "concat chunks = concat encoded"
  shows "receive [] chunks = (fs, [], None)"
proof -
  have "map (Inr :: byte list \<Rightarrow> byte list result) encoded = map (\<lambda>f. Inr (frame_bytes f)) fs"
    unfolding assms(2) [symmetric] using assms(1) encode_frame_bytes by auto
  then have "map Inr encoded = map (Inr :: byte list \<Rightarrow> byte list result) (map frame_bytes fs)"
    by (simp add: comp_def)
  then have "encoded = map frame_bytes fs"
    by (rule map_injective) simp
  with assms show ?thesis
    by (intro receive_stream) (auto simp: stream_bytes_def)
qed

definition ping_frame :: Frame where
  "ping_frame = \<lparr>frame_version = 1, frame_type = msg_code MT_Ping, frame_payload = [1, 2, 3]\<rparr>"

lemma ping_frame_ok: "frame_ok ping_frame"
  by (simp add: frame_ok_def ping_frame_def kProtocolVersion_def msg_of_code_def all_msg_types_def
      kMaxPayloadLength_def)

theorem stream_roundtrip_witness:
  "receive [] [take 3 (frame_bytes ping_frame), drop 3 (frame_bytes ping_frame) @ frame_bytes ping_frame]
     = ([ping_frame, ping_frame], [], None)"
proof (rule stream_roundtrip)
  show "\<forall>f\<in>set [ping_frame, ping_frame]. frame_ok f" by (simp add: ping_frame_ok)
  show "map (\<lambda>f. encode_frame (frame_type f) (frame_payload f)) [ping_frame, ping_frame]
      = map Inr [frame_bytes ping_frame, frame_bytes ping_frame]"
    by (simp add: encode_frame_bytes ping_frame_ok)
qed simp

section \<open>Corruption is detected\<close>

lemma le_word_neq:
  assumes "length a = n" and "length b = n" and "a \<noteq> b" and "8 * n = LENGTH('l::len)"
  shows "(le_word n (a @ s) :: 'l word) \<noteq> le_word n (b @ t)"
  using assms le_bytes_le_word [of a n, where ?'l = 'l] le_bytes_le_word [of b n, where ?'l = 'l]
  by (metis le_word_append order_refl)

text \<open>The parts of a frame in which one byte can be replaced.\<close>

lemma corrupt_payload:
  assumes "frame_ok f" and "j < length (frame_payload f)" and "frame_payload f ! j \<noteq> b"
  shows "decode_one ((frame_bytes f)[20 + j := b] @ rest) = Inl (ProtocolError ''corrupted checksum'')"
proof -
  let ?p = "frame_payload f" and ?h = "frame_head f"
  let ?d = "(frame_bytes f)[20 + j := b] @ rest"
  have d: "?d = ?h @ le_bytes 4 (crc32 (?h @ ?p)) @ ?p[j := b] @ rest"
    by (simp add: frame_bytes_def list_update_append)
  have "crc32 ((?h @ ?p)[16 + j := b]) \<noteq> crc32 (?h @ ?p)"
    using assms by (intro crc32_single_byte) (auto simp: nth_append)
  then have "crc32 (?h @ ?p[j := b]) \<noteq> crc32 (?h @ ?p)" by (simp add: list_update_append)
  moreover have "take 16 ?d = ?h" unfolding d by simp
  moreover have "drop 20 ?d = ?p[j := b] @ rest" unfolding d by simp
  moreover have "get_u32 (drop 16 ?d) = crc32 (?h @ ?p)" unfolding d by (simp add: get_u32_def le_word_le_bytes)
  ultimately show ?thesis
    using assms decode_frame_header [of f ?d] by (simp add: kFrameHeaderSize_def)
qed

lemma corrupt_checksum:
  assumes "frame_ok f" and "j < 4" and "le_bytes 4 (crc32 (frame_head f @ frame_payload f)) ! j \<noteq> b"
  shows "decode_one ((frame_bytes f)[16 + j := b] @ rest) = Inl (ProtocolError ''corrupted checksum'')"
proof -
  let ?p = "frame_payload f" and ?h = "frame_head f" and ?c = "le_bytes 4 (crc32 (frame_head f @ frame_payload f))"
  let ?d = "(frame_bytes f)[16 + j := b] @ rest"
  have d: "?d = ?h @ ?c[j := b] @ ?p @ rest"
    using assms(2) by (simp add: frame_bytes_def list_update_append)
  have "?c[j := b] \<noteq> ?c" using assms(2,3) by (metis length_le_bytes nth_list_update_eq)
  then have "(le_word 4 (?c[j := b] @ ?p @ rest) :: u32) \<noteq> le_word 4 (?c @ [])"
    by (intro le_word_neq) simp_all
  then have "get_u32 (drop 16 ?d) \<noteq> crc32 (?h @ ?p)"
    unfolding d by (simp add: get_u32_def le_word_le_bytes del: append_Nil2)
  moreover have "take 16 ?d = ?h" unfolding d by simp
  moreover have "drop 20 ?d = ?p @ rest" unfolding d by simp
  ultimately show ?thesis
    using assms decode_frame_header [of f ?d] by (simp add: kFrameHeaderSize_def)
qed

lemma corrupt_magic:
  assumes "i < 8" and "frame_head f ! i \<noteq> b"
  shows "decode_one ((frame_bytes f)[i := b] @ rest) = Inl (ProtocolError ''malformed magic'')"
proof -
  let ?d = "(frame_bytes f)[i := b] @ rest"
  have "take 8 ?d = kMagic[i := b]"
    using assms(1) by (simp add: frame_bytes_def frame_head_def list_update_append take_update_swap)
  moreover have "kMagic ! i \<noteq> b" using assms by (simp add: frame_head_def nth_append)
  ultimately have "take 8 ?d \<noteq> kMagic" using assms(1) by (metis length_kMagic nth_list_update_eq)
  then show ?thesis by (simp add: decode_one_def kFrameHeaderSize_def)
qed

lemma corrupt_version:
  assumes "j < 2" and "frame_head f ! (8 + j) \<noteq> b"
  shows "decode_one ((frame_bytes f)[8 + j := b] @ rest) = Inl (ProtocolError ''unsupported protocol version'')"
proof -
  let ?v = "le_bytes 2 kProtocolVersion" and ?d = "(frame_bytes f)[8 + j := b] @ rest"
  obtain t where d: "?d = kMagic @ ?v[j := b] @ t"
    using assms(1) by (simp add: frame_bytes_def frame_head_def list_update_append)
  have "?v ! j \<noteq> b" using assms by (simp add: frame_head_def nth_append)
  then have "?v[j := b] \<noteq> ?v" using assms(1) by (metis length_le_bytes nth_list_update_eq)
  then have "(le_word 2 (?v[j := b] @ t) :: u16) \<noteq> le_word 2 (?v @ [])"
    by (intro le_word_neq) simp_all
  then have "get_u16 (drop 8 ?d) \<noteq> kProtocolVersion"
    unfolding d by (simp add: get_u16_def le_word_le_bytes del: append_Nil2)
  moreover have "take 8 ?d = kMagic" unfolding d by simp
  moreover have "\<not> length ?d < kFrameHeaderSize" by (simp add: kFrameHeaderSize_def)
  ultimately show ?thesis by (simp only: decode_one_def Let_def if_True if_False not_True_eq_False simp_thms)
qed

lemma corrupt_type:
  assumes "frame_ok f" and "j < 2" and "frame_head f ! (10 + j) \<noteq> b"
  shows "decode_one ((frame_bytes f)[10 + j := b] @ rest) = Inl (ProtocolError ''corrupted checksum'')"
proof -
  let ?p = "frame_payload f" and ?h = "frame_head f"
  let ?h' = "?h[10 + j := b]" and ?c = "crc32 (?h @ ?p)"
  let ?d = "(frame_bytes f)[10 + j := b] @ rest"
  have d: "?d = ?h' @ le_bytes 4 ?c @ ?p @ rest"
    using assms(2) by (simp add: frame_bytes_def list_update_append)
  obtain ty where h': "?h' = kMagic @ le_bytes 2 kProtocolVersion @ ty
        @ le_bytes 4 (of_nat (length ?p) :: u32)" and ty: "length ty = 2"
    using assms(2) by (simp add: frame_head_def list_update_append)
  have hf: "take 8 ?d = kMagic" "get_u16 (drop 8 ?d) = kProtocolVersion"
    "get_u32 (drop 12 ?d) = of_nat (length ?p)"
    unfolding d h' using ty by (simp_all add: get_u16_def get_u32_def le_word_le_bytes)
  have "crc32 ((?h @ ?p)[10 + j := b]) \<noteq> crc32 (?h @ ?p)"
    using assms by (intro crc32_single_byte) (auto simp: nth_append)
  then have crc: "crc32 (?h' @ ?p) \<noteq> ?c" using assms(2) by (simp add: list_update_append)
  have parts: "take 16 ?d = ?h'" "drop 20 ?d = ?p @ rest" "get_u32 (drop 16 ?d) = ?c"
    unfolding d by (simp_all add: get_u32_def le_word_le_bytes)
  have len: "unat (get_u32 (drop 12 ?d)) = length ?p" "length ?p \<le> kMaxPayloadLength"
    using assms(1) by (simp_all only: hf payload_length_fits) (simp add: frame_ok_def)
  have "kFrameHeaderSize \<le> length ?d" by (simp add: kFrameHeaderSize_def)
  from decode_header_ok [OF this hf(1,2) refl len] crc parts show ?thesis
    by (simp add: kFrameHeaderSize_def)
qed

text \<open>
  C33. Every change of a single byte of a well-formed frame, in its magic, version, type,
  checksum or payload (any position but the four bytes of the length field), makes the
  decoder throw a protocol error: the damaged frame is never delivered, whatever bytes
  follow it in the buffer.
\<close>

theorem single_byte_corruption_rejected:
  assumes "frame_ok f" and "i < length (frame_bytes f)" and "i \<notin> {12..<16}" and "frame_bytes f ! i \<noteq> b"
  shows "\<exists>msg. decode_one ((frame_bytes f)[i := b] @ rest) = Inl (ProtocolError msg)"
proof -
  consider "i < 8" | j where "i = 8 + j" "j < 2" | j where "i = 10 + j" "j < 2"
    | j where "i = 16 + j" "j < 4" | j where "i = 20 + j" "j < length (frame_payload f)"
  proof -
    have "i < 8 \<or> i = 8 + (i - 8) \<and> i - 8 < 2 \<or> i = 10 + (i - 10) \<and> i - 10 < 2
        \<or> i = 16 + (i - 16) \<and> i - 16 < 4 \<or> i = 20 + (i - 20) \<and> i - 20 < length (frame_payload f)"
      using assms(2,3) by auto
    then show thesis using that by metis
  qed
  then show ?thesis
  proof cases
    case 1
    then show ?thesis using corrupt_magic assms(4) by (auto simp: frame_bytes_def nth_append)
  next
    case 2
    then show ?thesis using corrupt_version assms(4) by (auto simp: frame_bytes_def nth_append)
  next
    case 3
    then show ?thesis using corrupt_type assms(1,4) by (auto simp: frame_bytes_def nth_append)
  next
    case 4
    then show ?thesis using corrupt_checksum assms(1,4) by (auto simp: frame_bytes_def nth_append)
  next
    case 5
    then show ?thesis using corrupt_payload assms(1,4) by (auto simp: frame_bytes_def nth_append)
  qed
qed

theorem single_byte_corruption_rejected_witness:
  "\<exists>msg. decode_one ((frame_bytes ping_frame)[22 := 7] @ [0]) = Inl (ProtocolError msg)"
proof (rule single_byte_corruption_rejected)
  show "frame_ok ping_frame" by (rule ping_frame_ok)
  show "frame_bytes ping_frame ! 22 \<noteq> 7"
    by (simp add: frame_bytes_def nth_append) (simp add: ping_frame_def)
qed (simp_all add: ping_frame_def)

end
