(* ===== verification/Persistence.thy ===== *)
theory Persistence
  imports Protocol_Frame Core_Enums
begin

text \<open>
  \<open>persistence/persistence_store.hpp\<close> and \<open>src/persistence_store.cpp\<close>: the binary form of
  the durable state, the container around it (magic, version, length, checksum) and the
  save that writes a temporary file and renames it over the destination. The file system
  is a map from paths to contents; what the operating system does with the three calls of
  a save (open, write, rename) is an argument. The theorems: reading back what was
  written, the strictness of the reader, the atomicity of a save and the detection of
  every truncated, extended or singly corrupted file.
\<close>

section \<open>Persisted records\<close>

record PersistedWorker =
  pw_id :: WorkerId
  pw_boot :: WorkerBootId
  pw_incarnation :: u64
  pw_alive :: bool
  pw_node :: NumaNodeId
  pw_placement_generation :: PlacementGeneration
  pw_binding_generation :: BindingGeneration
  pw_policy_generation :: PolicyGeneration
  pw_live_generation :: u64

record PersistedReservation =
  ps_id :: ReservationId
  ps_node :: NumaNodeId
  ps_bytes :: u64
  ps_cpu_slots :: u32
  ps_accelerator :: AcceleratorId
  ps_accelerator_capacity :: bool
  ps_generation :: ReservationGeneration
  ps_active :: bool

record PersistedPlacement =
  pp_id :: PlacementId
  pp_generation :: PlacementGeneration
  pp_worker :: WorkerId
  pp_worker_boot :: WorkerBootId
  pp_node :: NumaNodeId
  pp_source :: ProvenanceSource
  pp_committed_generation :: u64

record PersistedObservation =
  po_id :: ObservationId
  po_generation :: ObservationGeneration
  po_worker :: WorkerId
  po_boot :: WorkerBootId
  po_node :: NumaNodeId
  po_source :: ProvenanceSource
  po_stale :: bool

record PersistedState =
  st_coordinator_epoch :: u64
  st_host_generation :: u64
  st_policy_generation :: u64
  st_workers :: "PersistedWorker list"
  st_reservations :: "PersistedReservation list"
  st_placements :: "PersistedPlacement list"
  st_observations :: "PersistedObservation list"

definition kContainerMagic :: "byte list" where
  "kContainerMagic = [0x4E, 0x55, 0x4D, 0x41, 0x46, 0x41, 0x42, 0x52, 0x49, 0x43, 0x50, 0x31]"

definition kContainerVersion :: u32 where
  "kContainerVersion = 1"

definition kMaxPersistedRecords :: nat where
  "kMaxPersistedRecords = 2 ^ 20"

definition kHeaderSize :: nat where
  "kHeaderSize = 12 + 4 + 4 + 4"

definition kMaxPayload :: nat where
  "kMaxPayload = 2 ^ 28"

section \<open>Reader\<close>

definition payload_truncated :: exn where
  "payload_truncated = PersistenceError ''truncated payload''"

definition p_u8 :: "u8 reader" where
  "p_u8 = rd_fixed payload_truncated 1 (\<lambda>bs. bs ! 0)"

definition p_u32 :: "u32 reader" where
  "p_u32 = rd_fixed payload_truncated 4 (le_word 4)"

definition p_u64 :: "u64 reader" where
  "p_u64 = rd_fixed payload_truncated 8 (le_word 8)"

definition p_flag :: "bool reader" where
  "p_flag = rd_bind p_u8 (\<lambda>v. rd_return (v \<noteq> 0))"

definition p_id :: "'tag Id reader" where
  "p_id = rd_bind p_u64 (\<lambda>v. rd_return (Id v))"

definition p_gen :: "'tag Generation reader" where
  "p_gen = rd_bind p_u64 (\<lambda>v. rd_return (Generation v))"

definition p_source :: "ProvenanceSource reader" where
  "p_source = rd_bind p_u8 (\<lambda>src.
     case provenance_of_code src of
       None \<Rightarrow> rd_throw (PersistenceError ''malformed provenance enum'')
     | Some s \<Rightarrow> rd_return s)"

section \<open>Records on disk\<close>

definition write_worker :: "PersistedWorker \<Rightarrow> byte list" where
  "write_worker x =
     w_u64 (id_value (pw_id x)) @ w_u64 (id_value (pw_boot x)) @ w_u64 (pw_incarnation x) @ w_bool (pw_alive x)
     @ w_u64 (id_value (pw_node x)) @ w_u64 (gen_value (pw_placement_generation x))
     @ w_u64 (gen_value (pw_binding_generation x)) @ w_u64 (gen_value (pw_policy_generation x))
     @ w_u64 (pw_live_generation x)"

definition read_worker :: "PersistedWorker reader" where
  "read_worker =
     rd_bind p_id (\<lambda>i. rd_bind p_id (\<lambda>boot. rd_bind p_u64 (\<lambda>inc. rd_bind p_flag (\<lambda>alive.
     rd_bind p_id (\<lambda>node. rd_bind p_gen (\<lambda>pg. rd_bind p_gen (\<lambda>bg. rd_bind p_gen (\<lambda>pol.
     rd_bind p_u64 (\<lambda>live.
       if \<not> id_valid i then rd_throw (PersistenceError ''invalid worker id'')
       else rd_return \<lparr>pw_id = i, pw_boot = boot, pw_incarnation = inc, pw_alive = alive, pw_node = node,
              pw_placement_generation = pg, pw_binding_generation = bg, pw_policy_generation = pol,
              pw_live_generation = live\<rparr>)))))))))"

definition write_res :: "PersistedReservation \<Rightarrow> byte list" where
  "write_res x =
     w_u64 (id_value (ps_id x)) @ w_u64 (id_value (ps_node x)) @ w_u64 (ps_bytes x) @ w_u32 (ps_cpu_slots x)
     @ w_u64 (id_value (ps_accelerator x)) @ w_bool (ps_accelerator_capacity x)
     @ w_u64 (gen_value (ps_generation x)) @ w_bool (ps_active x)"

definition read_res :: "PersistedReservation reader" where
  "read_res =
     rd_bind p_id (\<lambda>i. rd_bind p_id (\<lambda>node. rd_bind p_u64 (\<lambda>bytes. rd_bind p_u32 (\<lambda>slots.
     rd_bind p_id (\<lambda>acc. rd_bind p_flag (\<lambda>acap. rd_bind p_gen (\<lambda>g. rd_bind p_flag (\<lambda>active.
       if \<not> id_valid i then rd_throw (PersistenceError ''invalid reservation id'')
       else rd_return \<lparr>ps_id = i, ps_node = node, ps_bytes = bytes, ps_cpu_slots = slots, ps_accelerator = acc,
              ps_accelerator_capacity = acap, ps_generation = g, ps_active = active\<rparr>))))))))"

definition write_place :: "PersistedPlacement \<Rightarrow> byte list" where
  "write_place x =
     w_u64 (id_value (pp_id x)) @ w_u64 (gen_value (pp_generation x)) @ w_u64 (id_value (pp_worker x))
     @ w_u64 (id_value (pp_worker_boot x)) @ w_u64 (id_value (pp_node x)) @ w_u8 (provenance_code (pp_source x))
     @ w_u64 (pp_committed_generation x)"

definition read_place :: "PersistedPlacement reader" where
  "read_place =
     rd_bind p_id (\<lambda>i. rd_bind p_gen (\<lambda>g. rd_bind p_id (\<lambda>w. rd_bind p_id (\<lambda>boot. rd_bind p_id (\<lambda>node.
     rd_bind p_source (\<lambda>src. rd_bind p_u64 (\<lambda>cg.
       if \<not> id_valid i then rd_throw (PersistenceError ''invalid placement id'')
       else rd_return \<lparr>pp_id = i, pp_generation = g, pp_worker = w, pp_worker_boot = boot, pp_node = node,
              pp_source = src, pp_committed_generation = cg\<rparr>)))))))"

definition write_obs :: "PersistedObservation \<Rightarrow> byte list" where
  "write_obs x =
     w_u64 (id_value (po_id x)) @ w_u64 (gen_value (po_generation x)) @ w_u64 (id_value (po_worker x))
     @ w_u64 (id_value (po_boot x)) @ w_u64 (id_value (po_node x)) @ w_u8 (provenance_code (po_source x))
     @ w_bool (po_stale x)"

definition read_obs :: "PersistedObservation reader" where
  "read_obs =
     rd_bind p_id (\<lambda>i. rd_bind p_gen (\<lambda>g. rd_bind p_id (\<lambda>w. rd_bind p_id (\<lambda>boot. rd_bind p_id (\<lambda>node.
     rd_bind p_source (\<lambda>src. rd_bind p_flag (\<lambda>stale.
       if \<not> id_valid i then rd_throw (PersistenceError ''invalid observation id'')
       else rd_return \<lparr>po_id = i, po_generation = g, po_worker = w, po_boot = boot, po_node = node,
              po_source = src, po_stale = stale\<rparr>)))))))"

section \<open>Serialization\<close>

definition write_table :: "string \<Rightarrow> ('a \<Rightarrow> byte list) \<Rightarrow> 'a list \<Rightarrow> byte list result" where
  "write_table err wr xs =
     (if length xs > kMaxPersistedRecords then Inl (PersistenceError err)
      else Inr (w_u32 (of_nat (length xs)) @ concat (map wr xs)))"

definition serialize :: "PersistedState \<Rightarrow> byte list result" where
  "serialize s =
     rbind (write_table ''too many workers'' write_worker (st_workers s)) (\<lambda>ws.
     rbind (write_table ''too many reservations'' write_res (st_reservations s)) (\<lambda>rs.
     rbind (write_table ''too many placements'' write_place (st_placements s)) (\<lambda>ps.
     rbind (write_table ''too many observations'' write_obs (st_observations s)) (\<lambda>os.
       Inr (w_u64 (st_coordinator_epoch s) @ w_u64 (st_host_generation s) @ w_u64 (st_policy_generation s)
            @ ws @ rs @ ps @ os)))))"

definition read_table :: "string \<Rightarrow> 'a reader \<Rightarrow> 'a list reader" where
  "read_table err rd =
     rd_bind p_u32 (\<lambda>c. if unat c > kMaxPersistedRecords then rd_throw (PersistenceError err) else rd_many rd (unat c))"

definition read_state :: "PersistedState reader" where
  "read_state =
     rd_bind p_u64 (\<lambda>ep. rd_bind p_u64 (\<lambda>hg. rd_bind p_u64 (\<lambda>pg.
     rd_bind (read_table ''impossible worker count'' read_worker) (\<lambda>ws.
     rd_bind (read_table ''impossible reservation count'' read_res) (\<lambda>rs.
     rd_bind (read_table ''impossible placement count'' read_place) (\<lambda>ps.
     rd_bind (read_table ''impossible observation count'' read_obs) (\<lambda>os.
       rd_return \<lparr>st_coordinator_epoch = ep, st_host_generation = hg, st_policy_generation = pg,
          st_workers = ws, st_reservations = rs, st_placements = ps, st_observations = os\<rparr>)))))))"

definition deserialize :: "byte list \<Rightarrow> PersistedState result" where
  "deserialize data =
     (if length data > kMaxPayload then Inl (PersistenceError ''payload too large'')
      else rbind (read_state data) (\<lambda>(s, rest).
        if rest \<noteq> [] then Inl (PersistenceError ''trailing garbage after persisted state'') else Inr s))"

section \<open>Container and files\<close>

definition container_head :: "byte list \<Rightarrow> byte list" where
  "container_head payload =
     kContainerMagic @ le_bytes 4 kContainerVersion @ le_bytes 4 (of_nat (length payload) :: u64)"

definition container_of :: "byte list \<Rightarrow> byte list" where
  "container_of payload =
     container_head payload @ le_bytes 4 (crc32 (container_head payload @ payload)) @ payload"

definition load_container :: "byte list \<Rightarrow> PersistedState result" where
  "load_container c =
     (if length c < kHeaderSize then Inl (PersistenceError ''persisted container truncated'')
      else if take 12 c \<noteq> kContainerMagic then Inl (PersistenceError ''persisted magic mismatch'')
      else if le_word 4 (drop 12 c) \<noteq> kContainerVersion then Inl (PersistenceError ''unsupported persistence version'')
      else let payload_len = unat (le_word 4 (drop 16 c) :: u32) in
      if payload_len > kMaxPayload then Inl (PersistenceError ''impossible persisted payload length'')
      else if length c \<noteq> kHeaderSize + payload_len
      then Inl (PersistenceError ''persisted length mismatch (truncation/trailing garbage)'')
      else if crc32 (take (kHeaderSize - 4) c @ drop kHeaderSize c) \<noteq> le_word 4 (drop 20 c)
      then Inl (PersistenceError ''persisted checksum corruption'')
      else deserialize (drop kHeaderSize c))"

type_synonym files = "string \<Rightarrow> byte list option"

text \<open>What the operating system does: whether the temporary file opens, how many bytes a
  failed write leaves in it, whether the rename succeeds.\<close>

datatype write_outcome = WriteOk | WriteFailed nat

record SaveEnv =
  env_open :: bool
  env_write :: write_outcome
  env_rename :: bool

definition tmp_path :: "string \<Rightarrow> string" where
  "tmp_path path = path @ ''.tmp''"

definition save :: "SaveEnv \<Rightarrow> PersistedState \<Rightarrow> string \<Rightarrow> files \<Rightarrow> (files, unit) outcome" where
  "save env s path fs =
     (case serialize s of
        Inl e \<Rightarrow> (fs, Inl e)
      | Inr payload \<Rightarrow>
          let container = container_of payload; tmp = tmp_path path in
          if \<not> env_open env then (fs, Inl (PersistenceError ''cannot open temp file for write''))
          else case env_write env of
                 WriteFailed n \<Rightarrow> (fs(tmp \<mapsto> take n container),
                                   Inl (PersistenceError ''write failed while persisting state''))
               | WriteOk \<Rightarrow>
                   if \<not> env_rename env then (fs(tmp \<mapsto> container), Inl (PersistenceError ''atomic rename failed''))
                   else (fs(path \<mapsto> container, tmp := None), Inr ()))"

definition load :: "string \<Rightarrow> files \<Rightarrow> PersistedState result" where
  "load path fs =
     (case fs path of
        None \<Rightarrow> Inl (PersistenceError ''cannot open persisted state'')
      | Some c \<Rightarrow> load_container c)"

section \<open>Codecs of the records\<close>

lemma p_w_prims [wire_simps]:
  "p_u8 (w_u8 a @ rest) = Inr (a, rest)"
  "p_u32 (w_u32 b @ rest) = Inr (b, rest)"
  "p_u64 (w_u64 c @ rest) = Inr (c, rest)"
  by (simp_all add: p_u8_def w_u8_def p_u32_def w_u32_def p_u64_def w_u64_def rd_fixed_def le_word_le_bytes)

lemma p_w_derived [wire_simps]:
  "p_flag (w_bool b @ rest) = Inr (b, rest)"
  "p_id (w_u64 (id_value i) @ rest) = Inr (i, rest)"
  "p_gen (w_u64 (gen_value g) @ rest) = Inr (g, rest)"
  by (simp_all add: p_flag_def p_id_def p_gen_def w_bool_def rd_bind_def p_w_prims)

lemma p_w_source [wire_simps]: "p_source (w_u8 (provenance_code s) @ rest) = Inr (s, rest)"
  by (cases s) (simp_all add: p_source_def rd_bind_def p_w_prims provenance_of_code_def)

lemma extensible_p [intro]:
  "extensible p_u8" "extensible p_u32" "extensible p_u64" "extensible p_flag" "extensible p_id"
  "extensible p_gen" "extensible p_source"
proof -
  show w: "extensible p_u8" "extensible p_u32" "extensible p_u64"
    unfolding p_u8_def p_u32_def p_u64_def
    by (auto intro!: extensible_fixed le_word_append simp: nth_append)
  show "extensible p_flag" "extensible p_id" "extensible p_gen" "extensible p_source"
    unfolding p_flag_def p_id_def p_gen_def p_source_def by (intro extensible_bind w extensible_return extensible_option extensible_throw)+
qed

lemmas extensible_intros = extensible_bind extensible_if extensible_return extensible_throw
  extensible_p extensible_many

interpretation worker_codec: codec write_worker read_worker "\<lambda>x. id_valid (pw_id x)"
proof unfold_locales
  show "extensible read_worker" unfolding read_worker_def by (intro extensible_intros)
qed (simp add: read_worker_def write_worker_def rd_bind_def wire_simps)

interpretation res_codec: codec write_res read_res "\<lambda>x. id_valid (ps_id x)"
proof unfold_locales
  show "extensible read_res" unfolding read_res_def by (intro extensible_intros)
qed (simp add: read_res_def write_res_def rd_bind_def wire_simps)

interpretation place_codec: codec write_place read_place "\<lambda>x. id_valid (pp_id x)"
proof unfold_locales
  show "extensible read_place" unfolding read_place_def by (intro extensible_intros)
qed (simp add: read_place_def write_place_def rd_bind_def wire_simps)

interpretation obs_codec: codec write_obs read_obs "\<lambda>x. id_valid (po_id x)"
proof unfold_locales
  show "extensible read_obs" unfolding read_obs_def by (intro extensible_intros)
qed (simp add: read_obs_def write_obs_def rd_bind_def wire_simps)

lemma length_records [simp]:
  "length (write_worker a) = 65" "length (write_res b) = 46" "length (write_place c) = 49" "length (write_obs d) = 42"
  by (simp_all add: write_worker_def write_res_def write_place_def write_obs_def)

section \<open>Tables\<close>

context codec
begin

lemma read_table_wr:
  assumes "write_table err wr xs = Inr bs" and "\<forall>x\<in>set xs. ok x"
  shows "read_table err' rd (bs @ rest) = Inr (xs, rest)"
proof -
  from assms(1) have le: "length xs \<le> kMaxPersistedRecords" and bs: "bs = w_u32 (of_nat (length xs)) @ concat (map wr xs)"
    by (auto simp: write_table_def split: if_splits)
  from le have "unat (of_nat (length xs) :: u32) = length xs"
    by (intro unat_of_nat_u32) (simp add: kMaxPersistedRecords_def)
  then show ?thesis
    using le assms(2) unfolding bs by (simp add: read_table_def rd_bind_def p_w_prims many_wr)
qed

end

lemma write_table_length:
  assumes "write_table err wr xs = Inr bs" and "\<And>x. length (wr x) = k"
  shows "length bs \<le> 4 + k * kMaxPersistedRecords"
proof -
  from assms(1) have le: "length xs \<le> kMaxPersistedRecords" and bs: "bs = w_u32 (of_nat (length xs)) @ concat (map wr xs)"
    by (auto simp: write_table_def split: if_splits)
  have "length (concat (map wr xs)) = k * length xs"
    using assms(2) by (induction xs) simp_all
  with le show ?thesis unfolding bs by simp
qed

lemma extensible_read_state: "extensible read_state"
  unfolding read_state_def read_table_def
  by (intro extensible_intros worker_codec.rd_extensible res_codec.rd_extensible place_codec.rd_extensible
      obs_codec.rd_extensible)

section \<open>Reading back what was written\<close>

text \<open>What \<open>deserialize\<close> promises of a state it returns.\<close>

definition persistable :: "PersistedState \<Rightarrow> bool" where
  "persistable s \<longleftrightarrow>
     (\<forall>x\<in>set (st_workers s). id_valid (pw_id x)) \<and> (\<forall>x\<in>set (st_reservations s). id_valid (ps_id x))
     \<and> (\<forall>x\<in>set (st_placements s). id_valid (pp_id x)) \<and> (\<forall>x\<in>set (st_observations s). id_valid (po_id x))
     \<and> length (st_workers s) \<le> kMaxPersistedRecords \<and> length (st_reservations s) \<le> kMaxPersistedRecords
     \<and> length (st_placements s) \<le> kMaxPersistedRecords \<and> length (st_observations s) \<le> kMaxPersistedRecords"

lemma serialize_Inr:
  assumes "serialize s = Inr bs"
  obtains ws rs ps os where
    "write_table ''too many workers'' write_worker (st_workers s) = Inr ws"
    "write_table ''too many reservations'' write_res (st_reservations s) = Inr rs"
    "write_table ''too many placements'' write_place (st_placements s) = Inr ps"
    "write_table ''too many observations'' write_obs (st_observations s) = Inr os"
    "bs = w_u64 (st_coordinator_epoch s) @ w_u64 (st_host_generation s) @ w_u64 (st_policy_generation s)
          @ ws @ rs @ ps @ os"
  using assms by (auto simp: serialize_def rbind_Inr_iff)

lemma serialize_total: "persistable s \<Longrightarrow> \<exists>bs. serialize s = Inr bs"
  by (simp add: serialize_def write_table_def persistable_def)

lemma serialize_length:
  assumes "serialize s = Inr bs"
  shows "length bs \<le> kMaxPayload"
  using assms
proof (rule serialize_Inr)
  fix ws rs ps os
  assume t: "write_table ''too many workers'' write_worker (st_workers s) = Inr ws"
    "write_table ''too many reservations'' write_res (st_reservations s) = Inr rs"
    "write_table ''too many placements'' write_place (st_placements s) = Inr ps"
    "write_table ''too many observations'' write_obs (st_observations s) = Inr os"
    and bs: "bs = w_u64 (st_coordinator_epoch s) @ w_u64 (st_host_generation s) @ w_u64 (st_policy_generation s)
          @ ws @ rs @ ps @ os"
  show ?thesis
    using write_table_length [OF t(1) length_records(1)] write_table_length [OF t(2) length_records(2)]
      write_table_length [OF t(3) length_records(3)] write_table_length [OF t(4) length_records(4)]
    by (simp add: bs kMaxPersistedRecords_def kMaxPayload_def)
qed

lemma read_state_serialize:
  assumes "persistable s" and "serialize s = Inr bs"
  shows "read_state (bs @ rest) = Inr (s, rest)"
  using assms(2)
proof (rule serialize_Inr)
  fix ws rs ps os
  assume t: "write_table ''too many workers'' write_worker (st_workers s) = Inr ws"
    "write_table ''too many reservations'' write_res (st_reservations s) = Inr rs"
    "write_table ''too many placements'' write_place (st_placements s) = Inr ps"
    "write_table ''too many observations'' write_obs (st_observations s) = Inr os"
    and bs: "bs = w_u64 (st_coordinator_epoch s) @ w_u64 (st_host_generation s) @ w_u64 (st_policy_generation s)
          @ ws @ rs @ ps @ os"
  have rd: "read_table e1 read_worker (ws @ r1) = Inr (st_workers s, r1)"
    "read_table e2 read_res (rs @ r2) = Inr (st_reservations s, r2)"
    "read_table e3 read_place (ps @ r3) = Inr (st_placements s, r3)"
    "read_table e4 read_obs (os @ r4) = Inr (st_observations s, r4)" for e1 e2 e3 e4 r1 r2 r3 r4
    using assms(1) t worker_codec.read_table_wr res_codec.read_table_wr place_codec.read_table_wr
      obs_codec.read_table_wr by (auto simp: persistable_def)
  show ?thesis unfolding bs read_state_def by (simp add: rd_bind_def p_w_prims rd)
qed

text \<open>
  Serialization is total on the states with valid identifiers and at most
  \<open>kMaxPersistedRecords\<close> records per table, its result is within the size that the reader
  accepts, and the reader returns exactly the state that was written.
\<close>

theorem deserialize_serialize:
  assumes "persistable s"
  shows "\<exists>bs. serialize s = Inr bs \<and> length bs \<le> kMaxPayload \<and> deserialize bs = Inr s"
proof -
  obtain bs where bs: "serialize s = Inr bs" using serialize_total [OF assms] by blast
  have "read_state bs = Inr (s, [])" using read_state_serialize [OF assms bs, of "[]"] by simp
  with serialize_length [OF bs] have "deserialize bs = Inr s" by (simp add: deserialize_def)
  with bs serialize_length [OF bs] show ?thesis by blast
qed

definition sample_state :: PersistedState where
  "sample_state = \<lparr>st_coordinator_epoch = 3, st_host_generation = 1, st_policy_generation = 2,
     st_workers = [\<lparr>pw_id = Id 1, pw_boot = Id 4, pw_incarnation = 1, pw_alive = True, pw_node = Id 2,
        pw_placement_generation = Generation 1, pw_binding_generation = Generation 0,
        pw_policy_generation = Generation 2, pw_live_generation = 9\<rparr>],
     st_reservations = [\<lparr>ps_id = Id 5, ps_node = Id 2, ps_bytes = 4096, ps_cpu_slots = 2, ps_accelerator = Id 0,
        ps_accelerator_capacity = False, ps_generation = Generation 1, ps_active = True\<rparr>],
     st_placements = [\<lparr>pp_id = Id 6, pp_generation = Generation 1, pp_worker = Id 1, pp_worker_boot = Id 4,
        pp_node = Id 2, pp_source = PS_Measured, pp_committed_generation = 1\<rparr>],
     st_observations = [\<lparr>po_id = Id 7, po_generation = Generation 1, po_worker = Id 1, po_boot = Id 4,
        po_node = Id 2, po_source = PS_Synthetic, po_stale = True\<rparr>]\<rparr>"

lemma sample_state_persistable: "persistable sample_state"
  by (simp add: persistable_def sample_state_def kMaxPersistedRecords_def)

theorem deserialize_serialize_witness:
  "\<exists>bs. serialize sample_state = Inr bs \<and> length bs \<le> kMaxPayload \<and> deserialize bs = Inr sample_state"
  by (rule deserialize_serialize) (rule sample_state_persistable)

section \<open>Strictness\<close>

lemma rd_many_all:
  assumes "rd_many rd n bs = Inr (xs, rest)" and "\<And>bs x r. rd bs = Inr (x, r) \<Longrightarrow> P x"
  shows "length xs = n \<and> (\<forall>x\<in>set xs. P x)"
  using assms(1) by (induction n arbitrary: bs xs) (auto simp: rd_bind_Inr dest: assms(2))

lemma read_table_all:
  assumes "read_table e rd bs = Inr (xs, rest)" and "\<And>bs x r. rd bs = Inr (x, r) \<Longrightarrow> P x"
  shows "length xs \<le> kMaxPersistedRecords" and "\<forall>x\<in>set xs. P x"
  using assms(1) rd_many_all [where P = P, OF _ assms(2)]
  by (auto simp: read_table_def rd_bind_Inr not_less split: if_splits)

lemma read_record_valid:
  "read_worker bs = Inr (a, r) \<Longrightarrow> id_valid (pw_id a)"
  "read_res bs = Inr (b, r) \<Longrightarrow> id_valid (ps_id b)"
  "read_place bs = Inr (c, r) \<Longrightarrow> id_valid (pp_id c)"
  "read_obs bs = Inr (d, r) \<Longrightarrow> id_valid (po_id d)"
  by (auto simp: read_worker_def read_res_def read_place_def read_obs_def rd_bind_Inr split: if_splits)

lemma read_state_persistable:
  assumes "read_state bs = Inr (s, rest)"
  shows "persistable s"
proof -
  from assms obtain b1 b2 b3 b4 r1 r2 r3 r4 where
    t: "read_table ''impossible worker count'' read_worker b1 = Inr (st_workers s, r1)"
      "read_table ''impossible reservation count'' read_res b2 = Inr (st_reservations s, r2)"
      "read_table ''impossible placement count'' read_place b3 = Inr (st_placements s, r3)"
      "read_table ''impossible observation count'' read_obs b4 = Inr (st_observations s, r4)"
    by (auto simp: read_state_def rd_bind_Inr)
  show ?thesis
    unfolding persistable_def
    using read_table_all [OF t(1), of "\<lambda>x. id_valid (pw_id x)"] read_table_all [OF t(2), of "\<lambda>x. id_valid (ps_id x)"]
      read_table_all [OF t(3), of "\<lambda>x. id_valid (pp_id x)"] read_table_all [OF t(4), of "\<lambda>x. id_valid (po_id x)"]
      read_record_valid by blast
qed

interpretation state_codec: codec "\<lambda>s. case serialize s of Inr bs \<Rightarrow> bs | Inl _ \<Rightarrow> []" read_state persistable
proof unfold_locales
  show "extensible read_state" by (rule extensible_read_state)
  show "read_state ((case serialize s of Inr bs \<Rightarrow> bs | Inl _ \<Rightarrow> []) @ rest) = Inr (s, rest)"
    if "persistable s" for s rest
    using serialize_total [OF that] read_state_serialize [OF that] by auto
qed

text \<open>
  The reader is strict: every state it returns has valid identifiers and bounded
  tables; a proper prefix of a serialized state and a serialized state followed by
  anything are both rejected.
\<close>

theorem deserialize_strict:
  assumes "persistable s" and "serialize s = Inr bs"
  shows "(\<forall>data s'. deserialize data = Inr s' \<longrightarrow> persistable s')
    \<and> (\<forall>n. n < length bs \<longrightarrow> \<not> is_ok (deserialize (take n bs)))
    \<and> (\<forall>extra. extra \<noteq> [] \<longrightarrow> \<not> is_ok (deserialize (bs @ extra)))"
proof (intro conjI allI impI)
  fix data s' assume "deserialize data = Inr s'"
  then show "persistable s'"
    by (auto simp: deserialize_def rbind_Inr_iff split: if_splits intro: read_state_persistable)
next
  fix n assume "n < length bs"
  then have "\<not> is_ok (read_state (take n bs))"
    using state_codec.truncation_rejected [OF assms(1), of n] by (simp add: assms(2))
  then obtain e where "read_state (take n bs) = Inl e" by (cases "read_state (take n bs)") auto
  then show "\<not> is_ok (deserialize (take n bs))" by (simp add: deserialize_def)
next
  fix extra :: "byte list" assume "extra \<noteq> []"
  then show "\<not> is_ok (deserialize (bs @ extra))"
    using read_state_serialize [OF assms, of extra] by (simp add: deserialize_def)
qed

theorem deserialize_strict_witness:
  "\<exists>bs. serialize sample_state = Inr bs \<and> \<not> is_ok (deserialize (bs @ [0]))"
  using serialize_total [OF sample_state_persistable] deserialize_strict [OF sample_state_persistable] by blast

section \<open>Containers\<close>

lemma le_bytes_u64_low: "le_bytes 4 (v :: u64) = le_bytes 4 (ucast v :: u32)"
proof (rule nth_equalityI)
  fix k assume "k < length (le_bytes 4 v)"
  then have k: "k < 4" by simp
  show "le_bytes 4 v ! k = le_bytes 4 (ucast v :: u32) ! k"
    by (rule bit_word_eqI) (use k in \<open>simp add: bit_le_bytes bit_ucast_iff\<close>)
qed simp

lemma length_container_head [simp]: "length (container_head p) = 20"
  by (simp add: container_head_def kContainerMagic_def)

lemma length_container_of [simp]: "length (container_of p) = 24 + length p"
  by (simp add: container_of_def)

lemma container_length_field:
  assumes "length p \<le> kMaxPayload"
  shows "unat (le_word 4 (le_bytes 4 (of_nat (length p) :: u64) @ rest) :: u32) = length p"
proof -
  have "(ucast (of_nat (length p) :: u64) :: u32) = of_nat (length p)" by (rule bit_word_eqI) (simp add: bit_simps)
  then have "(le_word 4 (le_bytes 4 (of_nat (length p) :: u64) @ rest) :: u32) = of_nat (length p)"
    by (simp only: le_bytes_u64_low) (simp add: le_word_le_bytes)
  with assms show ?thesis by (simp add: unat_of_nat_u32 kMaxPayload_def)
qed

text \<open>The fields of a container, as the loader reads them.\<close>

lemma container_fields:
  "take 12 (container_of p) = kContainerMagic"
  "le_word 4 (drop 12 (container_of p)) = kContainerVersion"
  "take 20 (container_of p) = container_head p"
  "le_word 4 (drop 20 (container_of p)) = crc32 (container_head p @ p)"
  "drop 24 (container_of p) = p"
  by (simp_all add: container_of_def container_head_def kContainerMagic_def le_word_le_bytes)

lemma container_payload_length:
  "length p \<le> kMaxPayload \<Longrightarrow> unat (le_word 4 (drop 16 (container_of p)) :: u32) = length p"
  by (simp add: container_of_def container_head_def kContainerMagic_def container_length_field)

lemma load_container_of:
  assumes "length p \<le> kMaxPayload"
  shows "load_container (container_of p) = deserialize p"
  unfolding load_container_def Let_def container_payload_length [OF assms] container_fields
  using assms by (simp add: kHeaderSize_def container_fields)

lemma load_container_accepts:
  assumes "is_ok (load_container d)"
  shows "24 \<le> length d" and "take 12 d = kContainerMagic" and "le_word 4 (drop 12 d) = kContainerVersion"
    and "length d = 24 + unat (le_word 4 (drop 16 d) :: u32)"
    and "crc32 (take 20 d @ drop 24 d) = le_word 4 (drop 20 d)"
proof -
  have size: "kHeaderSize = 24" "(24::nat) - 4 = 20" by (simp_all add: kHeaderSize_def)
  note guards = assms [unfolded load_container_def Let_def size is_ok_if]
  from guards show "24 \<le> length d" by linarith
  from guards show "take 12 d = kContainerMagic" "le_word 4 (drop 12 d) = kContainerVersion"
    "length d = 24 + unat (le_word 4 (drop 16 d) :: u32)"
    "crc32 (take 20 d @ drop 24 d) = le_word 4 (drop 20 d)" by blast+
qed

lemma le_word_take: "n \<le> length bs \<Longrightarrow> le_word n (take n bs) = le_word n bs"
  using le_word_append [of n "take n bs" "drop n bs", symmetric] by simp

lemma le_word_update_neq:
  assumes "j < n" and "k + n \<le> length c" and "c ! (k + j) \<noteq> b" and "8 * n = LENGTH('l::len)"
  shows "(le_word n (drop k (c[k + j := b])) :: 'l word) \<noteq> le_word n (drop k c)"
proof -
  let ?x = "drop k c"
  have "length ?x = length c - k" by simp
  then have len: "n \<le> length ?x" using assms(2) by linarith
  have upd: "drop k (c[k + j := b]) = (take n ?x)[j := b] @ drop n ?x"
  proof -
    have "drop k (c[k + j := b]) = (take n ?x @ drop n ?x)[j := b]"
      by (simp only: append_take_drop_id) (simp add: drop_update_swap)
    also have "\<dots> = (take n ?x)[j := b] @ drop n ?x"
      using assms(1) len by (intro list_update_append1) simp
    finally show ?thesis .
  qed
  have ne: "(take n ?x)[j := b] \<noteq> take n ?x"
  proof -
    have "take n ?x ! j = c ! (k + j)" using assms(1,2) by simp
    moreover have "j < length (take n ?x)" using assms(1) len by simp
    ultimately show ?thesis using assms(3) by (metis nth_list_update_eq)
  qed
  have "(le_word n ((take n ?x)[j := b] @ drop n ?x) :: 'l word) \<noteq> le_word n (take n ?x @ drop n ?x)"
    using len ne assms(4) by (intro le_word_neq) auto
  then show ?thesis unfolding upd by (simp only: append_take_drop_id not_False_eq_True)
qed

text \<open>A stored file after a truncation, an extension, or the change of one byte.\<close>

inductive damaged :: "byte list \<Rightarrow> byte list \<Rightarrow> bool" where
  truncated: "n < length c \<Longrightarrow> damaged c (take n c)"
| extended: "extra \<noteq> [] \<Longrightarrow> damaged c (c @ extra)"
| changed: "i < length c \<Longrightarrow> c ! i \<noteq> b \<Longrightarrow> damaged c (c[i := b])"

lemma changed_byte_rejected:
  assumes "length p \<le> kMaxPayload" and "c = container_of p" and "i < length c" and "c ! i \<noteq> b"
  shows "\<not> is_ok (load_container (c[i := b]))"
proof
  assume ok: "is_ok (load_container (c[i := b]))"
  note acc = load_container_accepts [OF ok]
  have len: "length c = 24 + length p" using assms(2) by simp
  consider "i < 12" | "12 \<le> i \<and> i < 16" | "16 \<le> i \<and> i < 20" | "20 \<le> i \<and> i < 24" | "24 \<le> i" by linarith
  then show False
  proof cases
    case 1
    then have "take 12 (c[i := b]) = (take 12 c)[i := b]" by (simp add: take_update_swap)
    then have "c ! i = b" using acc(2) container_fields(1) [of p] 1 len assms(2)
      by (metis length_list_update nth_list_update_eq nth_take assms(3))
    with assms(4) show False by simp
  next
    case 2
    then have j: "12 + (i - 12) = i" "i - 12 < 4" by auto
    have "(le_word 4 (drop 12 (c[i := b])) :: u32) \<noteq> le_word 4 (drop 12 c)"
      using le_word_update_neq [of "i - 12" 4 12 c b, unfolded j(1), OF j(2), where ?'l = 32] assms(4) len by simp
    with acc(3) show False by (simp add: assms(2) container_fields)
  next
    case 3
    then have j: "16 + (i - 16) = i" "i - 16 < 4" by auto
    have "(le_word 4 (drop 16 (c[i := b])) :: u32) \<noteq> le_word 4 (drop 16 c)"
      using le_word_update_neq [of "i - 16" 4 16 c b, unfolded j(1), OF j(2), where ?'l = 32] assms(4) len by simp
    then have "unat (le_word 4 (drop 16 (c[i := b])) :: u32) \<noteq> length p"
      using container_payload_length [OF assms(1)] assms(2) by (metis word_unat_eq_iff)
    with acc(4) len show False by simp
  next
    case 4
    then have j: "20 + (i - 20) = i" "i - 20 < 4" by auto
    have "(le_word 4 (drop 20 (c[i := b])) :: u32) \<noteq> le_word 4 (drop 20 c)"
      using le_word_update_neq [of "i - 20" 4 20 c b, unfolded j(1), OF j(2), where ?'l = 32] assms(4) len by simp
    with acc(5) 4 show False by (simp add: assms(2) container_fields)
  next
    case 5
    define h where "h = container_head p"
    obtain j where i: "i = 24 + j" using 5 by (metis le_Suc_ex)
    with assms(3) len have j: "j < length p" by simp
    have "crc32 ((h @ p)[20 + j := b]) \<noteq> crc32 (h @ p)"
      using assms(4) j by (intro crc32_single_byte) (simp_all add: h_def i assms(2) container_of_def nth_append)
    moreover have "take 20 (c[i := b]) @ drop 24 (c[i := b]) = (h @ p)[20 + j := b]"
      by (simp add: i assms(2) drop_update_swap container_fields list_update_append h_def)
    moreover have "le_word 4 (drop 20 (c[i := b])) = crc32 (h @ p)"
      by (simp add: i assms(2) container_of_def list_update_append h_def le_word_le_bytes)
    ultimately show False using acc(5) by simp
  qed
qed

text \<open>
  C32. A damaged file is never loaded: whatever state was saved, the loader throws for every
  proper prefix of the file, for the file followed by anything, and for the file with any
  single byte changed, header and length field included.
\<close>

theorem damaged_file_rejected:
  assumes "serialize s = Inr payload" and "damaged (container_of payload) d" and "fs path = Some d"
  shows "\<not> is_ok (load path fs)"
proof -
  have le: "length payload \<le> kMaxPayload" by (rule serialize_length [OF assms(1)])
  have len_field: "unat (le_word 4 (drop 16 x) :: u32) = length payload"
    if "take 20 x = take 20 (container_of payload)" "20 \<le> length x" for x
  proof -
    have four: "4 \<le> length (drop 16 x)" using that(2) by simp
    have "take 4 (drop 16 x) = take 4 (drop 16 (container_of payload))"
      using arg_cong [OF that(1), of "drop 16"] by (simp add: drop_take)
    moreover have "(le_word 4 (drop 16 x) :: u32) = le_word 4 (take 4 (drop 16 x))"
      by (rule le_word_take [OF four, symmetric])
    moreover have "(le_word 4 (take 4 (drop 16 (container_of payload))) :: u32) = le_word 4 (drop 16 (container_of payload))"
      by (rule le_word_take) simp
    ultimately have "(le_word 4 (drop 16 x) :: u32) = le_word 4 (drop 16 (container_of payload))" by simp
    then show ?thesis using container_payload_length [OF le] by simp
  qed
  have "\<not> is_ok (load_container d)"
    using assms(2)
  proof cases
    case (truncated n)
    show ?thesis
    proof
      assume ok: "is_ok (load_container d)"
      then have "24 \<le> length d" by (rule load_container_accepts)
      with truncated len_field [of d] load_container_accepts(4) [OF ok] show False by simp
    qed
  next
    case (extended extra)
    with len_field [of d] load_container_accepts(4) [of d] show ?thesis by auto
  next
    case (changed i b)
    with changed_byte_rejected [OF le refl] show ?thesis by simp
  qed
  with assms(3) show ?thesis by (simp add: load_def)
qed

theorem damaged_file_rejected_witness:
  "\<exists>payload. serialize sample_state = Inr payload \<and>
     \<not> is_ok (load ''nf.state'' (\<lambda>q. if q = ''nf.state'' then Some (take 9 (container_of payload)) else None))"
proof -
  obtain payload where s: "serialize sample_state = Inr payload"
    using serialize_total [OF sample_state_persistable] by blast
  have "\<not> is_ok (load ''nf.state'' (\<lambda>q. if q = ''nf.state'' then Some (take 9 (container_of payload)) else None))"
    by (rule damaged_file_rejected [OF s truncated]) simp_all
  with s show ?thesis by blast
qed

section \<open>Saving is atomic\<close>

lemma container_loads:
  assumes "persistable s" and "serialize s = Inr bs"
  shows "load_container (container_of bs) = Inr s"
proof -
  have "read_state bs = Inr (s, [])" using read_state_serialize [OF assms, of "[]"] by simp
  then show ?thesis using serialize_length [OF assms(2)] by (simp add: load_container_of deserialize_def)
qed

text \<open>
  C4. A save is atomic for whatever the operating system does with its calls: when it
  returns normally, loading the path yields exactly the saved state; when it throws, at
  any stage, the destination still holds what it held before. No other file but the
  temporary one is touched.
\<close>

theorem save_atomic:
  assumes "persistable s" and "save env s path fs = (fs', r)"
  shows "(if is_ok r then load path fs' = Inr s else fs' path = fs path)
         \<and> (\<forall>q. q \<noteq> path \<and> q \<noteq> tmp_path path \<longrightarrow> fs' q = fs q)"
proof -
  obtain bs where bs: "serialize s = Inr bs" using serialize_total [OF assms(1)] by blast
  have ne: "tmp_path path \<noteq> path" by (simp add: tmp_path_def)
  from assms(2) ne container_loads [OF assms(1) bs] show ?thesis
    by (auto simp: save_def bs Let_def load_def split: if_splits write_outcome.splits)
qed

theorem save_atomic_witness:
  "load ''nf.state'' (fst (save \<lparr>env_open = True, env_write = WriteOk, env_rename = True\<rparr> sample_state ''nf.state''
     (\<lambda>_. None))) = Inr sample_state"
proof -
  let ?r = "save \<lparr>env_open = True, env_write = WriteOk, env_rename = True\<rparr> sample_state ''nf.state'' (\<lambda>_. None)"
  obtain bs where "serialize sample_state = Inr bs" using serialize_total [OF sample_state_persistable] by blast
  then have "is_ok (snd ?r)" by (simp add: save_def Let_def)
  then show ?thesis using save_atomic [OF sample_state_persistable, of _ "''nf.state''" _ "fst ?r" "snd ?r"] by simp
qed

text \<open>
  Duplicate identifiers are not rejected: a file whose worker table names the same
  worker twice loads, and both entries are returned.
\<close>

theorem duplicate_ids_accepted:
  "\<exists>bs s. deserialize bs = Inr s \<and> \<not> distinct (map pw_id (st_workers s))"
proof -
  let ?s = "sample_state\<lparr>st_workers := st_workers sample_state @ st_workers sample_state\<rparr>"
  have "persistable ?s" using sample_state_persistable
    by (simp add: persistable_def sample_state_def kMaxPersistedRecords_def)
  then obtain bs where bs: "serialize ?s = Inr bs" and rd: "read_state bs = Inr (?s, [])"
    using serialize_total [of ?s] read_state_serialize [of ?s _ "[]"] by auto
  then have "deserialize bs = Inr ?s" using serialize_length [OF bs] by (simp add: deserialize_def)
  moreover have "\<not> distinct (map pw_id (st_workers ?s))" by (simp add: sample_state_def)
  ultimately show ?thesis by blast
qed

end
