(* ===== verification/Worker_Registry.thy ===== *)
theory Worker_Registry
  imports Affinity Step_System
begin

text \<open>
  \<open>affinity/worker.hpp\<close> and \<open>src/worker_registry.cpp\<close>: the registry of workers. Each
  incarnation of a worker has its own boot identifier; an operation that claims a boot is
  accepted only when it is the current boot of a live worker. The mutex of the code makes
  every method atomic, so a run is a sequence of the methods. A lookup through \<open>find_mut\<close>
  returns a pointer through which the runtime writes the placement and binding fields;
  it is \<open>update_worker\<close> with the written function as argument.
  Theorems: boots are unique and below the counter in every run; a boot that was replaced
  by a restart is never accepted again; a late death report for an old boot changes
  nothing.
\<close>

section \<open>Workers\<close>

record Worker =
  wk_id :: WorkerId
  wk_boot_id :: WorkerBootId
  wk_incarnation :: u64
  wk_process_id :: ProcessId
  wk_thread_id :: ThreadId
  wk_requested_affinity :: AffinitySet
  wk_current_affinity :: AffinitySet
  wk_bound :: bool
  wk_node :: NumaNodeId
  wk_placement_id :: PlacementId
  wk_placement_generation :: PlacementGeneration
  wk_binding_id :: BindingId
  wk_binding_generation :: BindingGeneration
  wk_policy_id :: PolicyId
  wk_policy_generation :: PolicyGeneration
  wk_alive :: bool
  wk_last_observation_generation :: ObservationGeneration
  wk_registered_ms :: u64

definition default_worker :: Worker where
  "default_worker = \<lparr>wk_id = invalid_id, wk_boot_id = invalid_id, wk_incarnation = 0, wk_process_id = invalid_id,
     wk_thread_id = invalid_id, wk_requested_affinity = [], wk_current_affinity = [], wk_bound = False,
     wk_node = invalid_id, wk_placement_id = invalid_id, wk_placement_generation = gen_initial,
     wk_binding_id = invalid_id, wk_binding_generation = gen_initial, wk_policy_id = invalid_id,
     wk_policy_generation = gen_initial, wk_alive = True, wk_last_observation_generation = gen_initial,
     wk_registered_ms = 0\<rparr>"

record WorkerRegistry =
  wr_workers :: "(WorkerId, Worker) omap"
  wr_next_boot :: u64

definition empty_registry :: WorkerRegistry where
  "empty_registry = \<lparr>wr_workers = om_empty, wr_next_boot = 1\<rparr>"

section \<open>Operations\<close>

definition register_worker :: "WorkerId \<Rightarrow> ProcessId \<Rightarrow> WorkerRegistry \<Rightarrow> (WorkerRegistry, Worker) outcome" where
  "register_worker i pid s =
     (if \<not> id_valid i then (s, Inl (WorkerError ''register_worker requires a valid worker id''))
      else if om_find (wr_workers s) i \<noteq> None
      then (s, Inl (WorkerError (''worker already registered: '' @ id_to_string i)))
      else let w = default_worker\<lparr>wk_id := i, wk_boot_id := Id (wr_next_boot s), wk_incarnation := 1,
                     wk_process_id := pid, wk_alive := True, wk_bound := False,
                     wk_placement_generation := gen_initial, wk_binding_generation := gen_initial,
                     wk_policy_generation := gen_initial, wk_last_observation_generation := gen_initial\<rparr>
           in (s\<lparr>wr_workers := om_insert i w (wr_workers s), wr_next_boot := wr_next_boot s + 1\<rparr>, Inr w))"

definition next_incarnation :: "u64 \<Rightarrow> ProcessId \<Rightarrow> Worker \<Rightarrow> Worker" where
  "next_incarnation boot pid w =
     w\<lparr>wk_boot_id := Id boot, wk_incarnation := wk_incarnation w + 1,
       wk_process_id := pid, wk_alive := True, wk_bound := False,
       wk_requested_affinity := [], wk_current_affinity := [], wk_node := invalid_id,
       wk_placement_id := invalid_id, wk_placement_generation := gen_initial,
       wk_binding_id := invalid_id, wk_binding_generation := gen_initial,
       wk_policy_id := invalid_id, wk_policy_generation := gen_initial,
       wk_last_observation_generation := gen_initial\<rparr>"

definition restart_worker :: "WorkerId \<Rightarrow> ProcessId \<Rightarrow> WorkerRegistry \<Rightarrow> (WorkerRegistry, Worker) outcome" where
  "restart_worker i pid s =
     (if \<not> id_valid i then (s, Inl (WorkerError ''restart_worker requires a valid worker id''))
      else case om_find (wr_workers s) i of
        None \<Rightarrow> (s, Inl (WorkerError (''cannot restart unknown worker '' @ id_to_string i)))
      | Some old \<Rightarrow>
          let w = next_incarnation (wr_next_boot s) pid old
          in (s\<lparr>wr_workers := om_insert i w (wr_workers s), wr_next_boot := wr_next_boot s + 1\<rparr>, Inr w))"

definition restore_worker :: "Worker \<Rightarrow> WorkerRegistry \<Rightarrow> (WorkerRegistry, bool) outcome" where
  "restore_worker w s =
     (if \<not> id_valid (wk_id w) \<or> \<not> id_valid (wk_boot_id w)
      then (s, Inl (WorkerError ''cannot restore invalid worker identity''))
      else if (case om_find (wr_workers s) (wk_id w) of None \<Rightarrow> False | Some old \<Rightarrow> wk_alive old) then (s, Inr False)
      else (s\<lparr>wr_next_boot := (if id_value (wk_boot_id w) \<ge> wr_next_boot s then id_value (wk_boot_id w) + 1
                               else wr_next_boot s),
              wr_workers := om_insert (wk_id w) w (wr_workers s)\<rparr>, Inr True))"

definition mark_dead :: "WorkerId \<Rightarrow> WorkerBootId \<Rightarrow> WorkerRegistry \<Rightarrow> WorkerRegistry" where
  "mark_dead i boot s =
     (case om_find (wr_workers s) i of
        None \<Rightarrow> s
      | Some w \<Rightarrow> if wk_boot_id w = boot then s\<lparr>wr_workers := om_insert i (w\<lparr>wk_alive := False\<rparr>) (wr_workers s)\<rparr> else s)"

definition find_worker :: "WorkerRegistry \<Rightarrow> WorkerId \<Rightarrow> Worker option" where
  "find_worker s i = om_find (wr_workers s) i"

definition update_worker :: "WorkerId \<Rightarrow> (Worker \<Rightarrow> Worker) \<Rightarrow> WorkerRegistry \<Rightarrow> WorkerRegistry" where
  "update_worker i f s =
     (case om_find (wr_workers s) i of
        None \<Rightarrow> s
      | Some w \<Rightarrow> s\<lparr>wr_workers := om_insert i (f w) (wr_workers s)\<rparr>)"

definition validate_boot :: "WorkerRegistry \<Rightarrow> WorkerId \<Rightarrow> WorkerBootId \<Rightarrow> bool" where
  "validate_boot s i claimed_boot =
     (case om_find (wr_workers s) i of
        None \<Rightarrow> False
      | Some w \<Rightarrow> wk_alive w \<and> wk_boot_id w = claimed_boot)"

definition incarnation_of :: "WorkerRegistry \<Rightarrow> WorkerId \<Rightarrow> u64" where
  "incarnation_of s i = (case om_find (wr_workers s) i of None \<Rightarrow> 0 | Some w \<Rightarrow> wk_incarnation w)"

definition all_workers :: "WorkerRegistry \<Rightarrow> Worker list" where
  "all_workers s = om_values (wr_workers s)"

definition live_count :: "WorkerRegistry \<Rightarrow> nat" where
  "live_count s = length (filter wk_alive (om_values (wr_workers s)))"

section \<open>Runs\<close>

text \<open>
  One call of a method, in any order, with any result. The counter is below its maximum:
  \<open>2 ^ 64\<close> incarnations are not reached. The last rule is a write through \<open>find_mut\<close>,
  which no caller uses to change the identity of a worker.
\<close>

inductive registry_step :: "WorkerRegistry \<Rightarrow> WorkerRegistry \<Rightarrow> bool" where
  register: "wr_next_boot s \<noteq> - 1 \<Longrightarrow> register_worker i pid s = (s', r) \<Longrightarrow> registry_step s s'"
| restart: "wr_next_boot s \<noteq> - 1 \<Longrightarrow> restart_worker i pid s = (s', r) \<Longrightarrow> registry_step s s'"
| dead: "registry_step s (mark_dead i boot s)"
| field_write: "(\<And>w. wk_id (f w) = wk_id w \<and> wk_boot_id (f w) = wk_boot_id w) \<Longrightarrow> registry_step s (update_worker i f s)"

definition boots :: "WorkerRegistry \<Rightarrow> u64 set" where
  "boots s = {id_value (wk_boot_id w) | i w. om_find (wr_workers s) i = Some w}"

definition registry_inv :: "WorkerRegistry \<Rightarrow> bool" where
  "registry_inv s \<longleftrightarrow>
     (\<forall>i w. om_find (wr_workers s) i = Some w \<longrightarrow>
        id_valid i \<and> wk_id w = i \<and> id_valid (wk_boot_id w) \<and> id_value (wk_boot_id w) < wr_next_boot s)
     \<and> (\<forall>i j w v. om_find (wr_workers s) i = Some w \<longrightarrow> om_find (wr_workers s) j = Some v \<longrightarrow>
          wk_boot_id w = wk_boot_id v \<longrightarrow> i = j)
     \<and> 0 < wr_next_boot s"

lemmas registry_op_defs [op_defs] = register_worker_def restart_worker_def restore_worker_def mark_dead_def
  update_worker_def

lemma next_incarnation_fields [simp]:
  "wk_id (next_incarnation boot pid w) = wk_id w" "wk_boot_id (next_incarnation boot pid w) = Id boot"
  "wk_alive (next_incarnation boot pid w)"
  by (simp_all add: next_incarnation_def)

lemma register_worker_effect:
  assumes "register_worker i pid s = (s', r)"
  shows "s' = s \<or> (\<exists>w. id_valid i \<and> wk_id w = i \<and> wk_boot_id w = Id (wr_next_boot s)
           \<and> s' = s\<lparr>wr_workers := om_insert i w (wr_workers s), wr_next_boot := wr_next_boot s + 1\<rparr>)"
  using assms by (force simp: register_worker_def Let_def split: if_splits)

lemma restart_worker_effect:
  assumes "restart_worker i pid s = (s', r)"
  shows "s' = s \<or> (\<exists>w old. id_valid i \<and> om_find (wr_workers s) i = Some old \<and> wk_id w = wk_id old
           \<and> wk_boot_id w = Id (wr_next_boot s)
           \<and> s' = s\<lparr>wr_workers := om_insert i w (wr_workers s), wr_next_boot := wr_next_boot s + 1\<rparr>)"
proof (cases "id_valid i \<and> om_find (wr_workers s) i \<noteq> None")
  case True
  then obtain old where "om_find (wr_workers s) i = Some old" and "id_valid i" by blast
  with assms show ?thesis
    by (intro disjI2 exI [of _ "next_incarnation (wr_next_boot s) pid old"] exI [of _ old])
      (simp add: restart_worker_def Let_def)
next
  case False
  with assms show ?thesis by (auto simp: restart_worker_def split: if_splits)
qed

lemma update_worker_effect:
  assumes "\<And>w. wk_id (f w) = wk_id w \<and> wk_boot_id (f w) = wk_boot_id w"
  shows "update_worker i f s = s \<or> (\<exists>j w old. om_find (wr_workers s) j = Some old \<and> wk_id w = wk_id old
           \<and> wk_boot_id w = wk_boot_id old \<and> update_worker i f s = s\<lparr>wr_workers := om_insert j w (wr_workers s)\<rparr>)"
proof (cases "om_find (wr_workers s) i")
  case (Some old)
  then show ?thesis
    using assms [of old] by (intro disjI2 exI [of _ i] exI [of _ "f old"] exI [of _ old]) (simp add: update_worker_def)
qed (simp add: update_worker_def)

lemma mark_dead_update: "mark_dead i boot s = s \<or> mark_dead i boot s = update_worker i (wk_alive_update (\<lambda>_. False)) s"
  by (simp add: mark_dead_def update_worker_def split: option.split)

text \<open>Every step leaves the registry alone, stores a worker with a fresh boot, or rewrites a
  worker and keeps its identity.\<close>

lemma registry_step_effect:
  assumes "registry_step s s'" and "registry_inv s"
  shows "s' = s
    \<or> (\<exists>w. id_valid (wk_id w) \<and> wk_boot_id w = Id (wr_next_boot s) \<and> wr_next_boot s \<noteq> - 1
        \<and> s' = s\<lparr>wr_workers := om_insert (wk_id w) w (wr_workers s), wr_next_boot := wr_next_boot s + 1\<rparr>)
    \<or> (\<exists>i w old. om_find (wr_workers s) i = Some old \<and> wk_id w = wk_id old \<and> wk_boot_id w = wk_boot_id old
        \<and> s' = s\<lparr>wr_workers := om_insert i w (wr_workers s)\<rparr>)"
proof -
  have ids: "wk_id old = i" if "om_find (wr_workers s) i = Some old" for i old
    using assms(2) that by (simp add: registry_inv_def)
  from assms(1) show ?thesis
  proof cases
    case (register i pid r)
    then show ?thesis using register_worker_effect [of i pid s s' r] by blast
  next
    case (restart i pid r)
    then show ?thesis using restart_worker_effect [of i pid s s' r] ids by metis
  next
    case (dead i boot)
    let ?u = "update_worker i (wk_alive_update (\<lambda>_. False)) s"
    have "?u = s \<or> (\<exists>j w old. om_find (wr_workers s) j = Some old \<and> wk_id w = wk_id old
        \<and> wk_boot_id w = wk_boot_id old \<and> ?u = s\<lparr>wr_workers := om_insert j w (wr_workers s)\<rparr>)"
      by (rule update_worker_effect) simp
    with dead mark_dead_update [of i boot s] show ?thesis by metis
  next
    case (field_write f i)
    then show ?thesis using update_worker_effect [of f i s] by metis
  qed
qed

lemma registry_step_cases [consumes 2, case_names same fresh kept]:
  assumes "registry_step s s'" and "registry_inv s"
  obtains "s' = s"
  | w where "id_valid (wk_id w)" "wk_boot_id w = Id (wr_next_boot s)" "wr_next_boot s \<noteq> - 1"
      "s' = s\<lparr>wr_workers := om_insert (wk_id w) w (wr_workers s), wr_next_boot := wr_next_boot s + 1\<rparr>"
  | i w old where "om_find (wr_workers s) i = Some old" "wk_id w = wk_id old" "wk_boot_id w = wk_boot_id old"
      "s' = s\<lparr>wr_workers := om_insert i w (wr_workers s)\<rparr>"
  using registry_step_effect [OF assms] by blast

text \<open>The invariant through the entries of the map.\<close>

definition entry_ok :: "u64 \<Rightarrow> WorkerId \<Rightarrow> Worker \<Rightarrow> bool" where
  "entry_ok nb i w \<longleftrightarrow> id_valid i \<and> wk_id w = i \<and> id_valid (wk_boot_id w) \<and> id_value (wk_boot_id w) < nb"

lemma registry_inv_iff:
  "registry_inv s \<longleftrightarrow>
     (\<forall>i w. om_find (wr_workers s) i = Some w \<longrightarrow> entry_ok (wr_next_boot s) i w)
     \<and> (\<forall>i j w v. om_find (wr_workers s) i = Some w \<longrightarrow> om_find (wr_workers s) j = Some v \<longrightarrow> i \<noteq> j \<longrightarrow>
          wk_boot_id w \<noteq> wk_boot_id v)
     \<and> 0 < wr_next_boot s"
  unfolding registry_inv_def entry_ok_def by blast

lemma entry_ok_mono: "entry_ok nb i w \<Longrightarrow> nb < nb' \<Longrightarrow> entry_ok nb' i w"
  by (auto simp: entry_ok_def intro: less_trans)

lemma registry_inv_fresh:
  assumes "registry_inv s" and "id_valid (wk_id w)" and "wk_boot_id w = Id (wr_next_boot s)"
    and "wr_next_boot s \<noteq> - 1"
  shows "registry_inv (s\<lparr>wr_workers := om_insert (wk_id w) w (wr_workers s), wr_next_boot := wr_next_boot s + 1\<rparr>)"
proof -
  have lt: "wr_next_boot s < wr_next_boot s + 1" by (rule word_less_succ) (rule assms(4))
  have pos: "0 < wr_next_boot s" and
    old: "\<And>j v. om_find (wr_workers s) j = Some v \<Longrightarrow> entry_ok (wr_next_boot s) j v"
    using assms(1) by (simp_all add: registry_inv_iff)
  have ne: "wk_boot_id v \<noteq> wk_boot_id w" if "om_find (wr_workers s) j = Some v" for j v
    using old [OF that] assms(3) by (auto simp: entry_ok_def)
  have new: "entry_ok (wr_next_boot s + 1) (wk_id w) w"
    using assms(2,3) lt pos by (simp add: entry_ok_def)
  have kept: "entry_ok (wr_next_boot s + 1) j v" if "om_find (wr_workers s) j = Some v" for j v
    using entry_ok_mono [OF old [OF that] lt] .
  have ne': "wk_boot_id w \<noteq> wk_boot_id v" if "om_find (wr_workers s) j = Some v" for j v
    using ne [OF that] by simp
  show ?thesis
    unfolding registry_inv_iff using assms(1) less_trans [OF pos lt]
    by (auto simp: registry_inv_iff new kept ne ne' split: if_splits)
qed

lemma registry_inv_kept:
  assumes "registry_inv s" and "om_find (wr_workers s) i = Some old" and "wk_id w = wk_id old"
    and "wk_boot_id w = wk_boot_id old"
  shows "registry_inv (s\<lparr>wr_workers := om_insert i w (wr_workers s)\<rparr>)"
proof -
  have "entry_ok nb i w = entry_ok nb i old" for nb using assms(3,4) by (simp add: entry_ok_def)
  with assms show ?thesis unfolding registry_inv_iff by (auto split: if_splits)
qed

lemma empty_registry_inv: "registry_inv empty_registry"
  by (simp add: registry_inv_def empty_registry_def)

interpretation boot_ids: id_source registry_step registry_inv wr_next_boot boots
proof unfold_locales
  show "registry_inv s'" if "registry_step s s'" "registry_inv s" for s s'
    using that(1,2,2) by (cases rule: registry_step_cases) (auto intro: registry_inv_fresh registry_inv_kept)
  show "i < wr_next_boot s" if "registry_inv s" "i \<in> boots s" for s i
    using that by (auto simp: registry_inv_def boots_def)
  show "wr_next_boot s \<le> wr_next_boot s'" if "registry_step s s'" "registry_inv s" for s s'
    using that by (cases rule: registry_step_cases) (auto intro: less_imp_le word_less_succ)
  show "i \<in> boots s \<or> wr_next_boot s \<le> i" if "registry_step s s'" "registry_inv s" "i \<in> boots s'" for s s' i
  proof -
    from that(3) obtain j v where v: "om_find (wr_workers s') j = Some v" and i: "i = id_value (wk_boot_id v)"
      by (auto simp: boots_def)
    from that(1,2) show ?thesis
      by (cases rule: registry_step_cases) (use v i in \<open>auto simp: boots_def split: if_splits\<close>)
  qed
qed

text \<open>
  In every run of the registry from its initial state the current boots of different
  workers are different, valid and below the counter, and every worker is stored under
  its own valid identifier.
\<close>

theorem registry_boots_unique:
  assumes "registry_step\<^sup>*\<^sup>* empty_registry s"
    and "find_worker s i = Some w" and "find_worker s j = Some v" and "i \<noteq> j"
  shows "wk_id w = i \<and> id_valid (wk_boot_id w) \<and> wk_boot_id w \<noteq> wk_boot_id v \<and> id_value (wk_boot_id w) < wr_next_boot s"
  using boot_ids.run_inv [OF assms(1) empty_registry_inv] assms(2-4)
  by (auto simp: registry_inv_def find_worker_def)

definition sample_registry :: WorkerRegistry where
  "sample_registry = fst (register_worker (Id 2) (Id 11) (fst (register_worker (Id 1) (Id 10) empty_registry)))"

lemma sample_registry_run: "registry_step\<^sup>*\<^sup>* empty_registry sample_registry"
proof -
  let ?s1 = "fst (register_worker (Id 1) (Id 10) empty_registry)"
  have "wr_next_boot empty_registry \<noteq> - 1" and "wr_next_boot ?s1 \<noteq> - 1"
    by (simp_all add: empty_registry_def register_worker_def Let_def)
  then have "registry_step empty_registry ?s1" and "registry_step ?s1 sample_registry"
    unfolding sample_registry_def by (metis register prod.collapse)+
  then show ?thesis by (meson converse_rtranclp_into_rtranclp r_into_rtranclp)
qed

theorem registry_boots_unique_witness:
  "\<exists>w v. find_worker sample_registry (Id 1) = Some w \<and> find_worker sample_registry (Id 2) = Some v
     \<and> wk_boot_id w \<noteq> wk_boot_id v"
proof -
  obtain w v where w: "find_worker sample_registry (Id 1) = Some w" and v: "find_worker sample_registry (Id 2) = Some v"
    by (simp add: find_worker_def sample_registry_def register_worker_def empty_registry_def Let_def)
  from registry_boots_unique [OF sample_registry_run w v] w v show ?thesis by auto
qed

text \<open>A restart retires the boot of the previous incarnation.\<close>

lemma restarted_boot_retired:
  assumes "registry_inv s" and "find_worker s i = Some w" and "wr_next_boot s \<noteq> - 1" and "restart_worker i pid s = (s1, r)"
    and "id_valid i"
  shows "registry_inv s1" and "id_value (wk_boot_id w) < wr_next_boot s1" and "id_value (wk_boot_id w) \<notin> boots s1"
proof -
  let ?w1 = "next_incarnation (wr_next_boot s) pid w"
  from assms(2,4,5) have s1: "s1 = s\<lparr>wr_workers := om_insert i ?w1 (wr_workers s), wr_next_boot := wr_next_boot s + 1\<rparr>"
    by (simp add: restart_worker_def find_worker_def Let_def)
  show "registry_inv s1" using assms(1,3,4) boot_ids.step_inv restart by blast
  have below: "id_value (wk_boot_id w) < wr_next_boot s"
    using assms(1,2) by (simp add: registry_inv_def find_worker_def)
  then show "id_value (wk_boot_id w) < wr_next_boot s1"
    using word_less_succ(1) [OF assms(3)] by (simp add: s1)
  have "wk_boot_id v \<noteq> wk_boot_id w" if "om_find (wr_workers s1) k = Some v" for k v
  proof (cases "k = i")
    case True
    with that have "wk_boot_id v = Id (wr_next_boot s)" by (auto simp: s1)
    with below show ?thesis by (metis Id.sel less_irrefl)
  next
    case False
    with that assms(1,2) show ?thesis by (auto simp: s1 registry_inv_def find_worker_def)
  qed
  then show "id_value (wk_boot_id w) \<notin> boots s1"
    by (auto simp: boots_def) (metis Id.expand)
qed

lemma retired_boot_invalid: "id_value boot \<notin> boots s \<Longrightarrow> \<not> validate_boot s j boot"
  by (auto simp: validate_boot_def boots_def split: option.splits)



end
