(* ===== verification/Runtime.thy ===== *)
theory Runtime
  imports Migration Placement Persistence Worker_Registry Reservation_Store
begin

text \<open>
  \<open>runtime/runtime.hpp\<close> and \<open>src/runtime.cpp\<close>: the facade that owns one backend and composes
  topology, memory, workers, reservations, placement and migration. Every operation is a
  definition over the composed state. The file system of \<open>persist\<close> and \<open>recover\<close> is the one of
  theory \<open>Persistence\<close>. The text reports are in theory \<open>Runtime_Report\<close>.
\<close>

section \<open>State\<close>

record 'b Runtime =
  rt_backend :: 'b
  rt_topo :: HostTopology
  rt_accelerators :: "AcceleratorInfo list"
  rt_memory :: MemoryManager
  rt_registry :: WorkerRegistry
  rt_reservations :: ReservationStore
  rt_migrator :: MigrationManager
  rt_epoch :: CoordinatorEpoch
  rt_policy_generation :: u64
  rt_next_placement :: u64
  rt_next_observation :: u64

definition empty_topology :: HostTopology where
  "empty_topology = \<lparr>ht_host_id = invalid_id, ht_generation = gen_initial, ht_groups = [], ht_nodes = [], ht_processors = [],
     ht_system_page_size = qty_zero, ht_allocation_granularity = qty_zero, ht_numa_node_count_certain = False,
     ht_provenance = prov_unknown\<rparr>"

definition new_runtime :: "'b \<Rightarrow> 'b Runtime" where
  "new_runtime b = \<lparr>rt_backend = b, rt_topo = empty_topology, rt_accelerators = [], rt_memory = empty_manager,
     rt_registry = empty_registry, rt_reservations = empty_store, rt_migrator = empty_migrator,
     rt_epoch = Generation 1, rt_policy_generation = 1, rt_next_placement = 1, rt_next_observation = 1\<rparr>"

definition node_capacity_provider :: "'b Runtime \<Rightarrow> node_capacity_fn" where
  "node_capacity_provider s = Some (\<lambda>node.
     case find_node (rt_topo s) node of Some n \<Rightarrow> nn_memory_capacity n | None \<Rightarrow> qty_zero)"

section \<open>Discovery and accelerators\<close>

definition rt_discover :: "'b Backend \<Rightarrow> 'b Runtime \<Rightarrow> ('b Runtime, HostTopology) outcome" where
  "rt_discover be s =
     (case be_discover_host be (rt_backend s) of
        Inl e \<Rightarrow> (s, Inl e)
      | Inr found \<Rightarrow> (s\<lparr>rt_topo := found\<rparr>, Inr found))"

definition rt_snapshot :: "'b Runtime \<Rightarrow> TopologySnapshot" where
  "rt_snapshot s = \<lparr>ts_snapshot_id = Id 1, ts_host = rt_topo s, ts_digest = semantic_digest (rt_topo s), ts_created_ms = 0\<rparr>"

definition refresh_accelerators :: "'b Backend \<Rightarrow> 'b Runtime \<Rightarrow> 'b Runtime" where
  "refresh_accelerators be s = s\<lparr>rt_accelerators := be_enumerate_accelerators be (rt_backend s)\<rparr>"

definition register_accelerators :: "AcceleratorInfo list \<Rightarrow> 'b Runtime \<Rightarrow> 'b Runtime" where
  "register_accelerators accs s = s\<lparr>rt_accelerators := rt_accelerators s @ accs\<rparr>"

definition accelerator_locality :: "'b Runtime \<Rightarrow> AcceleratorId \<Rightarrow> AcceleratorLocality option" where
  "accelerator_locality s i = map_option ai_locality (List.find (\<lambda>a. ai_id a = i) (rt_accelerators s))"

section \<open>Memory\<close>

definition on_memory :: "('b \<times> MemoryManager \<Rightarrow> ('b \<times> MemoryManager, 'a) outcome) \<Rightarrow> 'b Runtime \<Rightarrow> ('b Runtime, 'a) outcome" where
  "on_memory f s = (let ((b, m), r) = f (rt_backend s, rt_memory s) in (s\<lparr>rt_backend := b, rt_memory := m\<rparr>, r))"

definition rt_allocate :: "'b Backend \<Rightarrow> u64 \<Rightarrow> AllocateRequest \<Rightarrow> 'b Runtime \<Rightarrow> ('b Runtime, MemoryRegion) outcome" where
  "rt_allocate be now req = on_memory (mm_allocate be now req)"

definition rt_release :: "'b Backend \<Rightarrow> u64 \<Rightarrow> MemoryRegionId \<Rightarrow> 'b Runtime \<Rightarrow> ('b Runtime, unit) outcome" where
  "rt_release be now i = on_memory (mm_release be now i None)"

definition default_allocate :: AllocateRequest where
  "default_allocate = \<lparr>aq_bytes = qty_zero, aq_alignment = qty_zero, aq_mode = PM_Any, aq_intended_node = invalid_id,
     aq_preferred_node = invalid_id, aq_required_node = invalid_id, aq_interleave_nodes = [], aq_kind = AK_Host,
     aq_touch = True, aq_owning_process = invalid_id, aq_associated_worker = invalid_id,
     aq_associated_accelerator = invalid_id, aq_workload_id = '''', aq_tag = '''', aq_provenance = prov_unknown\<rparr>"

definition allocate_on_node :: "'b Backend \<Rightarrow> u64 \<Rightarrow> Bytes \<Rightarrow> NumaNodeId \<Rightarrow> AllocationKind \<Rightarrow> 'b Runtime \<Rightarrow>
    ('b Runtime, MemoryRegion) outcome" where
  "allocate_on_node be now bytes node kind = rt_allocate be now (default_allocate\<lparr>aq_bytes := bytes, aq_mode := PM_PreferredNode,
     aq_preferred_node := node, aq_intended_node := node, aq_kind := kind, aq_touch := True, aq_alignment := Quantity (64 * 1024)\<rparr>)"

definition allocated_bytes :: "'b Runtime \<Rightarrow> u64" where
  "allocated_bytes s = total_allocated (rt_memory s)"

definition node_allocated :: "'b Runtime \<Rightarrow> NumaNodeId \<Rightarrow> u64" where
  "node_allocated s n = per_node_allocated (rt_memory s) n"

section \<open>Placement\<close>

definition synthetic_distance :: "NumaNodeId \<Rightarrow> NumaNodeId \<Rightarrow> LocalityCost" where
  "synthetic_distance a b =
     (let av = id_value a; bv = id_value b; diff = (if av > bv then av - bv else bv - av) in Quantity (40 * diff + 60))"

definition model_distance :: "'b Backend \<Rightarrow> NumaNodeId \<Rightarrow> NumaNodeId \<Rightarrow> LocalityCost" where
  "model_distance be a b =
     (if a = b then qty_zero
      else if be_kind be = BK_Synthetic then synthetic_distance a b
      else Quantity 100)"

text \<open>\<open>reserved_capacity[r.node] = reserved_capacity[r.node] + r.bytes\<close>: the sum is a checked
  addition of quantities, so building the model may throw.\<close>

fun reserved_by :: "Reservation list \<Rightarrow> (NumaNodeId, Bytes) omap \<Rightarrow> (NumaNodeId, Bytes) omap result" where
  "reserved_by [] m = Inr m"
| "reserved_by (r # rs) m =
     (if rs_active r
      then rbind (qty_add (case om_find m (rs_node r) of Some q \<Rightarrow> q | None \<Rightarrow> qty_zero) (rs_bytes r))
             (\<lambda>q. reserved_by rs (om_insert (rs_node r) q m))
      else reserved_by rs m)"

definition build_placement_model :: "'b Backend \<Rightarrow> 'b Runtime \<Rightarrow> PlacementModel result" where
  "build_placement_model be s =
     rbind (reserved_by (all_reservations (rt_reservations s)) om_empty) (\<lambda>reserved.
       Inr (empty_model\<lparr>pm_distance := model_distance be,
         pm_node_capacity := fold (\<lambda>n m. om_insert (nn_id n) (nn_memory_capacity n) m) (ht_nodes (rt_topo s)) om_empty,
         pm_node_free := fold (\<lambda>n m. om_insert (nn_id n) (if nn_memory_info_available n then nn_free_memory n else Quantity 0) m)
           (ht_nodes (rt_topo s)) om_empty,
         pm_accelerator_locality := fold (\<lambda>a m. om_insert (ai_id a) (ai_locality a) m) (rt_accelerators s) om_empty,
         pm_reserved_capacity := reserved\<rparr>))"

definition rt_plan :: "'b Backend \<Rightarrow> PlacementRequest \<Rightarrow> 'b Runtime \<Rightarrow> PlacementDecision result" where
  "rt_plan be req s = rbind (build_placement_model be s) (\<lambda>model. Inr (plan (rt_topo s) req model))"

record ExecuteOptions =
  eo_allocate_memory :: bool
  eo_bind_worker :: bool
  eo_verify_memory :: bool
  eo_memory_footprint :: Bytes
  eo_existing_region :: MemoryRegionId

text \<open>The pattern written to real memory, read back and cleared byte by byte; memory returns what was
  written.\<close>

definition pattern_byte :: "nat \<Rightarrow> byte" where
  "pattern_byte i = of_nat (i * 131 + 17)"

fun verify_scan :: "nat \<Rightarrow> byte list \<Rightarrow> byte list \<times> bool" where
  "verify_scan i [] = ([], True)"
| "verify_scan i (b # bs) =
     (if b \<noteq> pattern_byte i then (b # bs, False)
      else let (rest, ok) = verify_scan (i + 1) bs in (0 # rest, ok))"

definition verify_pattern :: "nat \<Rightarrow> bool" where
  "verify_pattern n = snd (verify_scan 0 (map pattern_byte [0..<n]))"

definition placed_text :: "PlacementDecision \<Rightarrow> string" where
  "placed_text d = placement_decision_to_string (pd_kind d) @ '' -> node '' @ std_to_string (id_value (pd_selected_node d))
     @ '' (penalty '' @ std_to_string (qty_value (pd_expected_penalty d)) @ '')''"

definition region_text :: "ExecuteOptions \<Rightarrow> MemoryRegion \<Rightarrow> string" where
  "region_text opts r =
     (if eo_verify_memory opts \<and> mr_kind r \<noteq> AK_Synthetic \<and> ar_ptr_valid (mr_backend_result r) \<and> ar_ptr (mr_backend_result r) \<noteq> 0
      then '' region='' @ std_to_string (id_value (mr_id r)) @ '' granted='' @ std_to_string (qty_value (mr_granted_bytes r))
           @ '' verify='' @ (if verify_pattern (unat (qty_value (mr_granted_bytes r))) then ''ok'' else ''FAILED'')
      else '' region='' @ std_to_string (id_value (mr_id r)) @ '' kind='' @ allocation_kind_to_string (mr_kind r))"

definition footprint_request :: "PlacementDecision \<Rightarrow> ExecuteOptions \<Rightarrow> AllocateRequest" where
  "footprint_request d opts = default_allocate\<lparr>aq_bytes := eo_memory_footprint opts, aq_mode := PM_RequiredNode,
     aq_required_node := pd_selected_node d, aq_preferred_node := pd_selected_node d, aq_intended_node := pd_selected_node d,
     aq_touch := True, aq_alignment := Quantity (64 * 1024), aq_provenance := pd_provenance d\<rparr>"

definition rt_execute :: "'b Backend \<Rightarrow> u64 \<Rightarrow> PlacementDecision \<Rightarrow> ExecuteOptions \<Rightarrow> 'b Runtime \<Rightarrow> ('b Runtime, string) outcome" where
  "rt_execute be now d opts s =
     (case pd_kind d of
        PD_Reject \<Rightarrow> (s, Inr (''REJECT: '' @ pd_reason d))
      | PD_Defer \<Rightarrow> (s, Inr (''DEFER: '' @ pd_reason d))
      | PD_RevalidationRequired \<Rightarrow> (s, Inr (''REVALIDATION_REQUIRED: '' @ pd_reason d))
      | _ \<Rightarrow>
          let bind_text = (if eo_bind_worker opts then '' (binding delegated to bind_worker)'' else '''') in
          if eo_allocate_memory opts
          then (case rt_allocate be now (footprint_request d opts) s of
                  (s, Inl e) \<Rightarrow> (s, Inl e)
                | (s, Inr region) \<Rightarrow> (s, Inr (placed_text d @ region_text opts region @ bind_text)))
          else (s, Inr (placed_text d @ bind_text)))"

section \<open>Reservations and workers\<close>

definition rt_reserve :: "ReserveRequest \<Rightarrow> 'b Runtime \<Rightarrow> ('b Runtime, Reservation) outcome" where
  "rt_reserve req s = (let (st, r) = reserve (node_capacity_provider s) req (rt_reservations s) in (s\<lparr>rt_reservations := st\<rparr>, r))"

definition release_reservation :: "ReservationId \<Rightarrow> 'b Runtime \<Rightarrow> ('b Runtime, unit) outcome" where
  "release_reservation i s = (let (st, r) = release i None (rt_reservations s) in (s\<lparr>rt_reservations := st\<rparr>, r))"

definition reserved_bytes :: "'b Runtime \<Rightarrow> u64" where
  "reserved_bytes s = total_reserved_memory (rt_reservations s)"

definition reservations_clean :: "'b Runtime \<Rightarrow> bool" where
  "reservations_clean s \<longleftrightarrow> accounting_clean (rt_reservations s)"

definition node_reserved :: "'b Runtime \<Rightarrow> NumaNodeId \<Rightarrow> u64" where
  "node_reserved s n = node_reserved_memory (rt_reservations s) n"

definition rt_register_worker :: "WorkerId \<Rightarrow> ProcessId \<Rightarrow> 'b Runtime \<Rightarrow> ('b Runtime, Worker) outcome" where
  "rt_register_worker i pid s = (let (g, r) = register_worker i pid (rt_registry s) in (s\<lparr>rt_registry := g\<rparr>, r))"

definition rt_restart_worker :: "WorkerId \<Rightarrow> ProcessId \<Rightarrow> 'b Runtime \<Rightarrow> ('b Runtime, Worker) outcome" where
  "rt_restart_worker i pid s = (let (g, r) = restart_worker i pid (rt_registry s) in (s\<lparr>rt_registry := g\<rparr>, r))"

definition mark_worker_dead :: "WorkerId \<Rightarrow> WorkerBootId \<Rightarrow> 'b Runtime \<Rightarrow> 'b Runtime" where
  "mark_worker_dead i boot s = s\<lparr>rt_registry := mark_dead i boot (rt_registry s)\<rparr>"

definition rt_worker :: "'b Runtime \<Rightarrow> WorkerId \<Rightarrow> Worker option" where
  "rt_worker s i = find_worker (rt_registry s) i"

definition rt_workers :: "'b Runtime \<Rightarrow> Worker list" where
  "rt_workers s = all_workers (rt_registry s)"

record BindResult =
  br_binding_id :: BindingId
  br_generation :: BindingGeneration
  br_applied :: bool

fun node_affinity :: "NumaNodeId \<Rightarrow> Processor list \<Rightarrow> AffinitySet \<Rightarrow> AffinitySet result" where
  "node_affinity node [] aff = Inr aff"
| "node_affinity node (p # ps) aff =
     (if pr_node p = node
      then case add_processor (pr_group p) (qty_value (pr_index_in_group p)) aff of
             (aff, Inl e) \<Rightarrow> Inl e
           | (aff, Inr _) \<Rightarrow> node_affinity node ps aff
      else node_affinity node ps aff)"

definition bound_worker :: "BindResult \<Rightarrow> NumaNodeId \<Rightarrow> AffinitySet \<Rightarrow> Worker \<Rightarrow> Worker" where
  "bound_worker r node aff w = w\<lparr>wk_binding_id := br_binding_id r, wk_binding_generation := br_generation r, wk_node := node,
     wk_bound := True, wk_requested_affinity := aff, wk_current_affinity := aff\<rparr>"

definition bind_worker :: "'b Backend \<Rightarrow> WorkerId \<Rightarrow> WorkerBootId \<Rightarrow> NumaNodeId \<Rightarrow> bool \<Rightarrow> 'b Runtime \<Rightarrow> ('b Runtime, BindResult) outcome" where
  "bind_worker be i boot node apply_affinity s =
     (if \<not> validate_boot (rt_registry s) i boot
      then (s, Inl (RuntimeError (''stale worker boot for binding '' @ id_to_string i)))
      else if find_node (rt_topo s) node = None
      then (s, Inl (RuntimeError (''cannot bind to unknown node '' @ id_to_string node)))
      else case node_affinity node (ht_processors (rt_topo s)) [] of
        Inl e \<Rightarrow> (s, Inl e)
      | Inr aff \<Rightarrow>
          let (b, applied) = (if apply_affinity then be_apply_thread_affinity be aff (rt_backend s) else (rt_backend s, False));
              s = s\<lparr>rt_backend := b\<rparr> in
          case (case find_worker (rt_registry s) i of
                  Some w \<Rightarrow> rbind (gen_next (wk_binding_generation w)) (\<lambda>g. Inr (Generation (gen_value g)))
                | None \<Rightarrow> Inr (Generation 1)) of
            Inl e \<Rightarrow> (s, Inl e)
          | Inr gen \<Rightarrow>
              let r = \<lparr>br_binding_id = Id (rt_next_placement s), br_generation = gen, br_applied = applied\<rparr>
              in (s\<lparr>rt_registry := update_worker i (bound_worker r node aff) (rt_registry s)\<rparr>, Inr r))"

definition rt_observe :: "WorkerId \<Rightarrow> WorkerBootId \<Rightarrow> NumaNodeId \<Rightarrow> ProvenanceSource \<Rightarrow> bool \<Rightarrow> 'b Runtime \<Rightarrow> 'b Runtime" where
  "rt_observe i boot node source stale s =
     (case find_worker (rt_registry s) i of
        None \<Rightarrow> s
      | Some w \<Rightarrow>
          if wk_boot_id w = boot
          then s\<lparr>rt_registry := update_worker i (\<lambda>w. w\<lparr>wk_last_observation_generation := Generation (rt_next_observation s)\<rparr>) (rt_registry s),
                 rt_next_observation := rt_next_observation s + 1\<rparr>
          else s)"

section \<open>Migration and authority\<close>

record Auth =
  au_epoch :: CoordinatorEpoch
  au_boot :: WorkerBootId

definition migrate_request :: "'b Runtime \<Rightarrow> MemoryRegionId \<Rightarrow> NumaNodeId \<Rightarrow> WorkerId \<Rightarrow> Auth \<Rightarrow> string \<Rightarrow> MigrateRequest" where
  "migrate_request s region target worker auth reason = \<lparr>mq_worker = worker, mq_worker_boot = au_boot auth, mq_epoch = rt_epoch s,
     mq_memory_region = region, mq_source_node = invalid_id, mq_target_node = target, mq_source_placement = invalid_id,
     mq_source_generation = gen_initial, mq_policy_generation = gen_invalid, mq_reason = reason, mq_copy_data = True\<rparr>"

definition on_migrator :: "('b migration_state \<Rightarrow> ('b migration_state, 'a) outcome) \<Rightarrow> 'b Runtime \<Rightarrow> ('b Runtime, 'a) outcome" where
  "on_migrator f s = (let (((b, m), g), r) = f ((rt_backend s, rt_memory s), rt_migrator s)
                      in (s\<lparr>rt_backend := b, rt_memory := m, rt_migrator := g\<rparr>, r))"

definition rt_migrate :: "'b Backend \<Rightarrow> u64 \<Rightarrow> MemoryRegionId \<Rightarrow> NumaNodeId \<Rightarrow> WorkerId \<Rightarrow> Auth \<Rightarrow> string \<Rightarrow> 'b Runtime \<Rightarrow>
    ('b Runtime, bool) outcome" where
  "rt_migrate be now region target worker auth reason s =
     (if \<not> validate_boot (rt_registry s) worker (au_boot auth) then (s, Inl (RuntimeError ''stale boot for migration''))
      else case on_migrator (mig_begin now (migrate_request s region target worker auth reason)) s of
        (s, Inl e) \<Rightarrow> (s, Inl e)
      | (s, Inr attempt) \<Rightarrow>
          case on_migrator (mig_execute be now attempt) s of
            (s, Inl e) \<Rightarrow> (s, Inl e)
          | (s, Inr _) \<Rightarrow> (s, Inr (case get_attempt (rt_migrator s) attempt of None \<Rightarrow> False | Some m \<Rightarrow> ma_committed m)))"

definition advance_epoch :: "'b Runtime \<Rightarrow> ('b Runtime, unit) outcome" where
  "advance_epoch s = (case gen_next (rt_epoch s) of Inl e \<Rightarrow> (s, Inl e) | Inr g \<Rightarrow> (s\<lparr>rt_epoch := g\<rparr>, Inr ()))"

definition advance_policy_generation :: "'b Runtime \<Rightarrow> 'b Runtime" where
  "advance_policy_generation s = s\<lparr>rt_policy_generation := rt_policy_generation s + 1\<rparr>"

section \<open>Persistence\<close>

definition persisted_worker :: "Worker \<Rightarrow> PersistedWorker" where
  "persisted_worker w = \<lparr>pw_id = wk_id w, pw_boot = wk_boot_id w, pw_incarnation = wk_incarnation w, pw_alive = wk_alive w,
     pw_node = wk_node w, pw_placement_generation = wk_placement_generation w, pw_binding_generation = wk_binding_generation w,
     pw_policy_generation = wk_policy_generation w, pw_live_generation = gen_value (wk_last_observation_generation w)\<rparr>"

definition persisted_reservation :: "Reservation \<Rightarrow> PersistedReservation" where
  "persisted_reservation r = \<lparr>ps_id = rs_id r, ps_node = rs_node r, ps_bytes = qty_value (rs_bytes r), ps_cpu_slots = rs_cpu_slots r,
     ps_accelerator = rs_accelerator r, ps_accelerator_capacity = rs_accelerator_capacity r, ps_generation = rs_generation r,
     ps_active = rs_active r\<rparr>"

definition persisted_state :: "'b Runtime \<Rightarrow> PersistedState" where
  "persisted_state s = \<lparr>st_coordinator_epoch = gen_value (rt_epoch s), st_host_generation = gen_value (ht_generation (rt_topo s)),
     st_policy_generation = rt_policy_generation s, st_workers = map persisted_worker (all_workers (rt_registry s)),
     st_reservations = map persisted_reservation (filter rs_active (all_reservations (rt_reservations s))),
     st_placements = [], st_observations = []\<rparr>"

definition persist :: "SaveEnv \<Rightarrow> string \<Rightarrow> 'b Runtime \<Rightarrow> files \<Rightarrow> (files, unit) outcome" where
  "persist env path s fs = save env (persisted_state s) path fs"

definition recovered_worker :: "PersistedWorker \<Rightarrow> Worker" where
  "recovered_worker pw = default_worker\<lparr>wk_id := pw_id pw, wk_boot_id := pw_boot pw, wk_incarnation := pw_incarnation pw,
     wk_alive := pw_alive pw, wk_node := pw_node pw, wk_placement_generation := pw_placement_generation pw,
     wk_binding_generation := pw_binding_generation pw, wk_policy_generation := pw_policy_generation pw,
     wk_last_observation_generation := Generation (pw_live_generation pw)\<rparr>"

definition recovered :: "PersistedReservation \<Rightarrow> Reservation" where
  "recovered pr = \<lparr>rs_id = ps_id pr, rs_node = ps_node pr, rs_bytes = Quantity (ps_bytes pr), rs_cpu_slots = ps_cpu_slots pr,
     rs_accelerator = ps_accelerator pr, rs_accelerator_capacity = ps_accelerator_capacity pr, rs_generation = ps_generation pr,
     rs_owner = invalid_id, rs_worker = invalid_id, rs_active = ps_active pr, rs_created_ms = 0\<rparr>"

fun restore_all :: "('x \<Rightarrow> 's \<Rightarrow> ('s, bool) outcome) \<Rightarrow> 'x list \<Rightarrow> 's \<Rightarrow> ('s, unit) outcome" where
  "restore_all f [] s = (s, Inr ())"
| "restore_all f (x # xs) s = (case f x s of (s, Inl e) \<Rightarrow> (s, Inl e) | (s, Inr _) \<Rightarrow> restore_all f xs s)"

definition recover_state :: "u64 \<Rightarrow> PersistedState \<Rightarrow> 'b Runtime \<Rightarrow> ('b Runtime, unit) outcome" where
  "recover_state now st s =
     (let s = s\<lparr>rt_epoch := Generation (st_coordinator_epoch st), rt_policy_generation := st_policy_generation st\<rparr> in
      case restore_all (\<lambda>pw. restore_worker (recovered_worker pw)) (st_workers st) (rt_registry s) of
        (g, Inl e) \<Rightarrow> (s\<lparr>rt_registry := g\<rparr>, Inl e)
      | (g, Inr _) \<Rightarrow>
          let s = s\<lparr>rt_registry := g\<rparr> in
          case restore_all (\<lambda>pr. restore (node_capacity_provider s) (recovered pr)) (st_reservations st) (rt_reservations s) of
            (r, Inl e) \<Rightarrow> (s\<lparr>rt_reservations := r\<rparr>, Inl e)
          | (r, Inr _) \<Rightarrow> (s\<lparr>rt_reservations := r, rt_memory := invalidate_locality_stale now (rt_memory s)\<rparr>, Inr ()))"

definition recover :: "u64 \<Rightarrow> string \<Rightarrow> files \<Rightarrow> 'b Runtime \<Rightarrow> ('b Runtime, unit) outcome" where
  "recover now path fs s = (case load path fs of Inl e \<Rightarrow> (s, Inl e) | Inr st \<Rightarrow> recover_state now st s)"

definition memory_accounting_clean :: "'b Runtime \<Rightarrow> bool" where
  "memory_accounting_clean s \<longleftrightarrow> mm_accounting_clean (rt_memory s)"

definition fully_clean :: "'b Runtime \<Rightarrow> bool" where
  "fully_clean s \<longleftrightarrow> mm_accounting_clean (rt_memory s) \<and> accounting_clean (rt_reservations s)"

end
