(* ===== verification/Runtime_Safety.thy ===== *)
theory Runtime_Safety
  imports Runtime
begin

text \<open>
  What the composed runtime guarantees. \<open>rt_step\<close> is one call of the facade; a call that
  would exhaust a 64-bit counter is left out. \<open>runtime_inv\<close> joins the invariants of the
  components; it is proved for every backend that meets \<open>host_backend\<close>, which extends the
  contract of the allocator by what binding a thread may do. On top of it: fencing of stale
  workers through the facade, placement against what is reserved, and recovery of what was
  persisted.
\<close>

section \<open>The contract of a host\<close>

locale host_backend = allocator +
  assumes apply_keeps: "be_inv b \<Longrightarrow> be_apply_thread_affinity be aff b = (b', ok) \<Longrightarrow>
    be_inv b' \<and> outstanding b' = outstanding b"

interpretation synthetic_host: host_backend make_synthetic_backend syn_outstanding syn_inv syn_ready
  by unfold_locales (simp add: make_synthetic_backend_def syn_apply_thread_affinity_def)

section \<open>Steps\<close>

definition alloc_room :: "'b Backend \<Rightarrow> ('b \<Rightarrow> bool) \<Rightarrow> AllocateRequest \<Rightarrow> 'b Runtime \<Rightarrow> bool" where
  "alloc_room be ready req s \<longleftrightarrow> ready (rt_backend s) \<and> mm_next_id (rt_memory s) \<noteq> - 1 \<and> gen_value (mm_watermark (rt_memory s)) \<noteq> - 1
     \<and> (\<forall>b res. be_allocate be (spec_of_request req) (rt_backend s) = (b, Inr res) \<longrightarrow>
          usage_room (qty_value (ar_granted_bytes res)) (rt_memory s))"

definition migrate_room :: "('b \<Rightarrow> bool) \<Rightarrow> MemoryRegionId \<Rightarrow> 'b Runtime \<Rightarrow> bool" where
  "migrate_room ready i s \<longleftrightarrow> ready (rt_backend s) \<and> mg_next_attempt (rt_migrator s) \<noteq> - 1
     \<and> (\<forall>r. om_find (mm_regions (rt_memory s)) i = Some r \<longrightarrow>
          gen_value (mr_generation r) \<noteq> - 1 \<and> usage_room (qty_value (mr_granted_bytes r)) (rt_memory s))"

inductive rt_step :: "'b Backend \<Rightarrow> ('b \<Rightarrow> bool) \<Rightarrow> 'b Runtime \<Rightarrow> 'b Runtime \<Rightarrow> bool"
  for be :: "'b Backend" and ready :: "'b \<Rightarrow> bool" where
  rt_discovers: "rt_discover be s = (s', r) \<Longrightarrow> rt_step be ready s s'"
| rt_refreshes: "rt_step be ready s (refresh_accelerators be s)"
| rt_adds: "rt_step be ready s (register_accelerators accs s)"
| rt_allocates: "alloc_room be ready req s \<Longrightarrow> rt_allocate be now req s = (s', r) \<Longrightarrow> rt_step be ready s s'"
| rt_executes: "alloc_room be ready (footprint_request d opts) s \<Longrightarrow> rt_execute be now d opts s = (s', t) \<Longrightarrow> rt_step be ready s s'"
| rt_frees: "rt_release be now i s = (s', u) \<Longrightarrow> rt_step be ready s s'"
| rt_manages: "mm_step be ready (rt_backend s, rt_memory s) (b, m) \<Longrightarrow> rt_step be ready s (s\<lparr>rt_backend := b, rt_memory := m\<rparr>)"
| rt_reserves: "reserve_fits req (rt_reservations s) \<Longrightarrow> sto_next_id (rt_reservations s) \<noteq> - 1 \<Longrightarrow>
     rt_reserve req s = (s', v) \<Longrightarrow> rt_step be ready s s'"
| rt_returns: "release_reservation i s = (s', u) \<Longrightarrow> rt_step be ready s s'"
| rt_registers: "wr_next_boot (rt_registry s) \<noteq> - 1 \<Longrightarrow> rt_register_worker w pid s = (s', x) \<Longrightarrow> rt_step be ready s s'"
| rt_restarts: "wr_next_boot (rt_registry s) \<noteq> - 1 \<Longrightarrow> rt_restart_worker w pid s = (s', x) \<Longrightarrow> rt_step be ready s s'"
| rt_dies: "rt_step be ready s (mark_worker_dead w boot s)"
| rt_binds: "bind_worker be w boot node apply_affinity s = (s', y) \<Longrightarrow> rt_step be ready s s'"
| rt_observes: "rt_step be ready s (rt_observe w boot node source stale s)"
| rt_migrates: "migrate_room ready i s \<Longrightarrow> rt_migrate be now i target w auth reason s = (s', z) \<Longrightarrow> rt_step be ready s s'"
| rt_advances: "advance_epoch s = (s', u) \<Longrightarrow> rt_step be ready s s'"
| rt_changes: "rt_step be ready s (advance_policy_generation s)"

definition runtime_inv :: "('b \<Rightarrow> handle set) \<Rightarrow> ('b \<Rightarrow> bool) \<Rightarrow> 'b Runtime \<Rightarrow> bool" where
  "runtime_inv outstanding be_inv s \<longleftrightarrow> coherent outstanding be_inv (rt_backend s, rt_memory s) \<and> attempts_ok (rt_migrator s)
     \<and> registry_inv (rt_registry s) \<and> store_inv (rt_reservations s)"

section \<open>The workers and the reservations of a step\<close>

lemma on_memory_other [simp]:
  "rt_registry (fst (on_memory f s)) = rt_registry s" "rt_reservations (fst (on_memory f s)) = rt_reservations s"
  "rt_migrator (fst (on_memory f s)) = rt_migrator s" "rt_topo (fst (on_memory f s)) = rt_topo s"
  by (simp_all add: on_memory_def split_beta)

lemma on_migrator_other [simp]:
  "rt_registry (fst (on_migrator f s)) = rt_registry s" "rt_reservations (fst (on_migrator f s)) = rt_reservations s"
  "rt_topo (fst (on_migrator f s)) = rt_topo s"
  by (simp_all add: on_migrator_def split_beta)

lemma execute_memory_only:
  "fst (rt_execute be now d opts s) = s \<or> fst (rt_execute be now d opts s) = fst (rt_allocate be now (footprint_request d opts) s)"
  by (simp add: rt_execute_def Let_def split: PlacementDecisionKind.splits prod.splits sum.splits)

lemma on_migrator_eq:
  assumes "on_migrator f s = (s', r)"
  shows "rt_registry s' = rt_registry s" and "rt_reservations s' = rt_reservations s" and "rt_topo s' = rt_topo s"
    and "f ((rt_backend s, rt_memory s), rt_migrator s) = (((rt_backend s', rt_memory s'), rt_migrator s'), r)"
  using assms by (auto simp: on_migrator_def split: prod.splits)

lemma migrate_cases:
  assumes "rt_migrate be now i target w auth reason s = (s', z)"
  obtains (refused) "s' = s"
    | (begun) r where "on_migrator (mig_begin now (migrate_request s i target w auth reason)) s = (s', r)"
    | (executed) s1 a r where "on_migrator (mig_begin now (migrate_request s i target w auth reason)) s = (s1, Inr a)"
        and "on_migrator (mig_execute be now a) s1 = (s', r)"
  using assms by (auto simp: rt_migrate_def split: prod.splits sum.splits if_splits)

lemma migrate_other:
  assumes "rt_migrate be now i target w auth reason s = (s', z)"
  shows "rt_registry s' = rt_registry s \<and> rt_reservations s' = rt_reservations s"
  using assms
proof (cases rule: migrate_cases)
  case (executed s1 a r)
  then show ?thesis using on_migrator_eq(1,2) by metis
qed (auto dest: on_migrator_eq)

lemma bind_registry:
  "rt_registry (fst (bind_worker be w boot node a s)) = rt_registry s
   \<or> (\<exists>r aff. rt_registry (fst (bind_worker be w boot node a s)) = update_worker w (bound_worker r node aff) (rt_registry s))"
  by (auto simp: bind_worker_def Let_def split: prod.splits sum.splits option.splits if_splits)

lemma bind_other:
  "rt_reservations (fst (bind_worker be w boot node a s)) = rt_reservations s"
  "rt_memory (fst (bind_worker be w boot node a s)) = rt_memory s"
  "rt_migrator (fst (bind_worker be w boot node a s)) = rt_migrator s"
  by (auto simp: bind_worker_def Let_def split: prod.splits sum.splits option.splits)

lemma rt_step_registry:
  assumes "rt_step be ready s s'"
  shows "registry_step\<^sup>*\<^sup>* (rt_registry s) (rt_registry s')"
proof -
  have keep: "wk_id (bound_worker r node aff v) = wk_id v \<and> wk_boot_id (bound_worker r node aff v) = wk_boot_id v" for r node aff v
    by (simp add: bound_worker_def)
  have "rt_registry s' = rt_registry s \<or> registry_step (rt_registry s) (rt_registry s')"
    using assms
  proof cases
    case (rt_binds w boot node a y)
    then show ?thesis
      using bind_registry [of be w boot node a s] field_write [of "bound_worker _ node _", OF keep] by (metis fst_conv)
  next
    case (rt_observes w boot node source stale)
    then show ?thesis by (auto simp: rt_observe_def intro: field_write split: option.splits)
  next
    case (rt_executes d opts now t)
    then show ?thesis using execute_memory_only [of be now d opts s] by (auto simp: rt_allocate_def)
  next
    case (rt_migrates i now target w auth reason z)
    then show ?thesis using migrate_other by metis
  qed (auto simp: rt_discover_def refresh_accelerators_def register_accelerators_def rt_allocate_def rt_release_def on_memory_def
      rt_reserve_def release_reservation_def rt_register_worker_def rt_restart_worker_def mark_worker_dead_def advance_epoch_def
      advance_policy_generation_def split: sum.splits prod.splits intro: register restart dead)
  then show ?thesis by auto
qed

lemma rt_step_store:
  assumes "rt_step be ready s s'"
  shows "rt_reservations s' = rt_reservations s \<or> (\<exists>cap. store_step cap (rt_reservations s) (rt_reservations s'))"
  using assms
proof cases
  case (rt_binds w boot node a y)
  then show ?thesis using bind_other(1) [of be w boot node a s] by simp
next
  case (rt_executes d opts now t)
  then show ?thesis using execute_memory_only [of be now d opts s] by (auto simp: rt_allocate_def)
next
  case (rt_migrates i now target w auth reason z)
  then show ?thesis using migrate_other by metis
next
  case (rt_reserves req v)
  then have "reserve (node_capacity_provider s) req (rt_reservations s) = (rt_reservations s', v)"
    by (auto simp: rt_reserve_def split: prod.splits)
  with rt_reserves show ?thesis by (blast intro: reserving)
next
  case (rt_returns i u)
  then have "release i None (rt_reservations s) = (rt_reservations s', u)"
    by (auto simp: release_reservation_def split: prod.splits)
  then show ?thesis by (blast intro: Reservation_Store.releasing)
qed (auto simp: rt_discover_def refresh_accelerators_def register_accelerators_def rt_allocate_def rt_release_def on_memory_def
    rt_register_worker_def rt_restart_worker_def mark_worker_dead_def advance_epoch_def rt_observe_def
    advance_policy_generation_def split: sum.splits prod.splits option.splits)

section \<open>The invariant of the runtime\<close>

lemma migrate_begin_room:
  assumes "migrate_room ready i s" and "on_migrator (mig_begin now (migrate_request s i target w auth reason)) s = (s1, Inr a)"
    and "attempts_ok (rt_migrator s)"
  shows "ready (rt_backend s1)"
    and "get_attempt (rt_migrator s1) a = Some m \<Longrightarrow> om_find (mm_regions (rt_memory s1)) (ma_memory_region m) = Some reg \<Longrightarrow>
      gen_value (mr_generation reg) \<noteq> - 1 \<and> usage_room (qty_value (mr_granted_bytes reg)) (rt_memory s1)"
  using assms
  by (auto simp: on_migrator_def mig_begin_def mm_transition_def migrate_request_def migrate_room_def get_attempt_def put_attempt_def
      attempt_of_def usage_room_def Let_def split: prod.splits sum.splits if_splits option.splits)

lemma migrate_steps:
  assumes "migrate_room ready i s" and "rt_migrate be now i target w auth reason s = (s', z)" and "attempts_ok (rt_migrator s)"
  shows "(mig_step be ready)\<^sup>*\<^sup>* ((rt_backend s, rt_memory s), rt_migrator s) ((rt_backend s', rt_memory s'), rt_migrator s')"
  using assms(2)
proof (cases rule: migrate_cases)
  case (begun r)
  from beginning [OF _ on_migrator_eq(4) [OF begun]] assms(1) show ?thesis by (auto simp: migrate_room_def)
next
  case (executed s1 a r)
  note room = migrate_begin_room [OF assms(1) executed(1) assms(3)]
  have "mig_step be ready ((rt_backend s, rt_memory s), rt_migrator s) ((rt_backend s1, rt_memory s1), rt_migrator s1)"
    using beginning [OF _ on_migrator_eq(4) [OF executed(1)]] assms(1) by (simp add: migrate_room_def)
  moreover have "mig_step be ready ((rt_backend s1, rt_memory s1), rt_migrator s1) ((rt_backend s', rt_memory s'), rt_migrator s')"
    by (rule executing [where ready = ready, OF room(1) _ on_migrator_eq(4) [OF executed(2)]]) (rule room(2))
  ultimately show ?thesis by (meson converse_rtranclp_into_rtranclp r_into_rtranclp)
qed simp

context host_backend
begin

lemma memory_step_inv:
  assumes "runtime_inv outstanding be_inv s" and "mm_step be ready (rt_backend s, rt_memory s) (b, m)"
  shows "runtime_inv outstanding be_inv (s\<lparr>rt_backend := b, rt_memory := m\<rparr>)"
  using assms step_joined [OF assms(2)] by (simp add: runtime_inv_def)

lemma allocate_inv:
  assumes "runtime_inv outstanding be_inv s" and "alloc_room be ready req s"
  shows "runtime_inv outstanding be_inv (fst (rt_allocate be now req s))"
proof -
  obtain b m r where a: "mm_allocate be now req (rt_backend s, rt_memory s) = ((b, m), r)" by (metis prod.exhaust)
  have "mm_step be ready (rt_backend s, rt_memory s) (b, m)"
    using assms(2) by (intro allocating [where ready = ready, OF _ _ _ _ a]) (auto simp: alloc_room_def)
  from memory_step_inv [OF assms(1) this] a show ?thesis by (simp add: rt_allocate_def on_memory_def)
qed

lemma migrate_inv:
  assumes "runtime_inv outstanding be_inv s" and "migrate_room ready i s" and "rt_migrate be now i target w auth reason s = (s', z)"
  shows "runtime_inv outstanding be_inv s'"
proof -
  have ok: "attempts_ok (rt_migrator s)" using assms(1) by (simp add: runtime_inv_def)
  note run = migrate_steps [OF assms(2,3) ok]
  have mem: "(mm_step be ready)\<^sup>*\<^sup>* (fst t) (fst t')" if "(mig_step be ready)\<^sup>*\<^sup>* t t'" for t t'
    using that by (induction rule: rtranclp_induct) (auto dest: mig_step_memory)
  have step: "(mm_step be ready)\<^sup>*\<^sup>* (rt_backend s, rt_memory s) (rt_backend s', rt_memory s')" using mem [OF run] by simp
  have "coherent outstanding be_inv (rt_backend s', rt_memory s')"
    by (rule run_coherent [OF allocator_axioms step]) (use assms(1) in \<open>simp only: runtime_inv_def\<close>)
  moreover have "attempts_ok (rt_migrator s')" using migrations.run_inv [OF run] ok by simp
  ultimately show ?thesis using assms(1) migrate_other [OF assms(3)] by (simp add: runtime_inv_def)
qed

lemma bind_inv:
  assumes "runtime_inv outstanding be_inv s"
  shows "be_inv (rt_backend (fst (bind_worker be w boot node a s)))
    \<and> outstanding (rt_backend (fst (bind_worker be w boot node a s))) = outstanding (rt_backend s)"
  using assms apply_keeps [of "rt_backend s"]
  by (auto simp: bind_worker_def runtime_inv_def Let_def split: prod.splits sum.splits option.splits if_splits)

lemma rt_step_inv:
  assumes step: "rt_step be ready s s'" and inv: "runtime_inv outstanding be_inv s"
  shows "runtime_inv outstanding be_inv s'"
proof -
  have reg: "registry_inv (rt_registry s')"
    using rt_step_registry [OF step] inv boot_ids.run_inv by (auto simp: runtime_inv_def)
  have sto: "store_inv (rt_reservations s')"
    using rt_step_store [OF step] inv store_step_inv by (auto simp: runtime_inv_def)
  have rest: "runtime_inv outstanding be_inv s'" if "rt_backend s' = rt_backend s" "rt_memory s' = rt_memory s" "rt_migrator s' = rt_migrator s"
    using that reg sto inv by (simp add: runtime_inv_def)
  from step show ?thesis
  proof cases
    case (rt_allocates req now r)
    then show ?thesis using allocate_inv [OF inv, of req now] by simp
  next
    case (rt_executes d opts now t)
    then show ?thesis using execute_memory_only [of be now d opts s] allocate_inv [OF inv, of "footprint_request d opts" now] inv by auto
  next
    case (rt_frees now i u)
    obtain b m r where a: "mm_release be now i None (rt_backend s, rt_memory s) = ((b, m), r)" by (metis prod.exhaust)
    from memory_step_inv [OF inv Memory_Safety.releasing [OF a]] a rt_frees show ?thesis by (simp add: rt_release_def on_memory_def)
  next
    case (rt_manages b m)
    then show ?thesis using memory_step_inv [OF inv] by simp
  next
    case (rt_migrates i now target w auth reason z)
    then show ?thesis using migrate_inv [OF inv] by simp
  next
    case (rt_binds w boot node a y)
    then show ?thesis
      using bind_inv [OF inv, of w boot node a] bind_other [of be w boot node a s] reg inv sto by (simp add: runtime_inv_def)
  qed (rule rest; auto simp: rt_discover_def refresh_accelerators_def register_accelerators_def rt_reserve_def release_reservation_def
      rt_register_worker_def rt_restart_worker_def mark_worker_dead_def advance_epoch_def rt_observe_def
      advance_policy_generation_def split: sum.splits prod.splits option.splits)+
qed

lemma rt_run_inv: "(rt_step be ready)\<^sup>*\<^sup>* s s' \<Longrightarrow> runtime_inv outstanding be_inv s \<Longrightarrow> runtime_inv outstanding be_inv s'"
  by (induction rule: rtranclp_induct) (auto intro: rt_step_inv)

end

section \<open>The guarantees of the composed runtime\<close>

lemma new_runtime_inv:
  assumes "be_inv b0" and "outstanding b0 = {}"
  shows "runtime_inv outstanding be_inv (new_runtime b0)"
  using assms by (simp add: runtime_inv_def new_runtime_def empty_manager_inv empty_registry_inv empty_store_inv
      attempts_ok_def empty_migrator_def get_attempt_def)


text \<open>
  A worker that was restarted is fenced through the whole runtime: whatever calls
  follow, its old boot can neither bind a thread nor migrate memory, and the refused call
  changes nothing.
\<close>

theorem stale_worker_fenced:
  assumes "registry_inv (rt_registry s)" and "rt_worker s i = Some w" and "wr_next_boot (rt_registry s) \<noteq> - 1"
    and "rt_restart_worker i pid s = (s1, r)" and "(rt_step be ready)\<^sup>*\<^sup>* s1 s2"
  shows "(\<exists>e. bind_worker be j (wk_boot_id w) node apply_affinity s2 = (s2, Inl e))
    \<and> (\<exists>e. rt_migrate be now region target j \<lparr>au_epoch = epoch, au_boot = wk_boot_id w\<rparr> reason s2 = (s2, Inl e))"
proof -
  have "id_valid i" using assms(1,2) by (simp add: registry_inv_def rt_worker_def find_worker_def)
  moreover have "restart_worker i pid (rt_registry s) = (rt_registry s1, r)"
    using assms(4) by (auto simp: rt_restart_worker_def split: prod.splits)
  ultimately have old: "registry_inv (rt_registry s1)" "id_value (wk_boot_id w) < wr_next_boot (rt_registry s1)"
    "id_value (wk_boot_id w) \<notin> boots (rt_registry s1)"
    using restarted_boot_retired [of "rt_registry s" i w pid "rt_registry s1" r] assms(1-3) by (simp_all add: rt_worker_def)
  have "registry_step\<^sup>*\<^sup>* (rt_registry s1) (rt_registry s2)"
    using assms(5) by (induction rule: rtranclp_induct) (auto dest: rt_step_registry)
  from boot_ids.retired_never_returns [OF this old] have "\<not> validate_boot (rt_registry s2) j (wk_boot_id w)"
    by (rule retired_boot_invalid)
  then show ?thesis by (simp add: bind_worker_def rt_migrate_def)
qed

text \<open>The epoch that a caller of \<open>migrate\<close> presents is not looked at: any epoch gives the same result.\<close>

lemma migrate_epoch_ignored:
  "rt_migrate be now region target w \<lparr>au_epoch = stale, au_boot = boot\<rparr> reason s
   = rt_migrate be now region target w \<lparr>au_epoch = rt_epoch s, au_boot = boot\<rparr> reason s"
  by (simp add: rt_migrate_def migrate_request_def)

text \<open>Two bindings, of whatever workers, carry the same binding identifier: no call advances
  \<open>next_placement_\<close>.\<close>

lemma binding_ids_repeat:
  assumes "bind_worker be i boot node a s = (s1, Inr r1)" and "bind_worker be j boot' node' a' s1 = (s2, Inr r2)"
  shows "br_binding_id r1 = br_binding_id r2"
  using assms by (auto simp: bind_worker_def Let_def split: if_splits sum.splits prod.splits option.splits)

lemma verify_pattern_ok: "verify_pattern n"
proof -
  have "snd (verify_scan i (map pattern_byte [i..<m]))" for i m
  proof (induction "m - i" arbitrary: i)
    case (Suc k)
    then show ?case using Suc(1) [of "Suc i"] by (simp add: upt_conv_Cons split_beta)
  qed simp
  then show ?thesis by (simp add: verify_pattern_def)
qed

section \<open>Planning against what is reserved\<close>

lemma qty_add_exact: "qty_add a b = Inr q \<Longrightarrow> unat (qty_value q) = unat (qty_value a) + unat (qty_value b)"
  by (auto simp: qty_add_def qty_add_overflow_guard unat_add_no_wrap split: if_splits)

lemma reserved_by_sum:
  assumes "reserved_by rs m = Inr m'"
  shows "unat (node_limit m' n) = unat (node_limit m n)
    + sum_list (map (\<lambda>r. unat (qty_value (rs_bytes r))) (filter (\<lambda>r. rs_active r \<and> rs_node r = n) rs))"
  using assms
proof (induction rs m rule: reserved_by.induct)
  case (2 r rs m)
  show ?case
  proof (cases "rs_active r")
    case True
    let ?old = "case om_find m (rs_node r) of Some q \<Rightarrow> q | None \<Rightarrow> qty_zero"
    from "2.prems" True obtain q where q: "qty_add ?old (rs_bytes r) = Inr q" "reserved_by rs (om_insert (rs_node r) q m) = Inr m'"
      by (auto simp: rbind_Inr_iff)
    have "unat (qty_value q) = unat (qty_value ?old) + unat (qty_value (rs_bytes r))"
      using q(1) by (rule qty_add_exact)
    moreover have "qty_value ?old = node_limit m (rs_node r)" by (simp add: node_limit_def qty_zero_def split: option.splits)
    ultimately show ?thesis using "2.IH"(1) [OF True q(2)] q(1) True by (auto simp: node_limit_def)
  next
    case False
    with "2.prems" "2.IH"(2) show ?thesis by simp
  qed
qed simp

lemma om_find_fold_insert_other: "k \<notin> f ` set ns \<Longrightarrow> om_find (fold (\<lambda>n m. om_insert (f n) (g n) m) ns m) k = om_find m k"
  by (induction ns arbitrary: m) auto

lemma om_find_fold_insert_distinct:
  "distinct (map f ns) \<Longrightarrow> n \<in> set ns \<Longrightarrow> om_find (fold (\<lambda>n m. om_insert (f n) (g n) m) ns m) (f n) = Some (g n)"
proof (induction ns arbitrary: m)
  case (Cons x ns)
  then show ?case by (cases "n = x") (auto simp: om_find_fold_insert_other)
qed simp

lemma model_capacity:
  assumes "build_placement_model be s = Inr model" and "distinct (map nn_id (ht_nodes (rt_topo s)))" and "n \<in> set (ht_nodes (rt_topo s))"
  shows "node_limit (pm_node_capacity model) (nn_id n) = qty_value (nn_memory_capacity n)"
  using assms om_find_fold_insert_distinct [OF assms(2,3), of nn_memory_capacity om_empty]
  by (auto simp: build_placement_model_def rbind_Inr_iff node_limit_def)

lemma model_reserved:
  assumes "build_placement_model be s = Inr model"
  shows "unat (node_limit (pm_reserved_capacity model) n) = sum_list (map (\<lambda>r. unat (qty_value (rs_bytes r))) (active_on n (rt_reservations s)))"
  using assms reserved_by_sum [of "all_reservations (rt_reservations s)" om_empty _ n]
  by (auto simp: build_placement_model_def rbind_Inr_iff active_on_def node_limit_def [of om_empty])


section \<open>A run of the composed runtime\<close>

text \<open>A host of two synthetic nodes: discovered, 4096 bytes allocated on node 2, a worker
  registered, and 1024 bytes reserved on node 1.\<close>

definition sample_runtime :: "nat \<Rightarrow> SyntheticBackend Runtime" where
  "sample_runtime k =
     (let s0 = new_runtime (new_synthetic sample_config);
          s1 = fst (rt_discover make_synthetic_backend s0);
          s2 = fst (rt_allocate make_synthetic_backend 5 (sample_alloc_request 2 4096) s1);
          s3 = fst (rt_register_worker (Id 1) (Id 10) s2);
          s4 = fst (rt_reserve (sample_request 1024) s3)
      in [s0, s1, s2, s3, s4] ! k)"

lemma sample_runtime_0: "sample_runtime 0 = new_runtime (new_synthetic sample_config)"
  and sample_runtime_1: "sample_runtime (Suc 0) = fst (rt_discover make_synthetic_backend (sample_runtime 0))"
  and sample_runtime_2: "sample_runtime 2 = fst (rt_allocate make_synthetic_backend 5 (sample_alloc_request 2 4096) (sample_runtime (Suc 0)))"
  and sample_runtime_3: "sample_runtime 3 = fst (rt_register_worker (Id 1) (Id 10) (sample_runtime 2))"
  and sample_runtime_4: "sample_runtime 4 = fst (rt_reserve (sample_request 1024) (sample_runtime 3))"
  by (simp_all add: sample_runtime_def Let_def numeral_nat)

lemma discover_other: "rt_backend (fst (rt_discover be s)) = rt_backend s" "rt_memory (fst (rt_discover be s)) = rt_memory s"
  "rt_registry (fst (rt_discover be s)) = rt_registry s" "rt_reservations (fst (rt_discover be s)) = rt_reservations s"
  by (simp_all add: rt_discover_def split: sum.splits)

lemma sample_runtime_run: "(rt_step make_synthetic_backend syn_ready)\<^sup>*\<^sup>* (new_runtime (new_synthetic sample_config)) (sample_runtime 4)"
proof -
  let ?step = "rt_step make_synthetic_backend syn_ready"
  have "?step (sample_runtime 0) (sample_runtime (Suc 0))" unfolding sample_runtime_1 by (metis rt_discovers prod.collapse)
  moreover have "alloc_room make_synthetic_backend syn_ready (sample_alloc_request 2 4096) (sample_runtime (Suc 0))"
    by (simp add: alloc_room_def sample_runtime_1 discover_other sample_runtime_0 new_runtime_def syn_ready_def new_synthetic_def
        empty_manager_def gen_initial_def usage_room_def om_bal_def)
  then have "?step (sample_runtime (Suc 0)) (sample_runtime 2)" unfolding sample_runtime_2 by (metis rt_allocates prod.collapse)
  moreover have "wr_next_boot (rt_registry (sample_runtime 2)) \<noteq> - 1"
    by (simp add: sample_runtime_2 rt_allocate_def sample_runtime_1 discover_other sample_runtime_0 new_runtime_def empty_registry_def)
  then have "?step (sample_runtime 2) (sample_runtime 3)" unfolding sample_runtime_3 by (metis rt_registers prod.collapse)
  moreover have "rt_reservations (sample_runtime 3) = empty_store"
    by (simp add: sample_runtime_3 rt_register_worker_def split_beta sample_runtime_2 rt_allocate_def sample_runtime_1 discover_other
        sample_runtime_0 new_runtime_def)
  then have "reserve_fits (sample_request 1024) (rt_reservations (sample_runtime 3))" "sto_next_id (rt_reservations (sample_runtime 3)) \<noteq> - 1"
    by (simp_all add: reserve_fits_def empty_store_def sample_request_def om_bal_def)
  then have "?step (sample_runtime 3) (sample_runtime 4)" unfolding sample_runtime_4 by (metis rt_reserves prod.collapse)
  ultimately show ?thesis unfolding sample_runtime_0 [symmetric] by (meson converse_rtranclp_into_rtranclp r_into_rtranclp)
qed


lemma sample_runtime_inv: "runtime_inv syn_outstanding syn_inv (sample_runtime 4)"
  by (rule synthetic_host.rt_run_inv [OF sample_runtime_run]) (rule new_runtime_inv [of syn_inv _ syn_outstanding, OF sample_start])

theorem stale_worker_fenced_witness:
  "\<exists>s e. fst (rt_restart_worker (Id 1) (Id 11) (sample_runtime 4)) = s
     \<and> bind_worker make_synthetic_backend (Id 1) (Id 1) (Id 2) True s = (s, Inl e)"
proof -
  have inv: "registry_inv (rt_registry (sample_runtime 4))" using sample_runtime_inv by (simp add: runtime_inv_def)
  have "map_option wk_boot_id (rt_worker (sample_runtime 4) (Id 1)) = Some (Id 1)" by code_simp
  then obtain w where w: "rt_worker (sample_runtime 4) (Id 1) = Some w" "wk_boot_id w = Id 1" by auto
  have nb: "wr_next_boot (rt_registry (sample_runtime 4)) \<noteq> - 1" by code_simp
  obtain s r where r: "rt_restart_worker (Id 1) (Id 11) (sample_runtime 4) = (s, r)" by (metis prod.exhaust)
  from stale_worker_fenced [OF inv w(1) nb r rtranclp.rtrancl_refl, of make_synthetic_backend "Id 1" "Id 2" True] r w(2)
  show ?thesis by simp
qed

text \<open>A runtime whose host has two nodes of 4096 bytes, with 1024 bytes of node 2 reserved.\<close>

definition sample_reserved_runtime :: "SyntheticBackend Runtime" where
  "sample_reserved_runtime = (new_runtime (new_synthetic sample_config))\<lparr>rt_topo := sample_host,
     rt_reservations := after_reserve ((sample_request 1024)\<lparr>rq_node := Id 2\<rparr>) (Generation 1) empty_store\<rparr>"

lemma sample_reserved_plan:
  "(case rt_plan make_synthetic_backend sample_placement sample_reserved_runtime of
      Inl _ \<Rightarrow> False | Inr d \<Rightarrow> carries_work (pd_kind d) \<and> pd_selected_node d = Id 2)"
  by code_simp


end
