(* ===== verification/Windows_Memory.thy ===== *)
theory Windows_Memory
  imports Windows_Backend Runtime_Safety
begin

text \<open>
  The runtime over the Windows backend. With a virtual memory that does what is documented, the backend
  keeps the contracts \<open>allocator\<close> and \<open>host_backend\<close>, so that the guarantees of the runtime hold on
  Windows as well: the pages in use are exactly those of the regions that are not released.
\<close>

section \<open>What the memory calls promise\<close>

text \<open>
  \<open>live\<close> is the set of base addresses in use. \<open>VirtualAllocExNuma\<close> returns a null pointer and changes
  nothing, or an address that was not in use; \<open>VirtualFree\<close> gives back an address in use; the affinity
  calls do not touch the memory; the host is described throughout.
\<close>

definition w32_memory_ok :: "'o Win32 \<Rightarrow> ('o \<Rightarrow> u64 set) \<Rightarrow> ('o \<Rightarrow> bool) \<Rightarrow> bool" where
  "w32_memory_ok os live good \<longleftrightarrow>
     (\<forall>st. good st \<longrightarrow> host_described os st \<and> 0 \<notin> live st)
     \<and> (\<forall>bytes node st st'. good st \<longrightarrow> w32_virtual_alloc os bytes node st = (st', 0) \<longrightarrow> good st' \<and> live st' = live st)
     \<and> (\<forall>bytes node st st' p. good st \<longrightarrow> w32_virtual_alloc os bytes node st = (st', p) \<longrightarrow> p \<noteq> 0 \<longrightarrow>
          good st' \<and> p \<notin> live st \<and> live st' = insert p (live st))
     \<and> (\<forall>p st. good st \<longrightarrow> p \<in> live st \<longrightarrow> good (w32_virtual_free os p st) \<and> live (w32_virtual_free os p st) = live st - {p})
     \<and> (\<forall>g m st. good st \<longrightarrow> good (fst (w32_set_thread_affinity os g m st)) \<and> live (fst (w32_set_thread_affinity os g m st)) = live st)"

definition win_outstanding :: "('o \<Rightarrow> u64 set) \<Rightarrow> 'o \<Rightarrow> handle set" where
  "win_outstanding live st = (\<lambda>p. Handle (Id 0) p True) ` live st"

lemma w32_memory_okD:
  assumes "w32_memory_ok os live good" "good st"
  shows "host_described os st" "0 \<notin> live st"
    and "w32_virtual_alloc os bytes node st = (st', 0) \<Longrightarrow> good st' \<and> live st' = live st"
    and "w32_virtual_alloc os bytes node st = (st', p) \<Longrightarrow> p \<noteq> 0 \<Longrightarrow> good st' \<and> p \<notin> live st \<and> live st' = insert p (live st)"
    and "p \<in> live st \<Longrightarrow> good (w32_virtual_free os p st) \<and> live (w32_virtual_free os p st) = live st - {p}"
    and "good (fst (w32_set_thread_affinity os g m st)) \<and> live (fst (w32_set_thread_affinity os g m st)) = live st"
proof -
  note laws = assms(1) [unfolded w32_memory_ok_def]
  show "host_described os st" "0 \<notin> live st" using laws [THEN conjunct1, rule_format, OF assms(2)] by simp_all
  show "w32_virtual_alloc os bytes node st = (st', 0) \<Longrightarrow> good st' \<and> live st' = live st"
    by (rule laws [THEN conjunct2, THEN conjunct1, rule_format, OF assms(2)])
  show "w32_virtual_alloc os bytes node st = (st', p) \<Longrightarrow> p \<noteq> 0 \<Longrightarrow> good st' \<and> p \<notin> live st \<and> live st' = insert p (live st)"
    by (rule laws [THEN conjunct2, THEN conjunct2, THEN conjunct1, rule_format, OF assms(2)])
  show "p \<in> live st \<Longrightarrow> good (w32_virtual_free os p st) \<and> live (w32_virtual_free os p st) = live st - {p}"
    by (rule laws [THEN conjunct2, THEN conjunct2, THEN conjunct2, THEN conjunct1, rule_format, OF assms(2)])
  show "good (fst (w32_set_thread_affinity os g m st)) \<and> live (fst (w32_set_thread_affinity os g m st)) = live st"
    by (rule laws [THEN conjunct2, THEN conjunct2, THEN conjunct2, THEN conjunct2, rule_format, OF assms(2)])
qed

lemma windows_backend_memory [simp]:
  "be_allocate (make_windows_backend os) = win_allocate os" "be_free (make_windows_backend os) = win_free os"
  by (simp_all add: make_windows_backend_def)

lemma described_discovers: "host_described os st \<Longrightarrow> \<exists>host. win_discover os st = Inr host"
  using described_consistent [of os st] validate_topology_iff [of "described_host os st"]
  by (auto simp: win_discover_cases)

lemma chosen_node_ok: "host_described os st \<Longrightarrow> \<exists>p. chosen_node os spec st = Inr p"
  using described_discovers [of os st]
  by (auto simp: chosen_node_def node_of_current_thread_def Let_def split: option.splits)

text \<open>Every allocation that passes the checks is one call of \<open>VirtualAllocExNuma\<close>.\<close>

lemma win_allocate_cases:
  assumes "host_described os st" "win_allocate os spec st = (st', res)"
  obtains (refused) m where "st' = st" "res = Inl (BackendError m)"
    | (failed) node m where "w32_virtual_alloc os (qty_value (as_bytes spec)) node st = (st', 0)" "res = Inl (BackendError m)"
    | (granted) node p r where "w32_virtual_alloc os (qty_value (as_bytes spec)) node st = (st', p)" "p \<noteq> 0" "res = Inr r"
        "ar_handle r = Handle (Id 0) p True" "result_ok r"
proof -
  obtain node observed where n: "chosen_node os spec st = Inr (node, observed)" using chosen_node_ok [OF assms(1)] by fastforce
  obtain st1 p where a: "w32_virtual_alloc os (qty_value (as_bytes spec)) node st = (st1, p)" by fastforce
  show ?thesis
  proof (cases "validate_spec spec")
    case (Inl e)
    moreover from this obtain m where "e = BackendError m" by (auto simp: validate_spec_def split: if_splits)
    ultimately show ?thesis using assms(2) by (intro refused [of m]) (simp_all add: win_allocate_def)
  next
    case (Inr u)
    then have bytes: "qty_value (as_bytes spec) \<noteq> 0" by (auto simp: validate_spec_def split: if_splits)
    consider "as_kind spec = AK_Pinned" | "as_kind spec \<noteq> AK_Pinned" "p = 0" | "as_kind spec \<noteq> AK_Pinned" "p \<noteq> 0" by blast
    then show ?thesis
    proof cases
      case 1
      then have "st' = st \<and> (\<exists>m. res = Inl (BackendError m))" using assms(2) Inr by (auto simp: win_allocate_def)
      then show ?thesis using refused by blast
    next
      case 2
      then have "st' = st1 \<and> (\<exists>m. res = Inl (BackendError m))" using assms(2) Inr n a by (auto simp: win_allocate_def Let_def)
      then show ?thesis using failed a 2 by blast
    next
      case 3
      have "win_allocate os spec st = (st1, snd (win_allocate os spec st))"
        and "\<exists>r. snd (win_allocate os spec st) = Inr r \<and> ar_handle r = Handle (Id 0) p True \<and> result_ok r"
        using Inr n a bytes 3 by (simp_all add: win_allocate_def ar_handle_def result_ok_def Let_def)
      then show ?thesis using granted [OF _ 3(2)] a assms(2) by auto
    qed
  qed
qed

lemma windows_host_backend:
  assumes ok: "w32_memory_ok os live good"
  shows "host_backend (make_windows_backend os) (win_outstanding live) good (\<lambda>_. True)"
proof
  fix st st' spec r
  assume good: "good st" and "be_allocate (make_windows_backend os) spec st = (st', Inr r)"
  then have "win_allocate os spec st = (st', Inr r)" by simp
  with w32_memory_okD(1) [OF ok good] show "good st' \<and> result_ok r \<and> ar_handle r \<notin> win_outstanding live st
      \<and> win_outstanding live st' = insert (ar_handle r) (win_outstanding live st)"
  proof (cases rule: win_allocate_cases)
    case (granted node p r')
    with w32_memory_okD(4) [OF ok good granted(1,2)] show ?thesis by (auto simp: win_outstanding_def)
  qed simp_all
next
  fix st st' spec e
  assume good: "good st" and "be_allocate (make_windows_backend os) spec st = (st', Inl e)"
  then have "win_allocate os spec st = (st', Inl e)" by simp
  with w32_memory_okD(1) [OF ok good]
  show "good st' \<and> win_outstanding live st' = win_outstanding live st \<and> (\<exists>m. e = BackendError m)"
  proof (cases rule: win_allocate_cases)
    case (failed node m)
    with w32_memory_okD(3) [OF ok good failed(1)] show ?thesis by (simp add: win_outstanding_def)
  qed (use good in simp_all)
next
  fix st r
  assume good: "good st" and held: "ar_handle r \<in> win_outstanding live st"
  then have p: "ar_ptr r \<in> live st" "ar_ptr_valid r" "ar_handle r = Handle (Id 0) (ar_ptr r) True"
    by (auto simp: win_outstanding_def ar_handle_def)
  moreover have "ar_ptr r \<noteq> 0" using w32_memory_okD(2) [OF ok good] p(1) by metis
  ultimately show "good (be_free (make_windows_backend os) r st)
      \<and> win_outstanding live (be_free (make_windows_backend os) r st) = win_outstanding live st - {ar_handle r}"
    using w32_memory_okD(5) [OF ok good p(1)] by (auto simp: win_free_def win_outstanding_def)
next
  fix st st' aff res
  assume good: "good st" and "be_apply_thread_affinity (make_windows_backend os) aff st = (st', res)"
  then consider "st' = st" | g m where "w32_set_thread_affinity os g m st = (st', res)"
    by (auto simp: win_apply_affinity_def split: if_splits prod.splits)
  then show "good st' \<and> win_outstanding live st' = win_outstanding live st"
  proof cases
    case (2 g m)
    then show ?thesis using w32_memory_okD(6) [OF ok good, of g m] by (simp add: win_outstanding_def)
  qed (simp add: good)
qed

text \<open>
  C17. No page leaks and none is freed twice on Windows: after every run of runtime calls over the Windows
  backend, with a virtual memory that behaves as documented, the addresses in use are exactly those
  of the regions that are not released, and no two regions share one.
\<close>

theorem windows_no_leak:
  assumes "w32_memory_ok os live good" "good st0" "live st0 = {}"
    and "(rt_step (make_windows_backend os) (\<lambda>_. True))\<^sup>*\<^sup>* (new_runtime st0) s"
  shows "live (rt_backend s) = set (map (ar_ptr \<circ> mr_backend_result) (unreleased (rt_memory s)))
    \<and> distinct (map (ar_ptr \<circ> mr_backend_result) (unreleased (rt_memory s)))"
proof -
  have "runtime_inv (win_outstanding live) good (new_runtime st0)"
    using assms(2,3) by (intro new_runtime_inv) (simp_all add: win_outstanding_def)
  with host_backend.rt_run_inv [OF windows_host_backend [OF assms(1)] assms(4)]
  have inv: "win_outstanding live (rt_backend s) = set (map region_handle (unreleased (rt_memory s)))" "mm_inv (rt_memory s)"
    unfolding unreleased_handles by (simp_all add: runtime_inv_def)
  let ?ptr = "\<lambda>h. case h of Handle i p v \<Rightarrow> p"
  have ptr: "?ptr (region_handle r) = ar_ptr (mr_backend_result r)" for r by (simp add: region_handle_def ar_handle_def)
  have "?ptr ` win_outstanding live (rt_backend s) = live (rt_backend s)" by (simp add: win_outstanding_def image_image)
  then have "live (rt_backend s) = ?ptr ` set (map region_handle (unreleased (rt_memory s)))" by (simp only: inv(1))
  moreover have "distinct (map ?ptr (map region_handle (unreleased (rt_memory s))))"
  proof (rule distinct_map [THEN iffD2], intro conjI)
    show "distinct (map region_handle (unreleased (rt_memory s)))" by (rule unreleased_distinct [OF inv(2)])
    show "inj_on ?ptr (set (map region_handle (unreleased (rt_memory s))))"
      unfolding inv(1) [symmetric] by (auto simp: inj_on_def win_outstanding_def)
  qed
  ultimately show ?thesis by (simp add: ptr image_image comp_def)
qed

section \<open>A host with virtual memory\<close>

definition fresh_address :: "u64 list \<Rightarrow> u64" where
  "fresh_address used = (case List.find (\<lambda>p. p \<notin> set used) [0x10000, 0x20000, 0x30000] of Some p \<Rightarrow> p | None \<Rightarrow> 0)"

definition paged_win32 :: "((u16 \<times> u64) \<times> u64 list) Win32" where
  "paged_win32 = \<lparr>w32_page_size = (\<lambda>_. 4096), w32_allocation_granularity = (\<lambda>_. 65536), w32_info_length = (\<lambda>_. 48),
     w32_processor_info = (\<lambda>_. Some [\<lparr>pi_is_numa_node = True, pi_node_number = 0, pi_group_masks = [(0, 0x3)]\<rparr>]),
     w32_group_count = (\<lambda>_. 1), w32_processor_count = (\<lambda>g _. 2), w32_available_memory = (\<lambda>n _. None),
     w32_total_physical = (\<lambda>_. Some 65536), w32_thread_affinity = (\<lambda>st. Some (fst st)),
     w32_set_thread_affinity = (\<lambda>g m st. ((if m = 0 then fst st else (g, m), snd st), m \<noteq> 0)),
     w32_virtual_alloc = (\<lambda>bytes node st. let p = fresh_address (snd st) in ((fst st, if p = 0 then snd st else p # snd st), p)),
     w32_virtual_free = (\<lambda>p st. (fst st, removeAll p (snd st))), w32_last_error = (\<lambda>_. 8)\<rparr>"

lemma fresh_address_unused: "fresh_address used \<noteq> 0 \<Longrightarrow> fresh_address used \<notin> set used"
  by (auto simp: fresh_address_def)

lemma paged_described: "host_described paged_win32 st"
  by (simp add: host_described_def numa_infos_def query_processor_info_def active_processors_def info_owns_def paged_win32_def upt_rec)

lemma paged_memory_ok: "w32_memory_ok paged_win32 (\<lambda>st. set (snd st)) (\<lambda>st. 0 \<notin> set (snd st))"
  using fresh_address_unused paged_described
  by (auto simp: w32_memory_ok_def paged_win32_def Let_def split: if_splits)

theorem windows_no_leak_witness:
  "set (snd (rt_backend (fst (rt_allocate (make_windows_backend paged_win32) 5 (sample_alloc_request 1 4096) (new_runtime ((0, 3), []))))))
   = {0x10000}"
proof -
  let ?be = "make_windows_backend paged_win32" and ?init = "new_runtime ((0, 3), []) :: ((u16 \<times> u64) \<times> u64 list) Runtime"
  let ?s = "fst (rt_allocate ?be 5 (sample_alloc_request 1 4096) ?init)"
  have "alloc_room ?be (\<lambda>_. True) (sample_alloc_request 1 4096) ?init"
    by (simp add: alloc_room_def new_runtime_def empty_manager_def gen_initial_def usage_room_def om_bal_def)
  then have "rt_step ?be (\<lambda>_. True) ?init ?s" by (metis rt_allocates prod.collapse)
  then have "(rt_step ?be (\<lambda>_. True))\<^sup>*\<^sup>* ?init ?s" by simp
  from windows_no_leak [OF paged_memory_ok _ _ this]
  have "set (snd (rt_backend ?s)) = set (map (ar_ptr \<circ> mr_backend_result) (unreleased (rt_memory ?s)))" by simp
  moreover have "map (ar_ptr \<circ> mr_backend_result) (unreleased (rt_memory ?s)) = [0x10000]" by code_simp
  ultimately show ?thesis by simp
qed

end
