(* ===== verification/Cuda_Proof.thy ===== *)
theory Cuda_Proof
  imports Backend Binary64
begin

text \<open>
  \<open>src/cuda_backend.cu\<close>: device enumeration and the proof run over a host buffer. What the CUDA
  interface returns is an argument: the devices, the effect of the copies, the order in which the
  threads of a launch run, and the clock. The kernel and the host code are definitions. A
  \<open>float\<close> is the rational number it denotes; buffers are lists.
\<close>

section \<open>Single precision\<close>

definition binary32 :: "rat \<Rightarrow> rat" where
  "binary32 x =
     (if x = 0 then 0 else let u = two_to (exponent_of x - 23) in of_int (round_half_even (x / u)) * u)"

lemma exponent_of_int24:
  assumes "0 < n" and "n < 2 ^ 24"
  shows "exponent_of (of_int n) \<le> 23"
proof -
  have "bitlen n \<le> 24" using assms by (simp add: bitlen_le_iff_power)
  moreover have "quotient_of \<bar>of_int n\<bar> = (n, 1)" using assms(1) by (simp add: quotient_of_int)
  moreover have "bitlen 1 = 1" by code_simp
  ultimately show ?thesis by (simp add: exponent_of_def Let_def)
qed

lemma binary32_nat:
  assumes "n < 2 ^ 24"
  shows "binary32 (of_nat n) = of_nat n"
proof (cases "n = 0")
  case False
  define k where "k = exponent_of (of_nat n) - 23"
  have "k \<le> 0" using exponent_of_int24 [of "int n"] assms False by (simp add: k_def)
  then have "of_nat n / two_to k = of_int (int n * 2 ^ nat (- k))" by (simp add: two_to_neg)
  then have "of_int (round_half_even (of_nat n / two_to k)) = of_nat n / two_to k" by (simp only: round_of_int)
  then have "binary32 (of_nat n) = of_nat n / two_to k * two_to k"
    using False by (simp add: binary32_def Let_def flip: k_def)
  then show ?thesis by simp
qed (simp add: binary32_def)

section \<open>The CUDA interface\<close>

record CudaDeviceProp =
  cp_name :: string
  cp_major :: nat
  cp_minor :: nat

record Cuda =
  cu_device_count :: "int option"
  cu_properties :: "nat \<Rightarrow> CudaDeviceProp option"
  cu_pci_bus_id :: "nat \<Rightarrow> string"
  cu_malloc :: "nat \<Rightarrow> rat list option"
  cu_h2d :: "nat \<Rightarrow> rat list \<Rightarrow> rat list \<Rightarrow> rat list"
  cu_schedule :: "nat \<Rightarrow> nat \<Rightarrow> nat \<Rightarrow> (nat \<times> nat) list"
  cu_d2h :: "nat \<Rightarrow> rat list \<Rightarrow> rat list \<Rightarrow> rat list"
  cu_malloc_host :: bool
  cu_last_error_clear :: bool
  cu_clock :: "nat \<Rightarrow> u64"

section \<open>Devices\<close>

definition is_available :: "Cuda \<Rightarrow> bool" where
  "is_available cu = (case cu_device_count cu of None \<Rightarrow> False | Some n \<Rightarrow> n > 0)"

definition compute_capability :: "CudaDeviceProp \<Rightarrow> string" where
  "compute_capability p = dec_digits (cp_major p) @ ''.'' @ dec_digits (cp_minor p)"

definition cuda_device :: "Cuda \<Rightarrow> nat \<Rightarrow> CudaDeviceProp \<Rightarrow> AcceleratorInfo" where
  "cuda_device cu d p =
     \<lparr>ai_id = Id (of_nat d + 1), ai_generation = gen_initial,
      ai_device = \<lparr>dd_device_id = invalid_id, dd_device_generation = gen_initial, dd_vendor = ''NVIDIA'', dd_name = cp_name p,
                   dd_pci_bdf = cu_pci_bus_id cu d, dd_driver_api_ordinal = int d, dd_compute_capability = compute_capability p\<rparr>,
      ai_locality = \<lparr>al_accelerator = invalid_id, al_locality = LC_Unknown, al_local_node = invalid_id,
                     al_node_is_certain = False, al_derived_from = qty_zero,
                     al_provenance = prov_derived ''no OS GPU->NUMA mapping exposed''\<rparr>,
      ai_enumerated = True, ai_provenance = prov_of PS_Measured ''CUDA device enumeration''\<rparr>"

definition enumerate_cuda_devices :: "Cuda \<Rightarrow> AcceleratorInfo list" where
  "enumerate_cuda_devices cu =
     (case cu_device_count cu of
        None \<Rightarrow> []
      | Some n \<Rightarrow> List.map_filter (\<lambda>d. map_option (cuda_device cu d) (cu_properties cu d)) [0..<nat n])"

section \<open>The kernel and the proof run\<close>

definition saxpy :: "rat \<Rightarrow> rat" where
  "saxpy x = binary32 (binary32 (2 * x) + 1)"

definition saxpy_kernel :: "nat \<Rightarrow> nat \<Rightarrow> nat \<times> nat \<Rightarrow> rat list \<Rightarrow> rat list" where
  "saxpy_kernel threads n = (\<lambda>(block, thread) data.
     let i = block * threads + thread in if i < n then data[i := saxpy (data ! i)] else data)"

definition pattern :: "nat \<Rightarrow> rat" where
  "pattern i = of_nat (i mod 1000)"

definition fill_pattern :: "nat \<Rightarrow> rat list \<Rightarrow> rat list" where
  "fill_pattern n data = map pattern [0..<n] @ drop n data"

record ProofTimings =
  pt_h2d_ns :: u64
  pt_kernel_ns :: u64
  pt_d2h_ns :: u64
  pt_pinned_h2d_ns :: u64

record ProofResult =
  po_ok :: bool
  po_bytes :: u64
  po_iterations :: nat
  po_verified :: bool
  po_device_name :: string
  po_pci_bdf :: string
  po_compute_capability :: string
  po_timings :: ProofTimings

definition proof_summary :: "ProofResult \<Rightarrow> string" where
  "proof_summary r =
     (if po_ok r then ''ok'' else ''FAILED'') @ '' device='' @ po_device_name r @ '' pci='' @ po_pci_bdf r
     @ '' cc='' @ po_compute_capability r @ '' bytes='' @ std_to_string (po_bytes r) @ '' iters='' @ dec_digits (po_iterations r)
     @ '' verified='' @ (if po_verified r then ''true'' else ''false'')
     @ '' h2d_ns='' @ std_to_string (pt_h2d_ns (po_timings r)) @ '' kernel_ns='' @ std_to_string (pt_kernel_ns (po_timings r))
     @ '' d2h_ns='' @ std_to_string (pt_d2h_ns (po_timings r)) @ '' pinned_h2d_ns='' @ std_to_string (pt_pinned_h2d_ns (po_timings r))"

text \<open>\<open>static_cast<int>(bytes / sizeof(float))\<close> keeps 32 bits.\<close>

definition proof_count :: "u64 \<Rightarrow> int" where
  "proof_count bytes = sint (ucast (bytes div 4) :: u32)"

definition kThreads :: nat where
  "kThreads = 256"

definition proof_iteration :: "Cuda \<Rightarrow> nat \<Rightarrow> nat \<Rightarrow> rat list \<times> rat list \<times> ProofTimings \<Rightarrow> rat list \<times> rat list \<times> ProofTimings" where
  "proof_iteration cu n iter = (\<lambda>(host, dev, tm).
     let host = fill_pattern n host;
         dev = cu_h2d cu iter host dev;
         blocks = (n + kThreads - 1) div kThreads;
         dev = fold (saxpy_kernel kThreads n) (cu_schedule cu iter blocks kThreads) dev;
         host = cu_d2h cu iter dev host;
         t = (\<lambda>k. cu_clock cu (4 * iter + k))
     in (host, dev, tm\<lparr>pt_h2d_ns := t 1 - t 0, pt_kernel_ns := t 2 - t 1, pt_d2h_ns := t 3 - t 2\<rparr>))"

definition verified_output :: "nat \<Rightarrow> rat list \<Rightarrow> bool" where
  "verified_output n host = list_all (\<lambda>i. host ! i = saxpy (pattern i)) [0..<n]"

definition initial_proof :: "u64 \<Rightarrow> nat \<Rightarrow> ProofResult" where
  "initial_proof bytes iterations =
     \<lparr>po_ok = False, po_bytes = bytes, po_iterations = iterations, po_verified = False, po_device_name = '''', po_pci_bdf = '''',
      po_compute_capability = '''', po_timings = \<lparr>pt_h2d_ns = 0, pt_kernel_ns = 0, pt_d2h_ns = 0, pt_pinned_h2d_ns = 0\<rparr>\<rparr>"

definition run_cuda_proof :: "Cuda \<Rightarrow> rat list \<Rightarrow> u64 \<Rightarrow> nat \<Rightarrow> rat list \<times> ProofResult" where
  "run_cuda_proof cu host bytes iterations =
     (let r = initial_proof bytes iterations in
      if proof_count bytes \<le> 0 then (host, r)
      else case cu_properties cu 0 of
        None \<Rightarrow> (host, r)
      | Some p \<Rightarrow>
          let n = nat (proof_count bytes);
              r = r\<lparr>po_device_name := cp_name p, po_compute_capability := compute_capability p, po_pci_bdf := cu_pci_bus_id cu 0\<rparr>;
              host = fill_pattern n host
          in case cu_malloc cu (unat bytes) of
               None \<Rightarrow> (host, r)
             | Some dev \<Rightarrow>
                 let (host, dev, tm) = fold (proof_iteration cu n) [0..<iterations] (host, dev, po_timings r);
                     ok = verified_output n host;
                     t = cu_clock cu;
                     tm = (if cu_malloc_host cu
                           then tm\<lparr>pt_pinned_h2d_ns := t (4 * iterations + 1) - t (4 * iterations)\<rparr> else tm)
                 in (host, r\<lparr>po_verified := ok, po_ok := ok \<and> cu_last_error_clear cu, po_timings := tm\<rparr>))"

section \<open>The order of the threads does not matter\<close>

lemma saxpy_exact: "m < 2 ^ 22 \<Longrightarrow> saxpy (of_nat m) = of_nat (2 * m + 1)"
  using binary32_nat [of "2 * m"] binary32_nat [of "2 * m + 1"] by (simp add: saxpy_def add.commute)

lemma saxpy_pattern: "saxpy (pattern i) = of_nat (2 * (i mod 1000) + 1)"
proof -
  have "i mod 1000 < 1000" by simp
  then show ?thesis unfolding pattern_def by (intro saxpy_exact) simp
qed

lemma length_kernel [simp]: "length (saxpy_kernel t n p data) = length data"
  by (simp add: saxpy_kernel_def Let_def split: prod.splits)

lemma length_launch [simp]: "length (fold (saxpy_kernel t n) ps data) = length data"
  by (induction ps arbitrary: data) simp_all

lemma launch_nth:
  assumes "distinct ps" "\<forall>p\<in>set ps. snd p < t" "i < length data"
  shows "fold (saxpy_kernel t n) ps data ! i
    = (if i < n \<and> (i div t, i mod t) \<in> set ps then saxpy (data ! i) else data ! i)"
  using assms
proof (induction ps arbitrary: data)
  case (Cons p ps)
  obtain b th where p: "p = (b, th)" by fastforce
  with Cons.prems(2) have th: "th < t" by simp
  then have here: "b * t + th = i \<longleftrightarrow> (i div t, i mod t) = p" using p by auto
  have "fold (saxpy_kernel t n) (p # ps) data ! i
      = (if i < n \<and> (i div t, i mod t) \<in> set ps then saxpy (saxpy_kernel t n p data ! i) else saxpy_kernel t n p data ! i)"
    using Cons by simp
  moreover have "saxpy_kernel t n p data ! i = (if i < n \<and> (i div t, i mod t) = p then saxpy (data ! i) else data ! i)"
    using here Cons.prems(3) by (auto simp: saxpy_kernel_def p Let_def nth_list_update)
  ultimately show ?case using Cons.prems(1) by auto
qed simp

definition grid :: "nat \<Rightarrow> nat \<Rightarrow> (nat \<times> nat) set" where
  "grid blocks threads = {..<blocks} \<times> {..<threads}"

lemma grid_covers: "i < n \<Longrightarrow> (i div kThreads, i mod kThreads) \<in> grid ((n + kThreads - 1) div kThreads) kThreads"
proof -
  assume "i < n"
  then have "i div 256 \<le> (n - 1) div 256" by (intro div_le_mono) simp
  also have "(n - 1) div 256 < (n - 1 + 256) div 256" by simp
  also have "n - 1 + 256 = n + 255" using \<open>i < n\<close> by simp
  finally have "i div 256 < (n + 255) div 256" .
  then show ?thesis by (simp add: grid_def kThreads_def)
qed

lemma launch_complete:
  assumes "distinct ps" "set ps = grid ((n + kThreads - 1) div kThreads) kThreads" "i < n" "n \<le> length data"
  shows "fold (saxpy_kernel kThreads n) ps data ! i = saxpy (data ! i)"
proof -
  have "\<forall>p\<in>set ps. snd p < kThreads" unfolding assms(2) by (auto simp: grid_def)
  from launch_nth [OF assms(1) this, of i data n] show ?thesis
    using assms(3,4) grid_covers [OF assms(3)] by (simp add: assms(2))
qed

section \<open>The verdict of the proof run\<close>

definition cuda_works :: "Cuda \<Rightarrow> u64 \<Rightarrow> bool" where
  "cuda_works cu bytes \<longleftrightarrow>
     cu_properties cu 0 \<noteq> None \<and> cu_malloc cu (unat bytes) \<noteq> None \<and> cu_last_error_clear cu
     \<and> (\<forall>k host dev. cu_h2d cu k host dev = host) \<and> (\<forall>k dev host. cu_d2h cu k dev host = dev)
     \<and> (\<forall>k b t. distinct (cu_schedule cu k b t) \<and> set (cu_schedule cu k b t) = grid b t)"

text \<open>The elements that the host code touches lie inside the buffer.\<close>

lemma proof_count_le: "nat (proof_count bytes) \<le> unat bytes div 4"
proof (cases "proof_count bytes \<le> 0")
  case False
  have "sint (ucast (bytes div 4) :: u32) \<le> uint (ucast (bytes div 4) :: u32)"
    by (auto simp: sint_uint signed_take_bit_int_less_eq_self_iff intro: order_trans [of _ 0])
  also have "\<dots> \<le> uint (bytes div 4)" by (simp add: unsigned_ucast_eq take_bit_int_less_eq_self_iff)
  finally have "proof_count bytes \<le> int (unat bytes div 4)"
    by (simp add: proof_count_def uint_div zdiv_int)
  then show ?thesis by simp
qed simp

lemma iteration_output:
  assumes "cuda_works cu bytes" "n \<le> length host" "i < n"
  shows "length (fst (proof_iteration cu n k (host, dev, tm))) = length host"
    and "fst (proof_iteration cu n k (host, dev, tm)) ! i = of_nat (2 * (i mod 1000) + 1)"
  using assms launch_complete [of "cu_schedule cu k ((n + kThreads - 1) div kThreads) kThreads" n i "fill_pattern n host"]
  by (simp_all add: proof_iteration_def cuda_works_def fill_pattern_def Let_def saxpy_pattern nth_append)

lemma iterations_output:
  assumes "cuda_works cu bytes" "n \<le> length host" "i < n"
  shows "length (fst (fold (proof_iteration cu n) ks (host, dev, tm))) = length host"
    and "ks \<noteq> [] \<Longrightarrow> fst (fold (proof_iteration cu n) ks (host, dev, tm)) ! i = of_nat (2 * (i mod 1000) + 1)"
proof -
  have "length (fst (fold (proof_iteration cu n) ks (host, dev, tm))) = length host
    \<and> (ks \<noteq> [] \<longrightarrow> fst (fold (proof_iteration cu n) ks (host, dev, tm)) ! i = of_nat (2 * (i mod 1000) + 1))"
  proof (induction ks rule: rev_induct)
    case (snoc k ks)
    obtain h d t where "fold (proof_iteration cu n) ks (host, dev, tm) = (h, d, t)" by (metis prod.exhaust)
    then show ?case using snoc iteration_output [OF assms(1) _ assms(3), of h k d t] assms(2) by simp
  qed simp
  then show "length (fst (fold (proof_iteration cu n) ks (host, dev, tm))) = length host"
    "ks \<noteq> [] \<Longrightarrow> fst (fold (proof_iteration cu n) ks (host, dev, tm)) ! i = of_nat (2 * (i mod 1000) + 1)" by blast+
qed

lemma verified_outputD:
  "verified_output n host \<Longrightarrow> i < n \<Longrightarrow> host ! i = of_nat (2 * (i mod 1000) + 1)"
  by (simp add: verified_output_def list_all_iff saxpy_pattern)


definition sample_cuda :: Cuda where
  "sample_cuda = \<lparr>cu_device_count = Some 1, cu_properties = (\<lambda>d. Some \<lparr>cp_name = ''device'', cp_major = 12, cp_minor = 0\<rparr>),
     cu_pci_bus_id = (\<lambda>_. ''0000:01:00.0''), cu_malloc = (\<lambda>b. Some (replicate (b div 4) 0)),
     cu_h2d = (\<lambda>k host dev. host), cu_schedule = (\<lambda>k b t. rev (List.product [0..<b] [0..<t])),
     cu_d2h = (\<lambda>k dev host. dev), cu_malloc_host = False, cu_last_error_clear = True, cu_clock = of_nat\<rparr>"


text \<open>The element count keeps 32 bits: for a buffer of 16 GiB and 8 bytes only two elements are checked.\<close>

lemma proof_count_truncated: "proof_count 0x400000008 = 2"
  by code_simp

text \<open>Enumeration never claims a node for a device, and the ordinals are those of the interface.\<close>

lemma enumerated_locality_unknown:
  "a \<in> set (enumerate_cuda_devices cu) \<Longrightarrow>
     al_locality (ai_locality a) = LC_Unknown \<and> \<not> al_node_is_certain (ai_locality a) \<and> is_cuda a"
  by (auto simp: enumerate_cuda_devices_def cuda_device_def is_cuda_def List.map_filter_def split: option.splits)

end
