(* ===== verification/Coordinator.thy ===== *)
theory Coordinator
  imports Runtime_Safety Protocol_Frame
begin

text \<open>
  \<open>coordinator/coordinator.hpp\<close> and \<open>src/coordinator.cpp\<close>: the server that owns a runtime and
  serves framed requests of workers. \<open>handle_frame\<close> is one request; a connection thread
  feeds what it receives to a stream decoder and handles every complete frame. The
  operating system is an argument: which socket calls succeed, what \<open>recv\<close> delivers, which
  sends succeed, and the clock. A request is one atomic step; threads interleave at
  requests and at the loss of a connection.
\<close>

section \<open>Codes on the wire\<close>

fun authority_code :: "AuthorityVerification \<Rightarrow> u8" where
  "authority_code AV_Accepted = 0"
| "authority_code AV_StaleEpoch = 1"
| "authority_code AV_StaleBoot = 2"
| "authority_code AV_StalePlacementGeneration = 3"
| "authority_code AV_StaleBindingGeneration = 4"
| "authority_code AV_StaleMemoryGeneration = 5"
| "authority_code AV_StaleObservationGeneration = 6"
| "authority_code AV_StaleReservation = 7"
| "authority_code AV_StaleAttempt = 8"
| "authority_code AV_RejectedUnknown = 9"

fun decision_code :: "PlacementDecisionKind \<Rightarrow> u8" where
  "decision_code PD_Place = 0"
| "decision_code PD_PlaceWithPenalty = 1"
| "decision_code PD_Rebind = 2"
| "decision_code PD_Migrate = 3"
| "decision_code PD_Defer = 4"
| "decision_code PD_Reject = 5"
| "decision_code PD_RevalidationRequired = 6"

fun locality_code :: "LocalityClass \<Rightarrow> u8" where
  "locality_code LC_SameNumaNode = 0"
| "locality_code LC_SameSocket = 1"
| "locality_code LC_SameHostRemoteNuma = 2"
| "locality_code LC_Unknown = 3"
| "locality_code LC_Synthetic = 4"

section \<open>State\<close>

record ConnState =
  cs_worker_id :: WorkerId
  cs_boot :: WorkerBootId
  cs_is_worker :: bool

definition fresh_conn :: ConnState where
  "fresh_conn = \<lparr>cs_worker_id = invalid_id, cs_boot = invalid_id, cs_is_worker = False\<rparr>"

text \<open>\<open>co_listening\<close>: the listening socket is open; \<open>co_accepting\<close>: the accept thread was
  started and not joined.\<close>

record 'b Coordinator =
  co_runtime :: "'b Runtime"
  co_running :: bool
  co_next_conn :: u64
  co_port :: u16
  co_listening :: bool
  co_accepting :: bool
  co_conns :: "(u64, ConnState) omap"

definition new_coordinator :: "'b \<Rightarrow> 'b Coordinator" where
  "new_coordinator b = \<lparr>co_runtime = new_runtime b, co_running = False, co_next_conn = 1, co_port = 0,
     co_listening = False, co_accepting = False, co_conns = om_empty\<rparr>"

record BindEnv =
  be_startup :: bool
  be_socket :: bool
  be_bind :: bool
  be_listen :: bool
  be_port :: u16

definition co_bind :: "BindEnv \<Rightarrow> 'b Coordinator \<Rightarrow> ('b Coordinator, u16) outcome" where
  "co_bind env c =
     (if \<not> be_startup env then (c, Inl (RuntimeError ''WSAStartup failed''))
      else if \<not> be_socket env then (c, Inl (RuntimeError ''socket() failed''))
      else if \<not> be_bind env then (c, Inl (RuntimeError ''bind() failed''))
      else if \<not> be_listen env then (c, Inl (RuntimeError ''listen() failed''))
      else (c\<lparr>co_port := be_port env, co_listening := True, co_running := True, co_accepting := True\<rparr>, Inr (be_port env)))"

definition co_shutdown :: "'b Coordinator \<Rightarrow> 'b Coordinator" where
  "co_shutdown c = (if \<not> co_running c then c
                    else c\<lparr>co_running := False, co_listening := False, co_accepting := False\<rparr>)"

definition open_controller :: "'b Coordinator \<Rightarrow> 'b Coordinator \<times> u64" where
  "open_controller c = (let i = co_next_conn c + 1 in
     (c\<lparr>co_next_conn := co_next_conn c + 1, co_conns := om_insert i fresh_conn (co_conns c)\<rparr>, i))"

definition close_controller :: "u64 \<Rightarrow> 'b Coordinator \<Rightarrow> 'b Coordinator" where
  "close_controller i c = c\<lparr>co_conns := om_erase i (co_conns c)\<rparr>"

definition worker_incarnation :: "'b Coordinator \<Rightarrow> WorkerId \<Rightarrow> u64" where
  "worker_incarnation c i = (case rt_worker (co_runtime c) i of Some w \<Rightarrow> wk_incarnation w | None \<Rightarrow> 0)"

definition worker_boot :: "'b Coordinator \<Rightarrow> WorkerId \<Rightarrow> WorkerBootId option" where
  "worker_boot c i = map_option wk_boot_id (rt_worker (co_runtime c) i)"

definition worker_alive :: "'b Coordinator \<Rightarrow> WorkerId \<Rightarrow> bool" where
  "worker_alive c i = (case rt_worker (co_runtime c) i of Some w \<Rightarrow> wk_alive w | None \<Rightarrow> False)"

section \<open>Requests\<close>

definition validate_authority :: "'b Coordinator \<Rightarrow> WorkerId \<Rightarrow> WorkerBootId \<Rightarrow> bool \<times> AuthorityVerification" where
  "validate_authority c i boot =
     (case rt_worker (co_runtime c) i of
        None \<Rightarrow> (False, AV_StaleBoot)
      | Some w \<Rightarrow> if \<not> wk_alive w then (False, AV_StaleBoot)
                  else if wk_boot_id w \<noteq> boot then (False, AV_StaleBoot)
                  else (True, AV_Accepted))"

definition reply :: "MsgType \<Rightarrow> byte list \<Rightarrow> byte list result" where
  "reply ty payload = encode_frame (msg_code ty) payload"

definition error_reply :: "string \<Rightarrow> AuthorityVerification \<Rightarrow> byte list result" where
  "error_reply msg av = reply MT_Error (w_u8 (authority_code av) @ w_str msg)"

text \<open>Reading the payload of a request: an exception of the reader leaves the handler.\<close>

definition parsed :: "'a reader \<Rightarrow> Frame \<Rightarrow> 'b Coordinator \<Rightarrow> ('a \<Rightarrow> ('b Coordinator, byte list) outcome) \<Rightarrow> ('b Coordinator, byte list) outcome" where
  "parsed rd f c k = (case rd (frame_payload f) of Inl e \<Rightarrow> (c, Inl e) | Inr (x, _) \<Rightarrow> k x)"

definition authorized :: "'b Coordinator \<Rightarrow> WorkerId \<Rightarrow> WorkerBootId \<Rightarrow> string \<Rightarrow> ('b Coordinator, byte list) outcome \<Rightarrow> ('b Coordinator, byte list) outcome" where
  "authorized c i boot msg k = (case validate_authority c i boot of (True, _) \<Rightarrow> k | (False, av) \<Rightarrow> (c, error_reply msg av))"

definition on_runtime :: "('b Runtime, 'a) outcome \<Rightarrow> 'b Coordinator \<Rightarrow> ('a \<Rightarrow> byte list result) \<Rightarrow> ('b Coordinator, byte list) outcome" where
  "on_runtime out c k = (case out of (s, Inl e) \<Rightarrow> (c\<lparr>co_runtime := s\<rparr>, Inl e) | (s, Inr x) \<Rightarrow> (c\<lparr>co_runtime := s\<rparr>, k x))"

definition registration :: "WorkerId \<Rightarrow> ProcessId \<Rightarrow> 'b Runtime \<Rightarrow> ('b Runtime, Worker) outcome" where
  "registration i pid s = (if rt_worker s i = None then rt_register_worker i pid s else rt_restart_worker i pid s)"

definition register_ack :: "Worker \<Rightarrow> 'b Runtime \<Rightarrow> byte list" where
  "register_ack w s = w_u64 (id_value (wk_boot_id w)) @ w_u64 (gen_value (rt_epoch s)) @ w_u64 (rt_policy_generation s)
     @ w_u64 (gen_value (ht_generation (rt_topo s))) @ w_u32 (of_nat (length (ht_nodes (rt_topo s)))) @ w_u64 (semantic_digest (rt_topo s))"

definition handle_register :: "u64 \<Rightarrow> Frame \<Rightarrow> 'b Coordinator \<Rightarrow> ('b Coordinator, byte list) outcome" where
  "handle_register conn f c =
     parsed (rd_bind r_id (\<lambda>i. rd_bind r_id (\<lambda>pid. rd_return (i, pid)))) f c (\<lambda>(i, pid).
       if \<not> id_valid i then (c, error_reply ''invalid worker id'' AV_RejectedUnknown)
       else case registration i pid (co_runtime c) of
         (s, Inl e) \<Rightarrow> (c\<lparr>co_runtime := s\<rparr>, Inl e)
       | (s, Inr w) \<Rightarrow>
           (c\<lparr>co_runtime := s,
              co_conns := om_insert conn \<lparr>cs_worker_id = i, cs_boot = wk_boot_id w, cs_is_worker = True\<rparr> (co_conns c)\<rparr>,
            reply MT_RegisterAck (register_ack w s)))"

record PlacementWire =
  plw_worker :: WorkerId
  plw_boot :: WorkerBootId
  plw_epoch :: u64
  plw_footprint :: u64
  plw_pref :: NumaNodeId
  plw_required :: NumaNodeId
  plw_has_required :: bool
  plw_require_accel :: bool
  plw_accel :: AcceleratorId
  plw_cpu :: u32
  plw_allow_fallback :: bool
  plw_revalidation :: bool

definition rd_placement :: "PlacementWire reader" where
  "rd_placement =
     rd_bind r_id (\<lambda>i. rd_bind r_id (\<lambda>boot. rd_bind r_u64 (\<lambda>epoch. rd_bind r_u64 (\<lambda>footprint.
     rd_bind r_id (\<lambda>pref. rd_bind r_id (\<lambda>required. rd_bind r_flag (\<lambda>has_required. rd_bind r_flag (\<lambda>accel_required.
     rd_bind r_id (\<lambda>accel. rd_bind r_u32 (\<lambda>cpu. rd_bind r_flag (\<lambda>fallback. rd_bind r_flag (\<lambda>reval.
       rd_return \<lparr>plw_worker = i, plw_boot = boot, plw_epoch = epoch, plw_footprint = footprint, plw_pref = pref,
         plw_required = required, plw_has_required = has_required, plw_require_accel = accel_required, plw_accel = accel,
         plw_cpu = cpu, plw_allow_fallback = fallback, plw_revalidation = reval\<rparr>))))))))))))"

definition wire_request :: "'b Runtime \<Rightarrow> PlacementWire \<Rightarrow> PlacementRequest" where
  "wire_request s p = default_request\<lparr>pq_workload_id := ''coordinated'', pq_memory_footprint := Quantity (plw_footprint p),
     pq_preferred_node := plw_pref p, pq_required_node := plw_required p, pq_has_required_node := plw_has_required p,
     pq_require_accelerator_locality := plw_require_accel p, pq_preferred_accelerator := plw_accel p,
     pq_required_cpu_count := plw_cpu p, pq_allow_fallback := plw_allow_fallback p,
     pq_policy_generation := Generation (rt_policy_generation s + 1), pq_revalidation_pending := plw_revalidation p\<rparr>"

definition w_candidate :: "CandidateCost \<Rightarrow> byte list" where
  "w_candidate k = w_u64 (id_value (cc_node k)) @ w_u64 (qty_value (cc_total k)) @ w_bool (cc_eligible k)"

definition w_decision :: "PlacementDecision \<Rightarrow> byte list" where
  "w_decision d = w_u8 (decision_code (pd_kind d)) @ w_u64 (id_value (pd_selected_node d)) @ w_u64 (qty_value (pd_expected_penalty d))
     @ w_u8 (locality_code (pd_expected_locality_class d)) @ w_str (pd_binding_constraint d) @ w_str (pd_reason d)
     @ w_str (pd_would_change d) @ w_u32 (of_nat (length (pd_ranked_candidates d))) @ concat (map w_candidate (pd_ranked_candidates d))
     @ w_u32 (of_nat (length (pd_eliminated_candidates d))) @ concat (map w_str (pd_eliminated_candidates d))"

definition handle_placement :: "'b Backend \<Rightarrow> Frame \<Rightarrow> 'b Coordinator \<Rightarrow> ('b Coordinator, byte list) outcome" where
  "handle_placement be f c =
     parsed rd_placement f c (\<lambda>p.
       if plw_epoch p \<noteq> gen_value (rt_epoch (co_runtime c)) then (c, error_reply ''stale coordinator epoch'' AV_StaleEpoch)
       else authorized c (plw_worker p) (plw_boot p) ''stale placement authority''
         (c, rbind (rt_plan be (wire_request (co_runtime c) p) (co_runtime c)) (\<lambda>d. reply MT_PlacementReply (w_decision d))))"

definition rd_reserve :: "(WorkerId \<times> WorkerBootId \<times> ReserveRequest) reader" where
  "rd_reserve =
     rd_bind r_id (\<lambda>i. rd_bind r_id (\<lambda>boot. rd_bind r_id (\<lambda>node. rd_bind r_u64 (\<lambda>bytes. rd_bind r_u32 (\<lambda>cpu.
     rd_bind r_id (\<lambda>accel. rd_bind r_flag (\<lambda>accel_cap.
       rd_return (i, boot, \<lparr>rq_node = node, rq_bytes = Quantity bytes, rq_cpu_slots = cpu, rq_accelerator = accel,
         rq_accelerator_capacity = accel_cap, rq_owner = invalid_id, rq_worker = i, rq_expected_generation = None\<rparr>))))))))"

definition handle_reserve :: "Frame \<Rightarrow> 'b Coordinator \<Rightarrow> ('b Coordinator, byte list) outcome" where
  "handle_reserve f c =
     parsed rd_reserve f c (\<lambda>(i, boot, rr).
       authorized c i boot ''stale reserve authority''
         (on_runtime (rt_reserve rr (co_runtime c)) c (\<lambda>r. reply MT_ReserveReply (w_u64 (id_value (rs_id r)) @ w_u64 (gen_value (rs_generation r))))))"

definition handle_release :: "Frame \<Rightarrow> 'b Coordinator \<Rightarrow> ('b Coordinator, byte list) outcome" where
  "handle_release f c =
     parsed (rd_bind r_id (\<lambda>i. rd_bind r_id (\<lambda>boot. rd_bind r_id (\<lambda>res. rd_return (i, boot, res))))) f c (\<lambda>(i, boot, res).
       authorized c i boot ''stale release authority''
         (on_runtime (release_reservation res (co_runtime c)) c (\<lambda>_. reply MT_ReleaseReply (w_u8 1))))"

definition handle_bind :: "'b Backend \<Rightarrow> Frame \<Rightarrow> 'b Coordinator \<Rightarrow> ('b Coordinator, byte list) outcome" where
  "handle_bind be f c =
     parsed (rd_bind r_id (\<lambda>i. rd_bind r_id (\<lambda>boot. rd_bind r_id (\<lambda>node. rd_bind r_flag (\<lambda>app. rd_return (i, boot, node, app)))))) f c
       (\<lambda>(i, boot, node, app). authorized c i boot ''stale bind authority''
         (on_runtime (bind_worker be i boot node app (co_runtime c)) c (\<lambda>r.
            reply MT_BindReply (w_u64 (id_value (br_binding_id r)) @ w_u64 (gen_value (br_generation r)) @ w_bool (br_applied r)))))"

definition handle_migrate :: "'b Backend \<Rightarrow> u64 \<Rightarrow> Frame \<Rightarrow> 'b Coordinator \<Rightarrow> ('b Coordinator, byte list) outcome" where
  "handle_migrate be now f c =
     parsed (rd_bind r_id (\<lambda>i. rd_bind r_id (\<lambda>boot. rd_bind r_id (\<lambda>region. rd_bind r_id (\<lambda>target. rd_bind r_str (\<lambda>reason.
               rd_return (i, boot, region, target, reason))))))) f c
       (\<lambda>(i, boot, region, target, reason). authorized c i boot ''stale migrate authority''
         (on_runtime (rt_migrate be now region target i \<lparr>au_epoch = rt_epoch (co_runtime c), au_boot = boot\<rparr> reason (co_runtime c)) c
            (\<lambda>committed. reply MT_MigrateReply (w_bool committed))))"

text \<open>\<open>observe\<close> does not look at the source it is given, so a code without an enumerator makes
  no difference.\<close>

definition handle_observe :: "Frame \<Rightarrow> 'b Coordinator \<Rightarrow> ('b Coordinator, byte list) outcome" where
  "handle_observe f c =
     parsed (rd_bind r_id (\<lambda>i. rd_bind r_id (\<lambda>boot. rd_bind r_id (\<lambda>node. rd_bind r_u8 (\<lambda>src. rd_bind r_flag (\<lambda>stale.
               rd_return (i, boot, node, src, stale))))))) f c
       (\<lambda>(i, boot, node, src, stale). authorized c i boot ''stale observe authority''
         (c\<lparr>co_runtime := rt_observe i boot node (case provenance_of_code src of Some p \<Rightarrow> p | None \<Rightarrow> PS_Unknown) stale (co_runtime c)\<rparr>,
          reply MT_ObserveAck (w_u8 1)))"

definition handle_discover :: "'b Coordinator \<Rightarrow> ('b Coordinator, byte list) outcome" where
  "handle_discover c =
     (let t = rt_topo (co_runtime c) in
      (c, reply MT_DiscoverReply (w_u32 (of_nat (length (ht_nodes t))) @ w_u32 (of_nat (length (ht_groups t)))
        @ w_u32 (of_nat (length (ht_processors t))) @ w_u64 (semantic_digest t) @ w_bool (is_single_node t))))"

definition handle_revalidate :: "Frame \<Rightarrow> 'b Coordinator \<Rightarrow> ('b Coordinator, byte list) outcome" where
  "handle_revalidate f c =
     parsed (rd_bind r_id (\<lambda>i. rd_bind r_id (\<lambda>boot. rd_return (i, boot)))) f c (\<lambda>(i, boot).
       authorized c i boot ''stale revalidate authority'' (c, reply MT_RevalidateReply (w_u8 1)))"

definition dispatch :: "'b Backend \<Rightarrow> u64 \<Rightarrow> u64 \<Rightarrow> Frame \<Rightarrow> 'b Coordinator \<Rightarrow> ('b Coordinator, byte list) outcome" where
  "dispatch be now conn f c =
     (case msg_of_code (frame_type f) of
        Some MT_Register \<Rightarrow> handle_register conn f c
      | Some MT_PlacementRequest \<Rightarrow> handle_placement be f c
      | Some MT_ReserveRequest \<Rightarrow> handle_reserve f c
      | Some MT_ReleaseRequest \<Rightarrow> handle_release f c
      | Some MT_BindRequest \<Rightarrow> handle_bind be f c
      | Some MT_MigrateRequest \<Rightarrow> handle_migrate be now f c
      | Some MT_ObserveReport \<Rightarrow> handle_observe f c
      | Some MT_Ping \<Rightarrow> (c, reply MT_Pong (w_u64 1))
      | Some MT_Shutdown \<Rightarrow> (c\<lparr>co_running := False\<rparr>, reply MT_Shutdown (w_u8 1))
      | Some MT_DiscoverRequest \<Rightarrow> handle_discover c
      | Some MT_RevalidateRequest \<Rightarrow> handle_revalidate f c
      | _ \<Rightarrow> (c, error_reply ''unhandled message type'' AV_RejectedUnknown))"

definition handle_frame :: "'b Backend \<Rightarrow> u64 \<Rightarrow> u64 \<Rightarrow> Frame \<Rightarrow> 'b Coordinator \<Rightarrow> ('b Coordinator, byte list) outcome" where
  "handle_frame be now conn f c =
     (case dispatch be now conn f c of
        (c, Inl e) \<Rightarrow> (c, error_reply (what e) AV_RejectedUnknown)
      | (c, Inr bs) \<Rightarrow> (c, Inr bs))"

section \<open>Connections\<close>

text \<open>
  One connection thread. Its state is the coordinator, the buffer of its decoder and the
  replies it has sent. \<open>sends n\<close> says whether the \<open>n\<close>-th \<open>send_all\<close> succeeds and \<open>clock n\<close> is the
  time when the frame after \<open>n\<close> replies is handled. The result is whether the connection is
  lost, or an exception that leaves the thread.
\<close>

datatype send_result = Sent nat | SendFailed

text \<open>\<open>send_all\<close>: the bytes handed to the socket and whether all calls of \<open>send\<close> succeeded, for
  given results of these calls; \<open>None\<close> when the last of them has not returned.\<close>

fun send_all :: "nat \<Rightarrow> byte list \<Rightarrow> send_result list \<Rightarrow> (byte list \<times> bool) option" where
  "send_all off data [] = (if off < length data then None else Some ([], True))"
| "send_all off data (SendFailed # rs) = (if off < length data then Some ([], False) else Some ([], True))"
| "send_all off data (Sent n # rs) =
     (if off < length data
      then map_option (\<lambda>(d, ok). (take n (drop off data) @ d, ok)) (send_all (off + n) data rs)
      else Some ([], True))"

datatype recv_event = Received "byte list" | PeerClosed | WouldBlock | SocketError

type_synonym 'b conn_state = "'b Coordinator \<times> byte list \<times> byte list list"

definition serve_frame :: "'b Backend \<Rightarrow> (nat \<Rightarrow> u64) \<Rightarrow> (nat \<Rightarrow> bool) \<Rightarrow> u64 \<Rightarrow> Frame \<Rightarrow> 'b conn_state \<Rightarrow> ('b conn_state, bool) outcome" where
  "serve_frame be clock sends conn f = (\<lambda>(c, buf, sent).
     case handle_frame be (clock (length sent)) conn f c of
       (c, Inl e) \<Rightarrow> ((c, buf, sent), Inl e)
     | (c, Inr bs) \<Rightarrow>
         if bs = [] then ((c, buf, sent), Inr False)
         else if sends (length sent) then ((c, buf, sent @ [bs]), Inr False)
         else ((c, buf, sent), Inr True))"

lemma serve_frame_buffer: "serve_frame be clock sends conn f (c, buf, sent) = ((c', buf', sent'), r) \<Longrightarrow> buf' = buf"
  by (auto simp: serve_frame_def split: prod.splits sum.splits if_splits)

function drain_conn :: "'b Backend \<Rightarrow> (nat \<Rightarrow> u64) \<Rightarrow> (nat \<Rightarrow> bool) \<Rightarrow> u64 \<Rightarrow> 'b conn_state \<Rightarrow> ('b conn_state, bool) outcome" where
  "drain_conn be clock sends conn (c, buf, sent) =
     (case push buf [] of
        (buf, Inl e) \<Rightarrow> ((c, buf, sent), Inl e)
      | (buf, Inr None) \<Rightarrow> ((c, buf, sent), Inr False)
      | (buf, Inr (Some f)) \<Rightarrow>
          (case serve_frame be clock sends conn f (c, buf, sent) of
             (s, Inl e) \<Rightarrow> (s, Inl e)
           | (s, Inr lost) \<Rightarrow> if lost then (s, Inr True) else drain_conn be clock sends conn s))"
  by pat_completeness auto
termination
  by (relation "measure (\<lambda>(be, clock, sends, conn, c, buf, sent). length buf)")
    (auto dest!: push_none_shrinks [OF sym] serve_frame_buffer [OF sym])

declare drain_conn.simps [simp del]

definition conn_chunk :: "'b Backend \<Rightarrow> (nat \<Rightarrow> u64) \<Rightarrow> (nat \<Rightarrow> bool) \<Rightarrow> u64 \<Rightarrow> byte list \<Rightarrow> 'b conn_state \<Rightarrow> ('b conn_state, bool) outcome" where
  "conn_chunk be clock sends conn data = (\<lambda>(c, buf, sent).
     case push buf data of
       (buf, Inl e) \<Rightarrow> ((c, buf, sent), Inl e)
     | (buf, Inr fr) \<Rightarrow>
         (case (case fr of None \<Rightarrow> ((c, buf, sent), Inr False) | Some f \<Rightarrow> serve_frame be clock sends conn f (c, buf, sent)) of
            (s, Inl e) \<Rightarrow> (s, Inl e)
          | (s, Inr lost) \<Rightarrow> if lost then (s, Inr True) else drain_conn be clock sends conn s))"

fun conn_loop :: "'b Backend \<Rightarrow> (nat \<Rightarrow> u64) \<Rightarrow> (nat \<Rightarrow> bool) \<Rightarrow> u64 \<Rightarrow> recv_event list \<Rightarrow> 'b conn_state \<Rightarrow> ('b conn_state, bool) outcome" where
  "conn_loop be clock sends conn [] s = (s, Inr False)"
| "conn_loop be clock sends conn (Received data # evs) s =
     (case conn_chunk be clock sends conn data s of
        (s, Inl e) \<Rightarrow> (s, Inl e)
      | (s, Inr lost) \<Rightarrow> if lost then (s, Inr True) else conn_loop be clock sends conn evs s)"
| "conn_loop be clock sends conn (WouldBlock # evs) s = conn_loop be clock sends conn evs s"
| "conn_loop be clock sends conn (PeerClosed # evs) s = (s, Inr True)"
| "conn_loop be clock sends conn (SocketError # evs) s = (s, Inr True)"

definition lose_connection :: "u64 \<Rightarrow> 'b Coordinator \<Rightarrow> 'b Coordinator" where
  "lose_connection conn c =
     (let st = (case om_find (co_conns c) conn of Some st \<Rightarrow> st | None \<Rightarrow> fresh_conn);
          c = (if cs_is_worker st \<and> id_valid (cs_worker_id st)
               then c\<lparr>co_runtime := mark_worker_dead (cs_worker_id st) (cs_boot st) (co_runtime c)\<rparr> else c)
      in c\<lparr>co_conns := om_erase conn (co_conns c)\<rparr>)"

definition accept_connection :: "'b Coordinator \<Rightarrow> 'b Coordinator \<times> u64" where
  "accept_connection c = (let i = co_next_conn c + 1 in
     (c\<lparr>co_next_conn := co_next_conn c + 1, co_conns := om_insert i fresh_conn (co_conns c)\<rparr>, i))"

definition connection_thread :: "'b Backend \<Rightarrow> (nat \<Rightarrow> u64) \<Rightarrow> (nat \<Rightarrow> bool) \<Rightarrow> u64 \<Rightarrow> recv_event list \<Rightarrow> 'b Coordinator \<Rightarrow>
    ('b Coordinator, byte list list) outcome" where
  "connection_thread be clock sends conn evs c =
     (case conn_loop be clock sends conn evs (c, [], []) of
        ((c, _, sent), Inl e) \<Rightarrow> (c, Inl e)
      | ((c, _, sent), Inr lost) \<Rightarrow> (if lost then lose_connection conn c else c, Inr sent))"

end
