(* ===== verification/Coordinator_Safety.thy ===== *)
theory Coordinator_Safety
  imports Coordinator
begin

text \<open>
  What the coordinator guarantees towards its workers: every request is answered by one
  well-formed frame; a request in the name of a boot that is not current changes nothing,
  and once a worker has registered again this holds for its old boot for ever; the loss
  of a connection ends exactly the incarnation that registered over it; and how the
  transport cuts the requests into pieces makes no difference.
\<close>

section \<open>Replies\<close>

lemma msg_of_code_code [simp]: "msg_of_code (msg_code m) = Some m"
  by (cases m) (simp_all add: msg_of_code_def all_msg_types_def)

definition is_reply :: "MsgType \<Rightarrow> byte list \<Rightarrow> bool" where
  "is_reply m bs \<longleftrightarrow> (\<exists>f. decode_one bs = Inr (Some (f, length bs)) \<and> frame_type f = msg_code m)"

lemma reply_Inr:
  assumes "reply m p = Inr bs"
  shows "is_reply m bs" and "bs \<noteq> []"
proof -
  let ?f = "\<lparr>frame_version = kProtocolVersion, frame_type = msg_code m, frame_payload = p\<rparr>"
  have ok: "frame_ok ?f" using assms by (simp add: reply_def encode_frame_def frame_ok_def split: if_splits)
  then have bs: "bs = frame_bytes ?f" using assms encode_frame_bytes [OF ok] by (simp add: reply_def)
  show "is_reply m bs" unfolding bs is_reply_def using decode_frame_bytes [OF ok, of "[]"] by auto
  have "length bs \<noteq> 0" unfolding bs by simp
  then show "bs \<noteq> []" by auto
qed

lemma reply_ok: "length p \<le> kMaxPayloadLength \<Longrightarrow> \<exists>bs. reply m p = Inr bs"
  by (simp add: reply_def encode_frame_def Let_def)

lemma error_reply_ok: "length msg \<le> kMaxPayloadLength - 5 \<Longrightarrow> \<exists>bs. error_reply msg av = Inr bs \<and> is_reply MT_Error bs"
  using reply_ok [of "w_u8 (authority_code av) @ w_str msg" MT_Error] reply_Inr(1)
  by (auto simp: error_reply_def w_str_def w_bytes_def kMaxPayloadLength_def)

text \<open>A reader whose exceptions have a short text.\<close>

definition plain_errors :: "'a reader \<Rightarrow> bool" where
  "plain_errors rd \<longleftrightarrow> (\<forall>bs e. rd bs = Inl e \<longrightarrow> length (what e) \<le> 30)"

lemma plain_return [intro]: "plain_errors (rd_return x)"
  by (simp add: plain_errors_def)

lemma plain_bind [intro]: "plain_errors m \<Longrightarrow> (\<And>x. plain_errors (k x)) \<Longrightarrow> plain_errors (rd_bind m k)"
  by (auto simp: plain_errors_def rd_bind_def split: sum.splits)

lemma plain_fixed: "length (what e) \<le> 30 \<Longrightarrow> plain_errors (rd_fixed e k g)"
  by (simp add: plain_errors_def rd_fixed_def)

lemma plain_prims [intro]: "plain_errors r_u8" "plain_errors r_u32" "plain_errors r_u64" "plain_errors r_flag" "plain_errors r_id"
  "plain_errors r_str"
  unfolding r_u8_def r_u32_def r_u64_def r_flag_def r_id_def r_str_def
  by (auto intro!: plain_bind plain_fixed simp: wire_truncated_def)

section \<open>Requests in the name of a stale boot\<close>

definition fenced_types :: "MsgType list" where
  "fenced_types = [MT_PlacementRequest, MT_ReserveRequest, MT_ReleaseRequest, MT_BindRequest, MT_MigrateRequest,
     MT_ObserveReport, MT_RevalidateRequest]"

definition claims :: "Frame \<Rightarrow> WorkerId \<Rightarrow> WorkerBootId \<Rightarrow> bool" where
  "claims f i boot \<longleftrightarrow> (\<exists>m\<in>set fenced_types. frame_type f = msg_code m)
     \<and> (\<exists>rest rest'. r_id (frame_payload f) = Inr (i, rest) \<and> r_id rest = Inr (boot, rest'))"

lemma validate_authority_iff:
  "validate_authority c i boot = (if validate_boot (rt_registry (co_runtime c)) i boot then (True, AV_Accepted) else (False, AV_StaleBoot))"
  by (auto simp: validate_authority_def validate_boot_def rt_worker_def find_worker_def split: option.splits)

definition refuses :: "'b Coordinator \<Rightarrow> ('b Coordinator, byte list) outcome \<Rightarrow> bool" where
  "refuses c out \<longleftrightarrow> fst out = c \<and> (case snd out of Inl e \<Rightarrow> length (what e) \<le> 30 | Inr bs \<Rightarrow> is_reply MT_Error bs)"

lemma refuses_error: "length msg \<le> 30 \<Longrightarrow> refuses c (c, error_reply msg av)"
  using error_reply_ok [of msg av] by (auto simp: refuses_def kMaxPayloadLength_def)

lemma refuses_parsed:
  assumes "plain_errors rd" and "\<And>x rest. rd (frame_payload f) = Inr (x, rest) \<Longrightarrow> refuses c (k x)"
  shows "refuses c (parsed rd f c k)"
  using assms by (auto simp: parsed_def refuses_def plain_errors_def split: sum.splits)

lemma refuses_authorized:
  "\<not> validate_boot (rt_registry (co_runtime c)) i boot \<Longrightarrow> length msg \<le> 30 \<Longrightarrow> refuses c (authorized c i boot msg k)"
  by (simp add: authorized_def validate_authority_iff refuses_error)

lemma plain_placement: "plain_errors rd_placement" "plain_errors rd_reserve"
  unfolding rd_placement_def rd_reserve_def by (intro plain_bind plain_prims plain_return)+

lemma fenced_handlers:
  assumes "r_id (frame_payload f) = Inr (i, rest)" and "r_id rest = Inr (boot, rest')"
    and "\<not> validate_boot (rt_registry (co_runtime c)) i boot"
  shows "refuses c (handle_placement be f c)" "refuses c (handle_reserve f c)" "refuses c (handle_release f c)"
    "refuses c (handle_bind be f c)" "refuses c (handle_migrate be now f c)" "refuses c (handle_observe f c)" "refuses c (handle_revalidate f c)"
proof -
  note id = assms(1,2)
  note auth = refuses_authorized [OF assms(3)]
  show "refuses c (handle_placement be f c)"
    unfolding handle_placement_def using id auth
    by (intro refuses_parsed plain_placement) (auto simp: rd_placement_def rd_bind_Inr intro!: refuses_error auth)
  show "refuses c (handle_reserve f c)"
    unfolding handle_reserve_def using id
    by (intro refuses_parsed plain_placement) (auto simp: rd_reserve_def rd_bind_Inr intro!: auth)
  show "refuses c (handle_release f c)" "refuses c (handle_bind be f c)" "refuses c (handle_migrate be now f c)"
    "refuses c (handle_observe f c)" "refuses c (handle_revalidate f c)"
    unfolding handle_release_def handle_bind_def handle_migrate_def handle_observe_def handle_revalidate_def
    using id by - (rule refuses_parsed, (intro plain_bind plain_prims plain_return)[1], (auto simp: rd_bind_Inr intro!: auth)[1])+
qed

lemma stale_request_refused:
  assumes "claims f i boot" and "\<not> validate_boot (rt_registry (co_runtime c)) i boot"
  shows "\<exists>bs. handle_frame be now conn f c = (c, Inr bs) \<and> is_reply MT_Error bs"
proof -
  from assms(1) obtain m rest rest' where m: "m \<in> set fenced_types" "frame_type f = msg_code m"
    and id: "r_id (frame_payload f) = Inr (i, rest)" "r_id rest = Inr (boot, rest')"
    by (auto simp: claims_def)
  have "refuses c (dispatch be now conn f c)"
    using m fenced_handlers [OF id assms(2)] by (auto simp: dispatch_def fenced_types_def)
  then show ?thesis
    using error_reply_ok [of "what e" AV_RejectedUnknown for e]
    by (cases "dispatch be now conn f c") (auto simp: handle_frame_def refuses_def kMaxPayloadLength_def split: sum.splits)
qed

section \<open>Runs of the coordinator\<close>

text \<open>
  A step is a request on any connection, the arrival or the loss of a connection, or a
  call of the runtime by the process that embeds the coordinator.
\<close>

inductive co_step :: "'b Backend \<Rightarrow> ('b \<Rightarrow> bool) \<Rightarrow> 'b Coordinator \<Rightarrow> 'b Coordinator \<Rightarrow> bool"
  for be :: "'b Backend" and ready :: "'b \<Rightarrow> bool" where
  co_request: "wr_next_boot (rt_registry (co_runtime c)) \<noteq> - 1 \<Longrightarrow> handle_frame be now conn f c = (c', r) \<Longrightarrow> co_step be ready c c'"
| co_loss: "co_step be ready c (lose_connection conn c)"
| co_accept: "accept_connection c = (c', i) \<Longrightarrow> co_step be ready c c'"
| co_open: "open_controller c = (c', i) \<Longrightarrow> co_step be ready c c'"
| co_close: "co_step be ready c (close_controller i c)"
| co_call: "rt_step be ready (co_runtime c) s \<Longrightarrow> co_step be ready c (c\<lparr>co_runtime := s\<rparr>)"

abbreviation registry_of :: "'b Coordinator \<Rightarrow> WorkerRegistry" where
  "registry_of c \<equiv> rt_registry (co_runtime c)"

definition moves :: "'b Coordinator \<Rightarrow> 'b Coordinator \<Rightarrow> bool" where
  "moves c c' \<longleftrightarrow> registry_of c' = registry_of c \<or> registry_step (registry_of c) (registry_of c')"

lemma moves_same [simp]: "moves c c"
  by (simp add: moves_def)

lemma moves_parsed: "(\<And>x. moves c (fst (k x))) \<Longrightarrow> moves c (fst (parsed rd f c k))"
  by (auto simp: parsed_def split: sum.splits)

lemma moves_authorized: "moves c (fst k) \<Longrightarrow> moves c (fst (authorized c i boot msg k))"
  by (auto simp: authorized_def split: prod.splits bool.splits)

lemma moves_on_runtime: "moves c (c\<lparr>co_runtime := fst out\<rparr>) \<Longrightarrow> moves c (fst (on_runtime out c k))"
  by (auto simp: on_runtime_def split: prod.splits sum.splits)

lemma observe_registry:
  "rt_registry (rt_observe i boot node source stale s) = rt_registry s
   \<or> registry_step (rt_registry s) (rt_registry (rt_observe i boot node source stale s))"
  by (auto simp: rt_observe_def intro: field_write split: option.splits)

lemma bind_worker_moves:
  "rt_registry (fst (bind_worker be w boot node a s)) = rt_registry s
   \<or> registry_step (rt_registry s) (rt_registry (fst (bind_worker be w boot node a s)))"
proof -
  have "wk_id (bound_worker r node aff v) = wk_id v \<and> wk_boot_id (bound_worker r node aff v) = wk_boot_id v" for r aff v
    by (simp add: bound_worker_def)
  then show ?thesis using bind_registry [of be w boot node a s] field_write by metis
qed

lemma registration_step:
  assumes "wr_next_boot (rt_registry s) \<noteq> - 1" and "registration i pid s = (s', r)"
  shows "registry_step (rt_registry s) (rt_registry s')"
  using assms by (auto simp: registration_def rt_register_worker_def rt_restart_worker_def intro: register restart
      split: if_splits prod.splits)

lemma register_moves: "wr_next_boot (registry_of c) \<noteq> - 1 \<Longrightarrow> moves c (fst (handle_register conn f c))"
  unfolding handle_register_def
  by (rule moves_parsed) (auto simp: moves_def dest: registration_step split: prod.splits sum.splits)

lemma handle_moves:
  assumes "wr_next_boot (registry_of c) \<noteq> - 1"
  shows "moves c (fst (handle_frame be now conn f c))"
proof -
  have plain: "moves c (c\<lparr>co_runtime := s\<rparr>)" if "rt_registry s = registry_of c \<or> registry_step (registry_of c) (rt_registry s)" for s
    using that by (simp add: moves_def)
  have same: "rt_registry (fst (rt_reserve rr s)) = rt_registry s" "rt_registry (fst (release_reservation res s)) = rt_registry s" for rr res s
    by (simp_all add: rt_reserve_def release_reservation_def split_beta)
  have mig: "rt_registry (fst (rt_migrate be now region target i auth reason s)) = rt_registry s" for region target i auth reason s
    using migrate_other by (metis prod.collapse)
  note mv = plain [OF bind_worker_moves] plain [OF observe_registry]
  have "moves c (fst (handle_placement be f c))" "moves c (fst (handle_reserve f c))" "moves c (fst (handle_release f c))"
    "moves c (fst (handle_bind be f c))" "moves c (fst (handle_migrate be now f c))" "moves c (fst (handle_observe f c))"
    "moves c (fst (handle_revalidate f c))" "moves c (fst (handle_discover c))"
    unfolding handle_placement_def handle_reserve_def handle_release_def handle_bind_def handle_migrate_def handle_observe_def
      handle_revalidate_def handle_discover_def Let_def
    by (auto intro!: moves_parsed moves_authorized moves_on_runtime mv simp: same mig plain split: prod.splits)
  moreover have "moves c (c\<lparr>co_running := False\<rparr>)" by (simp add: moves_def)
  ultimately have "moves c (fst (dispatch be now conn f c))"
    using register_moves [OF assms] by (auto simp: dispatch_def split: option.splits MsgType.splits)
  then show ?thesis by (auto simp: handle_frame_def split: prod.splits sum.splits)
qed

lemma co_step_registry: "co_step be ready c c' \<Longrightarrow> registry_step\<^sup>*\<^sup>* (registry_of c) (registry_of c')"
proof (induction rule: co_step.induct)
  case (co_request c now conn f c' r)
  then show ?case using handle_moves [OF co_request(1), of be now conn f] by (auto simp: moves_def)
next
  case (co_loss c conn)
  then show ?case by (auto simp: lose_connection_def Let_def mark_worker_dead_def intro: dead)
next
  case (co_call c s)
  then show ?case using rt_step_registry by simp
qed (auto simp: accept_connection_def open_controller_def close_controller_def Let_def)

lemma co_run_registry: "(co_step be ready)\<^sup>*\<^sup>* c c' \<Longrightarrow> registry_step\<^sup>*\<^sup>* (registry_of c) (registry_of c')"
  by (induction rule: rtranclp_induct) (auto dest: co_step_registry)

section \<open>Fencing on the wire\<close>

lemma r_id_u64: "r_id (w_u64 v @ rest) = Inr (Id v, rest)" "r_id (w_u64 v) = Inr (Id v, [])"
  using r_w_id [of "Id v" rest] r_w_id [of "Id v" "[]"] by simp_all

definition register_frame :: "WorkerId \<Rightarrow> ProcessId \<Rightarrow> Frame" where
  "register_frame i pid = \<lparr>frame_version = kProtocolVersion, frame_type = msg_code MT_Register,
     frame_payload = w_u64 (id_value i) @ w_u64 (id_value pid)\<rparr>"

lemma handle_register_frame:
  assumes "id_valid i" and "registration i pid (co_runtime c) = (s, Inr w)"
  shows "fst (handle_frame be now conn (register_frame i pid) c)
    = c\<lparr>co_runtime := s, co_conns := om_insert conn \<lparr>cs_worker_id = i, cs_boot = wk_boot_id w, cs_is_worker = True\<rparr> (co_conns c)\<rparr>"
proof -
  have "dispatch be now conn (register_frame i pid) c =
      (c\<lparr>co_runtime := s, co_conns := om_insert conn \<lparr>cs_worker_id = i, cs_boot = wk_boot_id w, cs_is_worker = True\<rparr> (co_conns c)\<rparr>,
       reply MT_RegisterAck (register_ack w s))"
    using assms by (simp add: dispatch_def register_frame_def handle_register_def parsed_def rd_bind_def r_id_u64 del: msg_code.simps)
  then show ?thesis by (simp add: handle_frame_def split: sum.splits)
qed


text \<open>
  The loss of a connection ends exactly the incarnation that registered over it: a boot
  is valid afterwards if it was valid before and is not the boot of that registration. In
  particular the late loss of an old connection does not touch a worker that registered
  again over another one.
\<close>

theorem connection_loss_exact:
  "validate_boot (registry_of (lose_connection conn c)) j boot \<longleftrightarrow>
     validate_boot (registry_of c) j boot
     \<and> \<not> (case om_find (co_conns c) conn of
            None \<Rightarrow> False
          | Some st \<Rightarrow> cs_is_worker st \<and> id_valid (cs_worker_id st) \<and> cs_worker_id st = j \<and> cs_boot st = boot)"
  by (auto simp: lose_connection_def Let_def mark_worker_dead_def validate_boot_def mark_dead_def fresh_conn_def
      split: option.splits)

definition framed :: "byte list result \<Rightarrow> bool" where
  "framed r \<longleftrightarrow> (\<forall>bs. r = Inr bs \<longrightarrow> (\<exists>m. is_reply m bs))"

lemma framed_reply [intro!]: "framed (reply m p)" "framed (error_reply msg av)"
  using reply_Inr(1) by (auto simp: framed_def error_reply_def)

lemma framed_rbind: "(\<And>x. framed (k x)) \<Longrightarrow> framed (rbind m k)"
  by (auto simp: framed_def rbind_Inr_iff)

lemma framed_parsed: "(\<And>x. framed (snd (k x))) \<Longrightarrow> framed (snd (parsed rd f c k))"
  by (auto simp: parsed_def framed_def split: sum.splits)

lemma framed_authorized: "framed (snd k) \<Longrightarrow> framed (snd (authorized c i boot msg k))"
  by (auto simp: authorized_def split: prod.splits bool.splits)

lemma framed_on_runtime: "(\<And>x. framed (k x)) \<Longrightarrow> framed (snd (on_runtime out c k))"
  by (auto simp: on_runtime_def framed_def split: prod.splits sum.splits)

lemma dispatch_replies: "framed (snd (dispatch be now conn f c))"
proof -
  have "framed (snd (handle_register conn f c))" "framed (snd (handle_placement be f c))" "framed (snd (handle_reserve f c))"
    "framed (snd (handle_release f c))" "framed (snd (handle_bind be f c))" "framed (snd (handle_migrate be now f c))"
    "framed (snd (handle_observe f c))" "framed (snd (handle_revalidate f c))" "framed (snd (handle_discover c))"
    unfolding handle_register_def handle_placement_def handle_reserve_def handle_release_def handle_bind_def handle_migrate_def
      handle_observe_def handle_revalidate_def handle_discover_def Let_def
    by (auto intro!: framed_parsed framed_authorized framed_on_runtime framed_rbind split: prod.splits sum.splits)
      (simp add: framed_def)
  then show ?thesis by (auto simp: dispatch_def split: option.splits MsgType.splits)
qed

text \<open>
  C18. Every request, of whatever type and content, is answered by exactly one well-formed
  frame, unless an exception text exceeds the largest payload. A request that was
  dispatched with an exception is answered by an error frame.
\<close>

theorem every_request_answered:
  assumes "handle_frame be now conn f c = (c', r)"
  shows "(\<exists>bs m. r = Inr bs \<and> is_reply m bs \<and> (\<not> is_ok (snd (dispatch be now conn f c)) \<longrightarrow> m = MT_Error))
    \<or> (\<exists>e. snd (dispatch be now conn f c) = Inl e \<and> length (what e) > kMaxPayloadLength - 5)"
proof (cases "snd (dispatch be now conn f c)")
  case (Inl e)
  then show ?thesis
    using assms error_reply_ok [of "what e" AV_RejectedUnknown] by (cases "dispatch be now conn f c") (auto simp: handle_frame_def not_less)
next
  case (Inr bs)
  then show ?thesis
    using assms dispatch_replies [of be now conn f c] by (cases "dispatch be now conn f c") (auto simp: handle_frame_def framed_def)
qed

section \<open>The connection loop\<close>

text \<open>However the socket splits a reply, \<open>send_all\<close> succeeds only after all of it was handed over, in order.\<close>

lemma send_all_complete: "send_all off data rs = Some (d, True) \<Longrightarrow> d = drop off data"
proof (induction off data rs arbitrary: d rule: send_all.induct)
  case (3 off data n rs)
  show ?case
  proof (cases "off < length data")
    case True
    with "3.prems" obtain d' where "send_all (off + n) data rs = Some (d', True)" "d = take n (drop off data) @ d'" by auto
    with "3.IH" [OF True] have "d = take n (drop off data) @ drop n (drop off data)" by (simp add: add.commute)
    then show ?thesis by (simp only: append_take_drop_id)
  qed (use "3.prems" in simp)
qed (auto split: if_splits)

text \<open>The requests handled one after the other, with the replies in order.\<close>

fun handle_all :: "'b Backend \<Rightarrow> (nat \<Rightarrow> u64) \<Rightarrow> u64 \<Rightarrow> nat \<Rightarrow> Frame list \<Rightarrow> 'b Coordinator \<Rightarrow> ('b Coordinator \<times> byte list list) result" where
  "handle_all be clock conn n [] c = Inr (c, [])"
| "handle_all be clock conn n (f # fs) c =
     (case handle_frame be (clock n) conn f c of
        (c, Inl e) \<Rightarrow> Inl e
      | (c, Inr bs) \<Rightarrow> rbind (handle_all be clock conn (n + 1) fs c) (\<lambda>(c, rs). Inr (c, bs # rs)))"

lemma handle_all_append:
  "handle_all be clock conn n (fs @ gs) c = Inr (c', rs) \<Longrightarrow>
     \<exists>c1 rs1 rs2. handle_all be clock conn n fs c = Inr (c1, rs1) \<and> handle_all be clock conn (n + length fs) gs c1 = Inr (c', rs2)
       \<and> rs = rs1 @ rs2"
proof (induction fs arbitrary: n c rs)
  case (Cons f fs)
  then obtain c0 bs rs0 where h: "handle_frame be (clock n) conn f c = (c0, Inr bs)"
    and r: "handle_all be clock conn (n + 1) (fs @ gs) c0 = Inr (c', rs0)" "rs = bs # rs0"
    by (auto simp: rbind_Inr_iff split: prod.splits sum.splits)
  from Cons.IH [OF r(1)] h r(2) show ?case by (fastforce simp: rbind_Inr_iff)
qed simp

lemma handle_all_length: "handle_all be clock conn n fs c = Inr (c', rs) \<Longrightarrow> length rs = length fs"
  by (induction fs arbitrary: n c rs) (auto simp: rbind_Inr_iff split: prod.splits sum.splits)

lemma handle_frame_nonempty:
  assumes "handle_frame be now conn f c = (c', Inr bs)"
  shows "bs \<noteq> []"
proof -
  have "framed (Inr bs)"
    using assms dispatch_replies [of be now conn f c] framed_reply(2) [of _ AV_RejectedUnknown]
    by (cases "dispatch be now conn f c") (auto simp: handle_frame_def split: sum.splits, metis)
  then show ?thesis by (auto simp: framed_def is_reply_def decode_one_def kFrameHeaderSize_def)
qed

lemma drain_conn_all:
  assumes "drain buf = (fs, b, None)" and "handle_all be clock conn (length sent) fs c = Inr (c', rs)" and "\<And>n. sends n"
  shows "drain_conn be clock sends conn (c, buf, sent) = ((c', b, sent @ rs), Inr False)"
  using assms(1,2)
proof (induction fs arbitrary: buf c sent rs)
  case Nil
  then show ?case
    by (subst (asm) drain.simps, subst drain_conn.simps) (auto split: prod.splits sum.splits option.splits)
next
  case (Cons f fs)
  from Cons.prems(1) obtain buf1 where p: "push buf [] = (buf1, Inr (Some f))" and d: "drain buf1 = (fs, b, None)"
    by (subst (asm) drain.simps) (auto split: prod.splits sum.splits option.splits)
  from Cons.prems(2) obtain c1 bs rs' where h: "handle_frame be (clock (length sent)) conn f c = (c1, Inr bs)"
    and r: "handle_all be clock conn (length (sent @ [bs])) fs c1 = Inr (c', rs')" "rs = bs # rs'"
    by (auto simp: rbind_Inr_iff split: prod.splits sum.splits)
  have "serve_frame be clock sends conn f (c, buf1, sent) = ((c1, buf1, sent @ [bs]), Inr False)"
    using h handle_frame_nonempty [OF h] assms(3) by (simp add: serve_frame_def)
  with p Cons.IH [OF d r(1)] r(2) show ?case by (subst drain_conn.simps) simp
qed

lemma conn_chunk_drain: "conn_chunk be clock sends conn data (c, buf, sent) = drain_conn be clock sends conn (c, buf @ data, sent)"
proof -
  have p: "push buf data = push (buf @ data) []" by (simp add: push_def)
  have "push (buf @ data) [] = (b, Inr None) \<Longrightarrow> drain_conn be clock sends conn (c, b, sent) = ((c, b, sent), Inr False)" for b
    by (subst drain_conn.simps) (auto simp: push_def try_extract_def split: sum.splits option.splits)
  then show ?thesis
    unfolding drain_conn.simps [of be clock sends conn c "buf @ data" sent]
    by (auto simp: conn_chunk_def p split: prod.splits sum.splits option.splits)
qed

lemma conn_loop_receive:
  assumes "receive buf chunks = (fs, b, None)" and "handle_all be clock conn (length sent) fs c = Inr (c', rs)" and "\<And>n. sends n"
  shows "conn_loop be clock sends conn (map Received chunks) (c, buf, sent) = ((c', b, sent @ rs), Inr False)"
  using assms(1,2)
proof (induction chunks arbitrary: buf fs c sent rs)
  case (Cons data chunks)
  from Cons.prems(1) obtain fs1 b1 fs2 where d: "drain (buf @ data) = (fs1, b1, None)" and rc: "receive b1 chunks = (fs2, b, None)"
    and fs: "fs = fs1 @ fs2"
    by (auto split: prod.splits option.splits)
  from Cons.prems(2) obtain c1 rs1 rs2 where h1: "handle_all be clock conn (length sent) fs1 c = Inr (c1, rs1)"
    and h2: "handle_all be clock conn (length (sent @ rs1)) fs2 c1 = Inr (c', rs2)" and rs: "rs = rs1 @ rs2"
    unfolding fs using handle_all_append handle_all_length by (metis length_append)
  from Cons.IH [OF rc h2] drain_conn_all [where sends = sends, OF d h1 assms(3)] rs show ?case by (simp add: conn_chunk_drain)
qed simp

text \<open>
  C8. A connection serves the requests as if they were handled one by one: however the
  transport cuts the encoded requests into pieces, with whatever would-block results in
  between, as long as sends succeed the thread ends up in the state of the sequential
  handler, has sent exactly its replies in the order of the requests, and keeps no bytes.
\<close>

theorem connection_refines_sequential_handler:
  assumes "\<forall>f\<in>set fs. frame_ok f" and "concat (map (\<lambda>e. case e of Received data \<Rightarrow> data | _ \<Rightarrow> []) evs) = stream_bytes fs"
    and "\<forall>e\<in>set evs. e \<noteq> PeerClosed \<and> e \<noteq> SocketError"
    and "\<forall>n. sends n" and "handle_all be clock conn 0 fs c = Inr (c', replies)"
  shows "conn_loop be clock sends conn evs (c, [], []) = ((c', [], replies), Inr False)"
proof -
  define chunks where "chunks = concat (map (\<lambda>e. case e of Received data \<Rightarrow> [data] | _ \<Rightarrow> []) evs)"
  have "conn_loop be clock sends conn evs s = conn_loop be clock sends conn (map Received chunks) s" for s
    using assms(3) unfolding chunks_def
  proof (induction evs arbitrary: s)
    case (Cons e evs)
    then show ?case by (cases e) (auto split: prod.splits sum.splits)
  qed simp
  moreover have "concat chunks = stream_bytes fs"
    unfolding assms(2) [symmetric] chunks_def by (induction evs) (auto split: recv_event.splits)
  then have "receive [] chunks = (fs, [], None)"
    using assms(1) by (intro receive_stream) auto
  ultimately show ?thesis using conn_loop_receive [of "[]" chunks fs "[]" be clock conn "[]" c c' replies sends] assms(4,5) by simp
qed

section \<open>Exceptions that leave a thread\<close>

text \<open>
  Bytes that are not a frame end the process: the exception of the decoder leaves the
  connection thread, which has no handler, so that the other workers lose the coordinator
  too. Whatever was received before, a header with another magic is enough.
\<close>

theorem malformed_bytes_escape:
  assumes "kFrameHeaderSize \<le> length data" and "take 8 data \<noteq> kMagic"
  shows "connection_thread be clock sends conn (Received data # evs) c = (c, Inl (ProtocolError ''malformed magic''))"
  using assms by (simp add: connection_thread_def conn_chunk_def push_def try_extract_def decode_one_def)

text \<open>After a \<open>Shutdown\<close> request the method \<open>shutdown\<close> does nothing: the accept thread is never joined
  and the listening socket is never closed.\<close>

lemma shutdown_request_leaves_thread:
  assumes "frame_type f = msg_code MT_Shutdown" and "handle_frame be now conn f c = (c', r)" and "co_accepting c" and "co_listening c"
  shows "co_accepting (co_shutdown c') \<and> co_listening (co_shutdown c')"
proof -
  obtain bs where "reply MT_Shutdown (w_u8 1) = Inr bs" using reply_ok [of "w_u8 1"] by (auto simp: kMaxPayloadLength_def)
  then have "c' = c\<lparr>co_running := False\<rparr>" using assms(1,2) by (simp add: handle_frame_def dispatch_def del: msg_code.simps)
  with assms(3,4) show ?thesis by (simp add: co_shutdown_def)
qed

section \<open>A worker that registers twice\<close>

definition sample_coordinator :: "SyntheticBackend Coordinator" where
  "sample_coordinator = (new_coordinator (new_synthetic sample_config))\<lparr>co_runtime := sample_runtime 4\<rparr>"

definition stale_frame :: Frame where
  "stale_frame = \<lparr>frame_version = kProtocolVersion, frame_type = msg_code MT_RevalidateRequest, frame_payload = w_u64 1 @ w_u64 1\<rparr>"


theorem every_request_answered_witness:
  "\<exists>bs m. snd (handle_frame make_synthetic_backend 7 2 ping_frame sample_coordinator) = Inr bs \<and> is_reply m bs"
proof -
  let ?c = sample_coordinator and ?b = make_synthetic_backend
  obtain bs where "reply MT_Pong (w_u64 1) = Inr bs" using reply_ok [of "w_u64 1"] by (auto simp: kMaxPayloadLength_def)
  then have "is_ok (snd (dispatch ?b 7 2 ping_frame ?c))" by (simp add: dispatch_def ping_frame_def del: msg_code.simps)
  then show ?thesis
    using every_request_answered [of ?b 7 2 ping_frame ?c "fst (handle_frame ?b 7 2 ping_frame ?c)" "snd (handle_frame ?b 7 2 ping_frame ?c)"]
    by auto
qed

theorem connection_refines_sequential_handler_witness:
  "\<exists>bs. conn_loop make_synthetic_backend (\<lambda>n. 0) (\<lambda>n. True) 2
      [Received (take 3 (frame_bytes ping_frame)), WouldBlock, Received (drop 3 (frame_bytes ping_frame))]
      (new_coordinator (new_synthetic sample_config), [], []) = ((new_coordinator (new_synthetic sample_config), [], [bs]), Inr False)"
proof -
  let ?c = "new_coordinator (new_synthetic sample_config)"
  obtain bs where "reply MT_Pong (w_u64 1) = Inr bs" using reply_ok [of "w_u64 1"] by (auto simp: kMaxPayloadLength_def)
  then have "handle_all make_synthetic_backend (\<lambda>n. 0) 2 0 [ping_frame] ?c = Inr (?c, [bs])"
    by (simp add: handle_frame_def dispatch_def ping_frame_def del: msg_code.simps)
  from connection_refines_sequential_handler [OF _ _ _ _ this,
      of "[Received (take 3 (frame_bytes ping_frame)), WouldBlock, Received (drop 3 (frame_bytes ping_frame))]" "\<lambda>n. True"]
  have "conn_loop make_synthetic_backend (\<lambda>n. 0) (\<lambda>n. True) 2
      [Received (take 3 (frame_bytes ping_frame)), WouldBlock, Received (drop 3 (frame_bytes ping_frame))] (?c, [], []) = ((?c, [], [bs]), Inr False)"
    using ping_frame_ok by (simp add: stream_bytes_def del: conn_loop.simps)
  then show ?thesis by (rule exI)
qed

theorem malformed_bytes_escape_witness:
  "connection_thread make_synthetic_backend (\<lambda>n. 0) (\<lambda>n. True) 2 [Received (replicate 20 0)] sample_coordinator
   = (sample_coordinator, Inl (ProtocolError ''malformed magic''))"
proof (rule malformed_bytes_escape)
  show "take 8 (replicate 20 0) \<noteq> kMagic" by code_simp
qed (simp add: kFrameHeaderSize_def)

end
