(* ===== verification/Worker_Session.thy ===== *)
theory Worker_Session
  imports Coordinator_Safety
begin

text \<open>
  \<open>worker/worker.hpp\<close> and \<open>src/worker.cpp\<close>: the client side of the protocol. A call sends one
  request and reads one reply. The network is an argument \<open>net\<close>: the pieces that \<open>recv\<close>
  delivers once the given bytes were sent; when they are used up, \<open>recv\<close> reports the end of
  the connection. The theorems compose the client with the coordinator: what a call
  returns is what the handler did.
\<close>

section \<open>The session\<close>

record WorkerSession =
  ws_connected :: bool
  ws_decoder :: "byte list"
  ws_last_error :: bool
  ws_last_error_message :: string
  ws_last_error_code :: u8

definition new_session :: WorkerSession where
  "new_session = \<lparr>ws_connected = False, ws_decoder = [], ws_last_error = False, ws_last_error_message = '''', ws_last_error_code = 0\<rparr>"

record ConnectEnv =
  ce_startup :: bool
  ce_socket :: bool
  ce_connect :: bool

definition ws_connect :: "ConnectEnv \<Rightarrow> WorkerSession \<Rightarrow> WorkerSession \<times> bool" where
  "ws_connect env s =
     (if \<not> ce_startup env then (s, False)
      else if \<not> ce_socket env then (s, False)
      else if \<not> ce_connect env then (s, False)
      else (s\<lparr>ws_connected := True, ws_decoder := reset (ws_decoder s)\<rparr>, True))"

definition ws_close :: "WorkerSession \<Rightarrow> WorkerSession" where
  "ws_close s = (if ws_connected s then s\<lparr>ws_connected := False\<rparr> else s)"

definition record_error :: "Frame \<Rightarrow> WorkerSession \<Rightarrow> WorkerSession" where
  "record_error f s =
     (let s = s\<lparr>ws_last_error := True, ws_last_error_code := 0, ws_last_error_message := ''unknown error''\<rparr> in
      case r_u8 (frame_payload f) of
        Inl _ \<Rightarrow> s
      | Inr (code, rest) \<Rightarrow>
          let s = s\<lparr>ws_last_error_code := code\<rparr> in
          case r_str rest of Inl _ \<Rightarrow> s | Inr (msg, _) \<Rightarrow> s\<lparr>ws_last_error_message := msg\<rparr>)"

definition received :: "Frame \<Rightarrow> WorkerSession \<Rightarrow> WorkerSession" where
  "received f s = (if frame_type f = msg_code MT_Error then record_error f s else s)"

fun recv_chunks :: "byte list list \<Rightarrow> WorkerSession \<Rightarrow> (WorkerSession, Frame option) outcome" where
  "recv_chunks [] s = (s, Inr None)"
| "recv_chunks (data # chunks) s =
     (case push (ws_decoder s) data of
        (buf, Inl e) \<Rightarrow> (s\<lparr>ws_decoder := buf\<rparr>, Inl e)
      | (buf, Inr (Some f)) \<Rightarrow> (received f (s\<lparr>ws_decoder := buf\<rparr>), Inr (Some f))
      | (buf, Inr None) \<Rightarrow> recv_chunks chunks (s\<lparr>ws_decoder := buf\<rparr>))"

definition recv_frame :: "byte list list \<Rightarrow> WorkerSession \<Rightarrow> (WorkerSession, Frame option) outcome" where
  "recv_frame chunks s =
     (if \<not> ws_connected s then (s, Inr None)
      else case push (ws_decoder s) [] of
        (buf, Inl e) \<Rightarrow> (s\<lparr>ws_decoder := buf\<rparr>, Inl e)
      | (buf, Inr (Some f)) \<Rightarrow> (received f (s\<lparr>ws_decoder := buf\<rparr>), Inr (Some f))
      | (buf, Inr None) \<Rightarrow> recv_chunks chunks (s\<lparr>ws_decoder := buf\<rparr>))"

section \<open>Calls\<close>

type_synonym network = "byte list \<Rightarrow> byte list list"

definition exchange :: "network \<Rightarrow> MsgType \<Rightarrow> byte list \<Rightarrow> WorkerSession \<Rightarrow> (WorkerSession, Frame option) outcome" where
  "exchange net ty payload s =
     (case encode_frame (msg_code ty) payload of Inl e \<Rightarrow> (s, Inl e) | Inr bs \<Rightarrow> recv_frame (net bs) s)"

text \<open>What a call makes of the reply: the default result without one (and, where the code
  checks for it, on an error frame), otherwise what the reader of the payload returns.\<close>

definition reply_with :: "bool \<Rightarrow> 'a \<Rightarrow> 'a reader \<Rightarrow> (WorkerSession, Frame option) outcome \<Rightarrow> (WorkerSession, 'a) outcome" where
  "reply_with check none rd out =
     (case out of
        (s, Inl e) \<Rightarrow> (s, Inl e)
      | (s, Inr None) \<Rightarrow> (s, Inr none)
      | (s, Inr (Some f)) \<Rightarrow>
          if check \<and> frame_type f = msg_code MT_Error then (s, Inr none)
          else case rd (frame_payload f) of Inl e \<Rightarrow> (s, Inl e) | Inr (x, _) \<Rightarrow> (s, Inr x))"

record RegisterInfo =
  ri_boot :: WorkerBootId
  ri_epoch :: u64
  ri_policy_gen :: u64
  ri_host_gen :: u64
  ri_node_count :: u32
  ri_digest :: u64

definition no_register_info :: RegisterInfo where
  "no_register_info = \<lparr>ri_boot = invalid_id, ri_epoch = 0, ri_policy_gen = 0, ri_host_gen = 0, ri_node_count = 0, ri_digest = 0\<rparr>"

definition rd_register_info :: "RegisterInfo reader" where
  "rd_register_info =
     rd_bind r_id (\<lambda>boot. rd_bind r_u64 (\<lambda>epoch. rd_bind r_u64 (\<lambda>policy. rd_bind r_u64 (\<lambda>host. rd_bind r_u32 (\<lambda>nodes. rd_bind r_u64 (\<lambda>digest.
       rd_return \<lparr>ri_boot = boot, ri_epoch = epoch, ri_policy_gen = policy, ri_host_gen = host, ri_node_count = nodes, ri_digest = digest\<rparr>))))))"

definition send_register :: "network \<Rightarrow> WorkerId \<Rightarrow> ProcessId \<Rightarrow> WorkerSession \<Rightarrow> (WorkerSession, RegisterInfo) outcome" where
  "send_register net i pid s =
     reply_with False no_register_info rd_register_info (exchange net MT_Register (w_u64 (id_value i) @ w_u64 (id_value pid)) s)"

record DiscoverInfo =
  di_node_count :: u32
  di_groups :: u32
  di_processors :: u32
  di_digest :: u64
  di_single_node :: bool

definition no_discover_info :: DiscoverInfo where
  "no_discover_info = \<lparr>di_node_count = 0, di_groups = 0, di_processors = 0, di_digest = 0, di_single_node = False\<rparr>"

definition rd_discover_info :: "DiscoverInfo reader" where
  "rd_discover_info =
     rd_bind r_u32 (\<lambda>nodes. rd_bind r_u32 (\<lambda>groups. rd_bind r_u32 (\<lambda>procs. rd_bind r_u64 (\<lambda>digest. rd_bind r_flag (\<lambda>single.
       rd_return \<lparr>di_node_count = nodes, di_groups = groups, di_processors = procs, di_digest = digest, di_single_node = single\<rparr>)))))"

definition send_discover :: "network \<Rightarrow> WorkerSession \<Rightarrow> (WorkerSession, DiscoverInfo) outcome" where
  "send_discover net s = reply_with False no_discover_info rd_discover_info (exchange net MT_DiscoverRequest [] s)"

record PlacementOut =
  po_ok :: bool
  po_decision :: u8
  po_out_node :: u64
  po_penalty :: u64
  po_locality :: u8
  po_binding_constraint :: string
  po_reason :: string
  po_would_change :: string
  po_candidate_count :: u32
  po_candidates :: "(u64 \<times> u64) list"

definition no_placement :: PlacementOut where
  "no_placement = \<lparr>po_ok = False, po_decision = 0, po_out_node = 0, po_penalty = 0, po_locality = 0, po_binding_constraint = '''',
     po_reason = '''', po_would_change = '''', po_candidate_count = 0, po_candidates = []\<rparr>"

definition rd_candidate :: "(u64 \<times> u64) reader" where
  "rd_candidate = rd_bind r_u64 (\<lambda>node. rd_bind r_u64 (\<lambda>total. rd_bind r_u8 (\<lambda>_. rd_return (node, total))))"

definition rd_placement_out :: "PlacementOut reader" where
  "rd_placement_out =
     rd_bind r_u8 (\<lambda>decision. rd_bind r_u64 (\<lambda>node. rd_bind r_u64 (\<lambda>penalty. rd_bind r_u8 (\<lambda>locality.
     rd_bind r_str (\<lambda>constraint. rd_bind r_str (\<lambda>reason. rd_bind r_str (\<lambda>change. rd_bind r_u32 (\<lambda>count.
     rd_bind (rd_many rd_candidate (unat count)) (\<lambda>cands. rd_bind r_u32 (\<lambda>_.
       rd_return \<lparr>po_ok = True, po_decision = decision, po_out_node = node, po_penalty = penalty, po_locality = locality,
         po_binding_constraint = constraint, po_reason = reason, po_would_change = change, po_candidate_count = count,
         po_candidates = cands\<rparr>))))))))))"

definition w_placement :: "PlacementWire \<Rightarrow> byte list" where
  "w_placement p = w_u64 (id_value (plw_worker p)) @ w_u64 (id_value (plw_boot p)) @ w_u64 (plw_epoch p) @ w_u64 (plw_footprint p)
     @ w_u64 (id_value (plw_pref p)) @ w_u64 (id_value (plw_required p)) @ w_bool (plw_has_required p) @ w_bool (plw_require_accel p)
     @ w_u64 (id_value (plw_accel p)) @ w_u32 (plw_cpu p) @ w_bool (plw_allow_fallback p) @ w_bool (plw_revalidation p)"

definition send_placement :: "network \<Rightarrow> PlacementWire \<Rightarrow> WorkerSession \<Rightarrow> (WorkerSession, PlacementOut) outcome" where
  "send_placement net p s = reply_with True no_placement rd_placement_out (exchange net MT_PlacementRequest (w_placement p) s)"

definition rd_pair :: "(u64 \<times> u64) reader" where
  "rd_pair = rd_bind r_u64 (\<lambda>a. rd_bind r_u64 (\<lambda>b. rd_return (a, b)))"

definition w_reserve :: "WorkerId \<Rightarrow> WorkerBootId \<Rightarrow> NumaNodeId \<Rightarrow> u64 \<Rightarrow> u32 \<Rightarrow> AcceleratorId \<Rightarrow> bool \<Rightarrow> byte list" where
  "w_reserve i boot node bytes cpu accel accel_cap = w_u64 (id_value i) @ w_u64 (id_value boot) @ w_u64 (id_value node) @ w_u64 bytes
     @ w_u32 cpu @ w_u64 (id_value accel) @ w_bool accel_cap"

definition send_reserve :: "network \<Rightarrow> WorkerId \<Rightarrow> WorkerBootId \<Rightarrow> NumaNodeId \<Rightarrow> u64 \<Rightarrow> u32 \<Rightarrow> AcceleratorId \<Rightarrow> bool \<Rightarrow> WorkerSession \<Rightarrow>
    (WorkerSession, u64 \<times> u64) outcome" where
  "send_reserve net i boot node bytes cpu accel accel_cap s =
     reply_with True (0, 0) rd_pair (exchange net MT_ReserveRequest (w_reserve i boot node bytes cpu accel accel_cap) s)"

text \<open>\<open>return reply \<and> reply.type \<noteq> Error\<close>: the payload is not read.\<close>

definition send_release :: "network \<Rightarrow> WorkerId \<Rightarrow> WorkerBootId \<Rightarrow> ReservationId \<Rightarrow> WorkerSession \<Rightarrow> (WorkerSession, bool) outcome" where
  "send_release net i boot res s =
     reply_with True False (rd_return True)
       (exchange net MT_ReleaseRequest (w_u64 (id_value i) @ w_u64 (id_value boot) @ w_u64 (id_value res)) s)"

definition send_bind :: "network \<Rightarrow> WorkerId \<Rightarrow> WorkerBootId \<Rightarrow> NumaNodeId \<Rightarrow> bool \<Rightarrow> WorkerSession \<Rightarrow> (WorkerSession, u64 \<times> u64) outcome" where
  "send_bind net i boot node app s =
     reply_with True (0, 0) rd_pair
       (exchange net MT_BindRequest (w_u64 (id_value i) @ w_u64 (id_value boot) @ w_u64 (id_value node) @ w_bool app) s)"

definition send_migrate :: "network \<Rightarrow> WorkerId \<Rightarrow> WorkerBootId \<Rightarrow> MemoryRegionId \<Rightarrow> NumaNodeId \<Rightarrow> string \<Rightarrow> WorkerSession \<Rightarrow>
    (WorkerSession, bool) outcome" where
  "send_migrate net i boot region target reason s =
     reply_with True False r_flag (exchange net MT_MigrateRequest (w_u64 (id_value i) @ w_u64 (id_value boot) @ w_u64 (id_value region)
       @ w_u64 (id_value target) @ w_str reason) s)"

definition send_observe :: "network \<Rightarrow> WorkerId \<Rightarrow> WorkerBootId \<Rightarrow> NumaNodeId \<Rightarrow> u8 \<Rightarrow> bool \<Rightarrow> WorkerSession \<Rightarrow> (WorkerSession, bool) outcome" where
  "send_observe net i boot node source stale s =
     reply_with True False (rd_return True)
       (exchange net MT_ObserveReport (w_u64 (id_value i) @ w_u64 (id_value boot) @ w_u64 (id_value node) @ w_u8 source @ w_bool stale) s)"

definition send_ping :: "network \<Rightarrow> WorkerSession \<Rightarrow> (WorkerSession, bool) outcome" where
  "send_ping net s = reply_with False False (rd_return True) (exchange net MT_Ping [] s)"

section \<open>A reply in pieces\<close>

definition request :: "MsgType \<Rightarrow> byte list \<Rightarrow> Frame" where
  "request m p = \<lparr>frame_version = kProtocolVersion, frame_type = msg_code m, frame_payload = p\<rparr>"

lemma request_simps [simp]: "frame_type (request m p) = msg_code m" "frame_payload (request m p) = p"
  "frame_ok (request m p) \<longleftrightarrow> length p \<le> kMaxPayloadLength"
  by (simp_all add: request_def frame_ok_def)

lemma reply_request: "reply m p = Inr bs \<longleftrightarrow> length p \<le> kMaxPayloadLength \<and> bs = frame_bytes (request m p)"
proof (cases "length p \<le> kMaxPayloadLength")
  case True
  then show ?thesis using encode_frame_bytes [of "request m p"] by (auto simp: reply_def simp del: msg_code.simps)
qed (simp add: reply_def encode_frame_def)

lemma recv_chunks_frame:
  assumes "frame_ok f" and "ws_decoder s @ concat chunks = frame_bytes f" and "length (ws_decoder s) < length (frame_bytes f)"
  shows "recv_chunks chunks s = (received f (s\<lparr>ws_decoder := []\<rparr>), Inr (Some f))"
  using assms(2,3)
proof (induction chunks arbitrary: s)
  case (Cons data chunks)
  let ?buf = "ws_decoder s @ data"
  have eq: "?buf @ concat chunks = frame_bytes f" using Cons.prems(1) by simp
  show ?case
  proof (cases "length ?buf < length (frame_bytes f)")
    case True
    have "decode_one ?buf = Inr None" by (rule decode_partial_frame [OF assms(1) True, of _ "[]"]) (use eq in simp)
    with Cons.IH [of "s\<lparr>ws_decoder := ?buf\<rparr>"] eq True show ?thesis by (simp add: push_def try_extract_def)
  next
    case False
    then have "length (concat chunks) = 0" using arg_cong [OF eq, of length] by (simp del: length_0_conv)
    then have "concat chunks = []" by (simp only: length_0_conv)
    with eq have "?buf = frame_bytes f" by simp
    then show ?thesis using decode_frame_bytes [OF assms(1), of "[]"] by (simp add: push_def try_extract_def)
  qed
qed simp

lemma exchange_reply:
  assumes "ws_connected s" and "ws_decoder s = []" and "length p \<le> kMaxPayloadLength" and "frame_ok f"
    and "concat (net (frame_bytes (request m p))) = frame_bytes f"
  shows "exchange net m p s = (received f s, Inr (Some f))"
proof -
  have "encode_frame (msg_code m) p = Inr (frame_bytes (request m p))" using encode_frame_bytes [of "request m p"] assms(3) by simp
  moreover have "push [] [] = ([], Inr None)" by (simp add: push_def try_extract_def decode_one_def kFrameHeaderSize_def)
  moreover have id: "s\<lparr>ws_decoder := []\<rparr> = s" using assms(2) by simp
  have "recv_chunks (net (frame_bytes (request m p))) (s\<lparr>ws_decoder := []\<rparr>) = (received f s, Inr (Some f))"
    using assms(2,5) recv_chunks_frame [OF assms(4), of s] unfolding id by simp
  ultimately show ?thesis using assms(1,2) by (simp add: exchange_def recv_frame_def del: msg_code.simps)
qed

lemma record_error_reply:
  assumes "length msg \<le> kMaxPayloadLength"
  shows "received (request MT_Error (w_u8 code @ w_str msg)) s
    = s\<lparr>ws_last_error := True, ws_last_error_code := code, ws_last_error_message := msg\<rparr>"
proof -
  have "r_str (w_str msg) = Inr (msg, [])" using r_w_str [of msg "[]"] assms by (simp add: kMaxPayloadLength_def)
  then show ?thesis by (simp add: received_def record_error_def r_w_words)
qed

section \<open>End to end\<close>

lemma rd_reserve_wire: "rd_reserve (w_reserve i boot node bytes cpu accel accel_cap) =
    Inr ((i, boot, \<lparr>rq_node = node, rq_bytes = Quantity bytes, rq_cpu_slots = cpu, rq_accelerator = accel,
      rq_accelerator_capacity = accel_cap, rq_owner = invalid_id, rq_worker = i, rq_expected_generation = None\<rparr>), [])"
  using r_w_flag [of accel_cap "[]"] by (simp add: rd_reserve_def w_reserve_def rd_bind_def r_w_words r_w_id)

lemma length_w_reserve [simp]: "length (w_reserve i boot node bytes cpu accel accel_cap) = 45"
  by (simp add: w_reserve_def)

text \<open>What the client gets back for an error frame of the coordinator.\<close>

lemma exchange_error:
  assumes "ws_connected s" and "ws_decoder s = []" and "length p \<le> kMaxPayloadLength"
    and "error_reply msg av = Inr bs" and "concat (net (frame_bytes (request m p))) = bs"
  shows "exchange net m p s = (s\<lparr>ws_last_error := True, ws_last_error_code := authority_code av, ws_last_error_message := msg\<rparr>,
    Inr (Some (request MT_Error (w_u8 (authority_code av) @ w_str msg))))"
proof -
  let ?q = "w_u8 (authority_code av) @ w_str msg"
  from assms(4) have q: "length ?q \<le> kMaxPayloadLength" "bs = frame_bytes (request MT_Error ?q)"
    by (simp_all add: error_reply_def reply_request)
  then have "length msg \<le> kMaxPayloadLength" by (simp add: w_str_def w_bytes_def)
  from record_error_reply [OF this] exchange_reply [OF assms(1-3), of "request MT_Error ?q" net m] q assms(5) show ?thesis by simp
qed

text \<open>A call that the coordinator serves with one runtime operation under authority.\<close>

lemma served_call:
  assumes "ws_connected s" and "ws_decoder s = []" and "length p \<le> kMaxPayloadLength" and "length msg \<le> 30"
    and d: "dispatch be now conn (request ty p) c = authorized c i boot msg (on_runtime out c (\<lambda>x. reply m (w x)))"
    and h: "handle_frame be now conn (request ty p) c = (c', Inr bs)" and n: "concat (net (frame_bytes (request ty p))) = bs"
    and "\<And>x. length (w x) \<le> kMaxPayloadLength" and "m \<noteq> MT_Error"
  shows "if validate_boot (registry_of c) i boot
    then co_runtime c' = fst out \<and> exchange net ty p s =
      (case snd out of
         Inr x \<Rightarrow> (s, Inr (Some (request m (w x))))
       | Inl e \<Rightarrow> (s\<lparr>ws_last_error := True, ws_last_error_code := 9, ws_last_error_message := what e\<rparr>,
                   Inr (Some (request MT_Error (w_u8 9 @ w_str (what e))))))
    else c' = c \<and> exchange net ty p s =
      (s\<lparr>ws_last_error := True, ws_last_error_code := 2, ws_last_error_message := msg\<rparr>,
       Inr (Some (request MT_Error (w_u8 2 @ w_str msg))))"
proof (cases "validate_boot (registry_of c) i boot")
  case False
  then have "c' = c \<and> error_reply msg AV_StaleBoot = Inr bs"
    using h error_reply_ok [of msg AV_StaleBoot] assms(4)
    by (auto simp: handle_frame_def d authorized_def validate_authority_iff kMaxPayloadLength_def split: sum.splits)
  with exchange_error [where net = net, OF assms(1-3) _ n, of msg AV_StaleBoot] False show ?thesis by simp
next
  case True
  then have d': "dispatch be now conn (request ty p) c = on_runtime out c (\<lambda>x. reply m (w x))"
    by (simp add: d authorized_def validate_authority_iff)
  show ?thesis
  proof (cases "snd out")
    case (Inl e)
    then have "co_runtime c' = fst out \<and> error_reply (what e) AV_RejectedUnknown = Inr bs"
      using h by (cases out) (auto simp: handle_frame_def d' on_runtime_def)
    with exchange_error [where net = net, OF assms(1-3) _ n, of "what e" AV_RejectedUnknown] True Inl show ?thesis by simp
  next
    case (Inr x)
    have "reply m (w x) = Inr (frame_bytes (request m (w x)))" using assms(8) by (simp add: reply_request)
    then have "co_runtime c' = fst out \<and> bs = frame_bytes (request m (w x))"
      using h Inr by (cases out) (auto simp: handle_frame_def d' on_runtime_def)
    moreover have "received (request m (w x)) s = s" using assms(9) by (cases m) (simp_all add: received_def)
    ultimately show ?thesis
      using exchange_reply [OF assms(1-3), of "request m (w x)" net ty] n assms(8) True Inr by simp
  qed
qed

text \<open>
  C9. A reservation over the wire, end to end: the client asks, the coordinator handles the
  request, and its reply arrives in any pieces. For a valid boot the client returns the
  identifier and generation of the reservation that the runtime granted, and the error
  text of the runtime when it refused; for a stale boot it returns nothing and records the
  stale boot, and the coordinator is unchanged.
\<close>

theorem reserve_end_to_end:
  assumes "ws_connected s" and "ws_decoder s = []"
    and "handle_frame be now conn (request MT_ReserveRequest (w_reserve i boot node bytes cpu accel accel_cap)) c = (c', Inr bs)"
    and "concat (net (frame_bytes (request MT_ReserveRequest (w_reserve i boot node bytes cpu accel accel_cap)))) = bs"
    and "rr = \<lparr>rq_node = node, rq_bytes = Quantity bytes, rq_cpu_slots = cpu, rq_accelerator = accel,
           rq_accelerator_capacity = accel_cap, rq_owner = invalid_id, rq_worker = i, rq_expected_generation = None\<rparr>"
  shows "if validate_boot (registry_of c) i boot
    then co_runtime c' = fst (rt_reserve rr (co_runtime c))
      \<and> send_reserve net i boot node bytes cpu accel accel_cap s
        = (case snd (rt_reserve rr (co_runtime c)) of
             Inr r \<Rightarrow> (s, Inr (id_value (rs_id r), gen_value (rs_generation r)))
           | Inl e \<Rightarrow> (s\<lparr>ws_last_error := True, ws_last_error_code := 9, ws_last_error_message := what e\<rparr>, Inr (0, 0)))
    else c' = c
      \<and> send_reserve net i boot node bytes cpu accel accel_cap s
        = (s\<lparr>ws_last_error := True, ws_last_error_code := 2, ws_last_error_message := ''stale reserve authority''\<rparr>, Inr (0, 0))"
proof -
  let ?p = "w_reserve i boot node bytes cpu accel accel_cap"
  have small: "length ?p \<le> kMaxPayloadLength" "length ''stale reserve authority'' \<le> 30" by (simp_all add: kMaxPayloadLength_def)
  have d: "dispatch be now conn (request MT_ReserveRequest ?p) c = authorized c i boot ''stale reserve authority''
      (on_runtime (rt_reserve rr (co_runtime c)) c (\<lambda>r. reply MT_ReserveReply (w_u64 (id_value (rs_id r)) @ w_u64 (gen_value (rs_generation r)))))"
    by (simp add: dispatch_def handle_reserve_def parsed_def rd_reserve_wire assms(5) del: msg_code.simps)
  have "rd_pair (w_u64 a @ w_u64 b) = Inr ((a, b), [])" for a b
    using r_w_words(4) [of b "[]"] by (simp add: rd_pair_def rd_bind_def r_w_words)
  with served_call [where net = net and s = s, OF assms(1,2) small d assms(3,4)] show ?thesis
    by (auto simp: send_reserve_def reply_with_def kMaxPayloadLength_def split: sum.splits if_splits)
qed

lemma rd_register_ack: "rd_register_info (register_ack w r) = Inr (\<lparr>ri_boot = wk_boot_id w, ri_epoch = gen_value (rt_epoch r),
    ri_policy_gen = rt_policy_generation r, ri_host_gen = gen_value (ht_generation (rt_topo r)),
    ri_node_count = of_nat (length (ht_nodes (rt_topo r))), ri_digest = semantic_digest (rt_topo r)\<rparr>, [])"
  using r_w_words(4) [of "semantic_digest (rt_topo r)" "[]"]
  by (simp add: rd_register_info_def register_ack_def rd_bind_def r_w_words r_w_id)

lemma registration_valid:
  assumes "id_valid i"
  shows "\<exists>r w. registration i pid s = (r, Inr w) \<and> rt_worker r i = Some w \<and> wk_alive w"
proof (cases "rt_worker s i")
  case None
  then show ?thesis
    using assms by (simp add: registration_def rt_register_worker_def register_worker_def rt_worker_def find_worker_def Let_def)
next
  case (Some old)
  then show ?thesis
    using assms by (simp add: registration_def rt_restart_worker_def restart_worker_def rt_worker_def find_worker_def next_incarnation_def Let_def)
qed

text \<open>
  C10. Registration over the wire, end to end: whatever worker registers, for the first time
  or again, the client returns the epoch and a boot that the coordinator accepts from then
  on for this worker, and the connection is tied to exactly this incarnation.
\<close>

theorem register_end_to_end:
  assumes "ws_connected s" and "ws_decoder s = []" and "id_valid i"
    and "handle_frame be now conn (register_frame i pid) c = (c', Inr bs)"
    and "concat (net (frame_bytes (register_frame i pid))) = bs"
  shows "\<exists>info. send_register net i pid s = (s, Inr info) \<and> validate_boot (registry_of c') i (ri_boot info)
    \<and> ri_epoch info = gen_value (rt_epoch (co_runtime c'))
    \<and> om_find (co_conns c') conn = Some \<lparr>cs_worker_id = i, cs_boot = ri_boot info, cs_is_worker = True\<rparr>"
proof -
  obtain r w where reg: "registration i pid (co_runtime c) = (r, Inr w)" and w: "rt_worker r i = Some w" "wk_alive w"
    using registration_valid [OF assms(3)] by blast
  let ?c = "c\<lparr>co_runtime := r, co_conns := om_insert conn \<lparr>cs_worker_id = i, cs_boot = wk_boot_id w, cs_is_worker = True\<rparr> (co_conns c)\<rparr>"
  let ?p = "w_u64 (id_value i) @ w_u64 (id_value pid)" and ?f = "request MT_RegisterAck (register_ack w r)"
  have f: "register_frame i pid = request MT_Register ?p" by (simp add: register_frame_def request_def)
  have "reply MT_RegisterAck (register_ack w r) = Inr (frame_bytes ?f)" by (simp add: reply_request register_ack_def kMaxPayloadLength_def)
  then have "dispatch be now conn (register_frame i pid) c = (?c, Inr (frame_bytes ?f))"
    using assms(3) reg by (simp add: dispatch_def register_frame_def handle_register_def parsed_def rd_bind_def r_id_u64 del: msg_code.simps)
  then have c': "c' = ?c" "bs = frame_bytes ?f" using assms(4) by (simp_all add: handle_frame_def)
  have "exchange net MT_Register ?p s = (received ?f s, Inr (Some ?f))"
    using assms(5) c'(2) unfolding f by (intro exchange_reply assms(1,2)) (simp_all add: register_ack_def kMaxPayloadLength_def)
  then have "send_register net i pid s = (s, Inr \<lparr>ri_boot = wk_boot_id w, ri_epoch = gen_value (rt_epoch r),
      ri_policy_gen = rt_policy_generation r, ri_host_gen = gen_value (ht_generation (rt_topo r)),
      ri_node_count = of_nat (length (ht_nodes (rt_topo r))), ri_digest = semantic_digest (rt_topo r)\<rparr>)"
    by (simp add: send_register_def reply_with_def rd_register_ack received_def)
  then show ?thesis using w unfolding c'(1) by (simp add: validate_boot_def rt_worker_def find_worker_def)
qed

text \<open>\<open>send_register\<close> does not look for an error frame: when the coordinator refuses the worker, the
  client reads past the end of the error text and throws, and no error is reported.\<close>

lemma register_error_misread:
  assumes "ws_connected s" and "ws_decoder s = []"
    and "handle_frame be now conn (register_frame (Id 0) pid) c = (c', Inr bs)"
    and "concat (net (frame_bytes (register_frame (Id 0) pid))) = bs"
  shows "snd (send_register net (Id 0) pid s) = Inl wire_truncated"
proof -
  let ?p = "w_u64 (id_value (Id 0 :: WorkerId)) @ w_u64 (id_value pid)" and ?q = "w_u8 9 @ w_str ''invalid worker id''"
  have f: "register_frame (Id 0) pid = request MT_Register ?p" by (simp add: register_frame_def request_def)
  have d: "dispatch be now conn (register_frame (Id 0) pid) c = (c, error_reply ''invalid worker id'' AV_RejectedUnknown)"
    by (simp add: dispatch_def register_frame_def handle_register_def parsed_def rd_bind_def r_id_u64 del: msg_code.simps)
  obtain bs' where e: "error_reply ''invalid worker id'' AV_RejectedUnknown = Inr bs'"
    using error_reply_ok [of "''invalid worker id''"] by (auto simp: kMaxPayloadLength_def)
  with d assms(3) have "error_reply ''invalid worker id'' AV_RejectedUnknown = Inr bs" by (simp add: handle_frame_def)
  then have "exchange net MT_Register ?p s = (s\<lparr>ws_last_error := True, ws_last_error_code := 9, ws_last_error_message := ''invalid worker id''\<rparr>,
      Inr (Some (request MT_Error ?q)))"
    using exchange_error [OF assms(1,2), of ?p "''invalid worker id''" AV_RejectedUnknown bs net MT_Register] assms(4)
    unfolding f by (simp add: kMaxPayloadLength_def)
  moreover have "rd_register_info ?q = Inl wire_truncated" by code_simp
  ultimately show ?thesis by (simp add: send_register_def reply_with_def)
qed

section \<open>A call through the network\<close>

definition sample_session :: WorkerSession where
  "sample_session = fst (ws_connect \<lparr>ce_startup = True, ce_socket = True, ce_connect = True\<rparr> new_session)"

lemma sample_session_ready: "ws_connected sample_session" "ws_decoder sample_session = []"
  by (simp_all add: sample_session_def ws_connect_def new_session_def reset_def)

theorem register_end_to_end_witness:
  "\<exists>bs info. snd (handle_frame make_synthetic_backend 7 2 (register_frame (Id 3) (Id 11)) sample_coordinator) = Inr bs
     \<and> send_register (\<lambda>_. [take 5 bs, drop 5 bs]) (Id 3) (Id 11) sample_session = (sample_session, Inr info)
     \<and> validate_boot (registry_of (fst (handle_frame make_synthetic_backend 7 2 (register_frame (Id 3) (Id 11)) sample_coordinator))) (Id 3) (ri_boot info)"
proof -
  let ?h = "handle_frame make_synthetic_backend 7 2 (register_frame (Id 3) (Id 11)) sample_coordinator"
  obtain r w where "registration (Id 3) (Id 11) (co_runtime sample_coordinator) = (r, Inr w)" 
    using registration_valid [of "Id 3" "Id 11" "co_runtime sample_coordinator"] by auto
  moreover obtain bs where "reply MT_RegisterAck (register_ack w r) = Inr bs"
    by (simp add: reply_request register_ack_def kMaxPayloadLength_def)
  ultimately have hs: "snd ?h = Inr bs"
    by (simp add: handle_frame_def dispatch_def register_frame_def handle_register_def parsed_def rd_bind_def r_id_u64 del: msg_code.simps)
  then have h: "?h = (fst ?h, Inr bs)" by (metis prod.collapse)
  obtain info where "send_register (\<lambda>_. [take 5 bs, drop 5 bs]) (Id 3) (Id 11) sample_session = (sample_session, Inr info)"
    "validate_boot (registry_of (fst ?h)) (Id 3) (ri_boot info)"
    using register_end_to_end [OF sample_session_ready _ h, of "\<lambda>_. [take 5 bs, drop 5 bs]"] by auto
  with hs show ?thesis by blast
qed

lemma sample_reserve_served:
  "\<exists>bs. snd (handle_frame make_synthetic_backend 7 2
     (request MT_ReserveRequest (w_reserve (Id 1) (Id 1) (Id 1) 512 1 (Id 0) False)) sample_coordinator) = Inr bs"
proof -
  let ?d = "dispatch make_synthetic_backend 7 2 (request MT_ReserveRequest (w_reserve (Id 1) (Id 1) (Id 1) 512 1 (Id 0) False)) sample_coordinator"
  let ?rr = "\<lparr>rq_node = Id 1, rq_bytes = Quantity 512, rq_cpu_slots = 1, rq_accelerator = Id 0,
    rq_accelerator_capacity = False, rq_owner = invalid_id, rq_worker = Id 1, rq_expected_generation = None\<rparr>"
  have "validate_boot (rt_registry (sample_runtime 4)) (Id 1) (Id 1)" and "is_ok (snd (rt_reserve ?rr (sample_runtime 4)))"
    by code_simp+
  then have "is_ok (snd ?d)"
    by (cases "rt_reserve ?rr (sample_runtime 4)")
      (auto simp: is_ok_iff dispatch_def handle_reserve_def parsed_def rd_reserve_wire authorized_def validate_authority_iff on_runtime_def
        sample_coordinator_def reply_request kMaxPayloadLength_def simp del: msg_code.simps)
  then show ?thesis by (cases ?d) (auto simp: handle_frame_def is_ok_iff)
qed

theorem reserve_end_to_end_witness:
  "\<exists>bs. snd (handle_frame make_synthetic_backend 7 2
       (request MT_ReserveRequest (w_reserve (Id 1) (Id 1) (Id 1) 512 1 (Id 0) False)) sample_coordinator) = Inr bs
     \<and> send_reserve (\<lambda>_. [bs]) (Id 1) (Id 1) (Id 1) 512 1 (Id 0) False sample_session = (sample_session, Inr (2, 2))"
proof -
  let ?h = "handle_frame make_synthetic_backend 7 2 (request MT_ReserveRequest (w_reserve (Id 1) (Id 1) (Id 1) 512 1 (Id 0) False)) sample_coordinator"
  obtain bs where bs: "snd ?h = Inr bs" using sample_reserve_served by blast
  then have h: "?h = (fst ?h, Inr bs)" by (metis prod.collapse)
  let ?rr = "\<lparr>rq_node = Id 1, rq_bytes = Quantity 512, rq_cpu_slots = 1, rq_accelerator = Id 0,
    rq_accelerator_capacity = False, rq_owner = invalid_id, rq_worker = Id 1, rq_expected_generation = None\<rparr>"
  have "validate_boot (rt_registry (sample_runtime 4)) (Id 1) (Id 1)"
    and "map_sum id (\<lambda>r. (id_value (rs_id r), gen_value (rs_generation r))) (snd (rt_reserve ?rr (sample_runtime 4))) = Inr (2, 2)"
    by code_simp+
  moreover from this(2) obtain r where "snd (rt_reserve ?rr (sample_runtime 4)) = Inr r" "id_value (rs_id r) = 2" "gen_value (rs_generation r) = 2"
    by (cases "snd (rt_reserve ?rr (sample_runtime 4))") auto
  ultimately have "send_reserve (\<lambda>_. [bs]) (Id 1) (Id 1) (Id 1) 512 1 (Id 0) False sample_session = (sample_session, Inr (2, 2))"
    using reserve_end_to_end [OF sample_session_ready h, of "\<lambda>_. [bs]" ?rr] by (simp add: sample_coordinator_def)
  with bs show ?thesis by blast
qed

end
