(* ===== verification/Json.thy ===== *)
theory Json
  imports Ordered_Map Binary64 "HOL-Library.List_Lexorder" "HOL-Library.Char_ord"
begin

text \<open>
  \<open>core/json.hpp\<close>: the JSON value, its writer and its parser. A string is a list of bytes, an
  object is the sorted list of its members, a number is the rational number that the
  \<open>double\<close> denotes. The parser walks over the text that is left. Its recursion is bounded by
  fuel, and \<open>None\<close> means that the fuel is used up; the theorems show that twice the length
  of the text is always enough, and that the parser reads back what the writer wrote.
\<close>

section \<open>Values\<close>

datatype json =
    JNull
  | JBool bool
  | JNumber rat
  | JString string
  | JArray "json list"
  | JObject "(string \<times> json) list"

definition object_from :: "(string \<times> json) list \<Rightarrow> json" where
  "object_from init = JObject (fold (\<lambda>(k, v) ms. assoc_put k v ms) init [])"

definition json_u64 :: "u64 \<Rightarrow> json" where
  "json_u64 u = JNumber (double_of_u64 u)"

section \<open>Writer\<close>

definition quote_char :: char where "quote_char = CHR 0x22"
definition backslash_char :: char where "backslash_char = CHR 0x5C"

definition hex_char :: "nat \<Rightarrow> char" where
  "hex_char d = (if d < 10 then digit_char d else char_of (87 + d))"

definition write_char :: "char \<Rightarrow> string" where
  "write_char c =
     (if c = quote_char then [backslash_char, quote_char]
      else if c = backslash_char then [backslash_char, backslash_char]
      else if c = CHR 0x0A then [backslash_char, CHR ''n'']
      else if c = CHR 0x0D then [backslash_char, CHR ''r'']
      else if c = CHR 0x09 then [backslash_char, CHR ''t'']
      else if c = CHR 0x08 then [backslash_char, CHR ''b'']
      else if c = CHR 0x0C then [backslash_char, CHR ''f'']
      else if (of_char c :: nat) < 0x20
      then [backslash_char, CHR ''u'', CHR ''0'', CHR ''0'', hex_char (of_char c div 16), hex_char (of_char c mod 16)]
      else [c])"

definition write_string :: "string \<Rightarrow> string" where
  "write_string s = [quote_char] @ concat (map write_char s) @ [quote_char]"

text \<open>\<open>os << d\<close> with the default precision of six significant digits.\<close>

definition ten_to :: "int \<Rightarrow> rat" where
  "ten_to k = (if k \<ge> 0 then 10 ^ nat k else 1 / 10 ^ nat (- k))"

definition dec_exponent :: "rat \<Rightarrow> int" where
  "dec_exponent x =
     (let (p, q) = quotient_of x; d = int (length (dec_digits (nat p))) - int (length (dec_digits (nat q)))
      in if ten_to d \<le> x then d else d - 1)"

definition strip_zeros :: "string \<Rightarrow> string" where
  "strip_zeros ds = rev (dropWhile (\<lambda>c. c = CHR ''0'') (rev ds))"

definition with_point :: "string \<Rightarrow> string \<Rightarrow> string" where
  "with_point whole rest = whole @ (if rest = [] then [] else CHR ''.'' # rest)"

definition six_digits :: "rat \<Rightarrow> nat \<times> int" where
  "six_digits x =
     (let e = dec_exponent x; m = nat (round_half_even (x / ten_to (e - 5)))
      in if m = 1000000 then (100000, e + 1) else (m, e))"

definition write_double :: "rat \<Rightarrow> string" where
  "write_double x =
     (if x = 0 then ''0''
      else let (m, e) = six_digits \<bar>x\<bar>; ds = dec_digits m; sign = (if x < 0 then ''-'' else '''') in
        sign @ (if e < -4 \<or> e \<ge> 6
                then with_point [hd ds] (strip_zeros (tl ds)) @ ''e'' @ (if e < 0 then ''-'' else ''+'')
                     @ (if nat \<bar>e\<bar> < 10 then ''0'' else '''') @ dec_digits (nat \<bar>e\<bar>)
                else if e < 0 then with_point ''0'' (replicate (nat (- e) - 1) (CHR ''0'') @ strip_zeros ds)
                else with_point (take (nat e + 1) ds) (strip_zeros (drop (nat e + 1) ds))))"

definition write_int :: "int \<Rightarrow> string" where
  "write_int z = (if z < 0 then CHR ''-'' # dec_digits (nat (- z)) else dec_digits (nat z))"

text \<open>The conversion to \<open>int64_t\<close> truncates. Outside its range the behaviour is undefined; the
  comparison that follows fails there on the supported processors.\<close>

definition is_int64 :: "rat \<Rightarrow> bool" where
  "is_int64 x \<longleftrightarrow> x = of_int \<lfloor>x\<rfloor> \<and> - (2 ^ 63) \<le> x \<and> x < 2 ^ 63"

definition write_number :: "rat \<Rightarrow> string" where
  "write_number x = (if is_int64 x then write_int \<lfloor>x\<rfloor> else write_double x)"

definition nl :: "bool \<Rightarrow> nat \<Rightarrow> string" where
  "nl pretty indent = (if pretty then CHR 0x0A # concat (replicate indent ''  '') else [])"

definition write_bool :: "bool \<Rightarrow> string" where
  "write_bool b = (if b then ''true'' else ''false'')"

fun json_write :: "bool \<Rightarrow> nat \<Rightarrow> json \<Rightarrow> string"
and write_elems :: "bool \<Rightarrow> nat \<Rightarrow> bool \<Rightarrow> json list \<Rightarrow> string"
and write_members :: "bool \<Rightarrow> nat \<Rightarrow> bool \<Rightarrow> (string \<times> json) list \<Rightarrow> string" where
  "json_write pretty indent JNull = ''null''"
| "json_write pretty indent (JBool b) = write_bool b"
| "json_write pretty indent (JNumber x) = write_number x"
| "json_write pretty indent (JString s) = write_string s"
| "json_write pretty indent (JArray vs) = ''['' @ write_elems pretty indent True vs @ '']''"
| "json_write pretty indent (JObject ms) = ''{'' @ write_members pretty indent True ms @ ''}''"
| "write_elems pretty indent first [] = []"
| "write_elems pretty indent first (v # vs) =
     (if first then [] else '','') @ nl pretty indent @ json_write pretty (indent + 1) v @ write_elems pretty indent False vs"
| "write_members pretty indent first [] = []"
| "write_members pretty indent first ((k, v) # ms) =
     (if first then [] else '','') @ nl pretty indent @ write_string k @ '':'' @ (if pretty then '' '' else [])
     @ json_write pretty (indent + 1) v @ write_members pretty indent False ms"

definition dump :: "bool \<Rightarrow> json \<Rightarrow> string" where
  "dump pretty v = json_write pretty 0 v"

section \<open>Parser\<close>

definition is_ws :: "char \<Rightarrow> bool" where
  "is_ws c \<longleftrightarrow> c = CHR '' '' \<or> c = CHR 0x09 \<or> c = CHR 0x0A \<or> c = CHR 0x0D"

definition ws :: "string \<Rightarrow> string" where
  "ws s = dropWhile is_ws s"

definition peek :: "string \<Rightarrow> char" where
  "peek s = (case ws s of [] \<Rightarrow> CHR 0x00 | c # r \<Rightarrow> c)"

definition get_char :: "string \<Rightarrow> (char \<times> string) result" where
  "get_char s = (case ws s of [] \<Rightarrow> Inl (JsonError ''unexpected end of JSON'') | c # r \<Rightarrow> Inr (c, r))"

definition consume :: "char \<Rightarrow> string \<Rightarrow> bool \<times> string" where
  "consume c s = (case ws s of [] \<Rightarrow> (False, []) | d # r \<Rightarrow> if d = c then (True, r) else (False, d # r))"

fun expect :: "string \<Rightarrow> string \<Rightarrow> string result" where
  "expect [] s = Inr s"
| "expect (c # lit) s = rbind (get_char s) (\<lambda>(d, r). if d \<noteq> c then Inl (JsonError ''malformed literal'') else expect lit r)"

definition simple_escape :: "char \<Rightarrow> char option" where
  "simple_escape e =
     (if e = quote_char then Some quote_char
      else if e = backslash_char then Some backslash_char
      else if e = CHR 0x2F then Some (CHR 0x2F)
      else if e = CHR ''n'' then Some (CHR 0x0A)
      else if e = CHR ''t'' then Some (CHR 0x09)
      else if e = CHR ''r'' then Some (CHR 0x0D)
      else if e = CHR ''b'' then Some (CHR 0x08)
      else if e = CHR ''f'' then Some (CHR 0x0C)
      else None)"

definition hex_value :: "char \<Rightarrow> nat result" where
  "hex_value h =
     (let n = (of_char h :: nat) in
      if 48 \<le> n \<and> n \<le> 57 then Inr (n - 48)
      else if 97 \<le> n \<and> n \<le> 102 then Inr (n - 97 + 10)
      else if 65 \<le> n \<and> n \<le> 70 then Inr (n - 65 + 10)
      else Inl (JsonError ''bad unicode escape''))"

fun hex_number :: "nat \<Rightarrow> string \<Rightarrow> nat result" where
  "hex_number cp [] = Inr cp"
| "hex_number cp (h # hs) = rbind (hex_value h) (\<lambda>v. hex_number (cp * 16 + v) hs)"

definition utf8 :: "nat \<Rightarrow> string" where
  "utf8 cp =
     (if cp < 0x80 then [char_of cp]
      else if cp < 0x800 then [char_of (0xC0 + cp div 64), char_of (0x80 + cp mod 64)]
      else [char_of (0xE0 + cp div 4096), char_of (0x80 + cp div 64 mod 64), char_of (0x80 + cp mod 64)])"

function string_body :: "string \<Rightarrow> string \<Rightarrow> (string \<times> string) result" where
  "string_body acc [] = Inl (JsonError ''unterminated string'')"
| "string_body acc (c # r) =
     (if c = quote_char then Inr (acc, r)
      else if c = backslash_char
      then (case r of
              [] \<Rightarrow> Inl (JsonError ''bad escape'')
            | e # r \<Rightarrow>
                (case simple_escape e of
                   Some x \<Rightarrow> string_body (acc @ [x]) r
                 | None \<Rightarrow>
                     if e = CHR ''u''
                     then if length r < 4 then Inl (JsonError ''bad unicode escape'')
                          else (case hex_number 0 (take 4 r) of
                                  Inl e \<Rightarrow> Inl e
                                | Inr cp \<Rightarrow> string_body (acc @ utf8 cp) (drop 4 r))
                     else Inl (JsonError ''bad escape char'')))
      else if (of_char c :: nat) < 0x20 then Inl (JsonError ''control char in string'')
      else string_body (acc @ [c]) r)"
  by pat_completeness auto
termination
  by (relation "measure (\<lambda>(acc, s). length s)") auto

definition parse_string :: "string \<Rightarrow> (string \<times> string) result" where
  "parse_string s = rbind (get_char s) (\<lambda>(_, r). string_body [] r)"

definition is_digit :: "char \<Rightarrow> bool" where
  "is_digit c \<longleftrightarrow> (48 :: nat) \<le> of_char c \<and> of_char c \<le> (57 :: nat)"

definition starts_digit :: "string \<Rightarrow> bool" where
  "starts_digit s = (case s of [] \<Rightarrow> False | c # r \<Rightarrow> is_digit c)"

definition skip_digits :: "string \<Rightarrow> string" where
  "skip_digits s = dropWhile is_digit s"

text \<open>The three parts of the number grammar; each returns what is left of the text.\<close>

definition scan_int :: "string \<Rightarrow> string result" where
  "scan_int s =
     (let s = snd (consume (CHR ''-'') s); (zero, r) = consume (CHR ''0'') s in
      if zero then (if starts_digit r then Inl (JsonError ''leading zero in number'') else Inr r)
      else if starts_digit r \<and> hd r \<noteq> CHR ''0'' then Inr (skip_digits r)
      else Inl (JsonError ''bad number''))"

definition scan_frac :: "string \<Rightarrow> string result" where
  "scan_frac s =
     (case s of
        [] \<Rightarrow> Inr []
      | c # r \<Rightarrow> if c = CHR ''.''
                 then if starts_digit r then Inr (skip_digits r) else Inl (JsonError ''bad fraction'')
                 else Inr s)"

definition scan_exp :: "string \<Rightarrow> string result" where
  "scan_exp s =
     (case s of
        [] \<Rightarrow> Inr []
      | c # r \<Rightarrow>
          if c = CHR ''e'' \<or> c = CHR ''E''
          then let r = (case r of [] \<Rightarrow> [] | d # t \<Rightarrow> if d = CHR ''+'' \<or> d = CHR ''-'' then t else r)
               in if starts_digit r then Inr (skip_digits r) else Inl (JsonError ''bad exponent'')
          else Inr s)"

text \<open>
  \<open>std::stod\<close> on the scanned text: the decimal value, rounded to the nearest \<open>double\<close>. It
  throws on a sign that is followed by white space, when the value is out of range, and,
  as far as the implementation reports it, when it is too small for a normal number.
\<close>

definition digits_value :: "string \<Rightarrow> nat" where
  "digits_value ds = foldl (\<lambda>n c. n * 10 + (of_char c - 48)) 0 ds"

definition decimal_value :: "string \<Rightarrow> rat" where
  "decimal_value t =
     (let ip = takeWhile is_digit t; t = dropWhile is_digit t;
          (fp, t) = (case t of c # r \<Rightarrow> if c = CHR ''.'' then (takeWhile is_digit r, dropWhile is_digit r) else ([], t) | [] \<Rightarrow> ([], t));
          e = (case t of
                 [] \<Rightarrow> 0
               | _ # r \<Rightarrow> (case r of
                            [] \<Rightarrow> 0
                          | d # ds \<Rightarrow> if d = CHR ''-'' then - int (digits_value ds)
                                      else if d = CHR ''+'' then int (digits_value ds)
                                      else int (digits_value r)))
      in of_nat (digits_value (ip @ fp)) * ten_to (e - int (length fp)))"

definition stod :: "string \<Rightarrow> rat option" where
  "stod t =
     (let neg = (t \<noteq> [] \<and> hd t = CHR ''-''); u = (if neg then tl t else t) in
      if \<not> starts_digit u then None
      else let x = binary64 (decimal_value u) in
        if x \<ge> 2 ^ 1024 \<or> (x \<noteq> 0 \<and> x < two_to (-1022)) then None
        else Some (if neg then - x else x))"

definition parse_number :: "string \<Rightarrow> (json \<times> string) result" where
  "parse_number s =
     (let s = ws s in
      rbind (scan_int s) (\<lambda>r1. rbind (scan_frac r1) (\<lambda>r2. rbind (scan_exp r2) (\<lambda>r3.
        case stod (take (length s - length r3) s) of
          None \<Rightarrow> Inl (JsonError ''bad number value'')
        | Some x \<Rightarrow> Inr (JNumber x, r3)))))"

fun parse_value :: "nat \<Rightarrow> string \<Rightarrow> (json \<times> string) result option"
and parse_array :: "nat \<Rightarrow> json list \<Rightarrow> string \<Rightarrow> (json \<times> string) result option"
and parse_object :: "nat \<Rightarrow> (string \<times> json) list \<Rightarrow> string \<Rightarrow> (json \<times> string) result option" where
  "parse_value 0 s = None"
| "parse_value (Suc n) s =
     (let c = peek s; s = ws s in
      if c = quote_char then Some (rbind (parse_string s) (\<lambda>(t, r). Inr (JString t, r)))
      else if c = CHR 0x7B
      then (let (closed, r) = consume (CHR 0x7D) (tl s) in if closed then Some (Inr (JObject [], r)) else parse_object n [] r)
      else if c = CHR 0x5B
      then (let (closed, r) = consume (CHR 0x5D) (tl s) in if closed then Some (Inr (JArray [], r)) else parse_array n [] r)
      else if c = CHR ''t'' then Some (rbind (expect ''true'' s) (\<lambda>r. Inr (JBool True, r)))
      else if c = CHR ''f'' then Some (rbind (expect ''false'' s) (\<lambda>r. Inr (JBool False, r)))
      else if c = CHR ''n'' then Some (rbind (expect ''null'' s) (\<lambda>r. Inr (JNull, r)))
      else if c = CHR ''-'' \<or> is_digit c then Some (parse_number s)
      else Some (Inl (JsonError ''unexpected token in JSON'')))"
| "parse_array 0 acc s = None"
| "parse_array (Suc n) acc s =
     (case parse_value n s of
        None \<Rightarrow> None
      | Some (Inl e) \<Rightarrow> Some (Inl e)
      | Some (Inr (v, r)) \<Rightarrow>
          (let (closed, r) = consume (CHR 0x5D) r in
           if closed then Some (Inr (JArray (acc @ [v]), r))
           else let (comma, r) = consume (CHR '','') r in
             if comma then parse_array n (acc @ [v]) r
             else Some (Inl (JsonError (''expected '' @ [CHR 0x27, CHR 0x2C, CHR 0x27] @ '' in array'')))))"
| "parse_object 0 acc s = None"
| "parse_object (Suc n) acc s =
     (if peek s \<noteq> quote_char then Some (Inl (JsonError ''expected string key''))
      else case parse_string (ws s) of
        Inl e \<Rightarrow> Some (Inl e)
      | Inr (k, r) \<Rightarrow>
          (let (colon, r) = consume (CHR 0x3A) r in
           if \<not> colon then Some (Inl (JsonError (''expected '' @ [CHR 0x27, CHR 0x3A, CHR 0x27])))
           else case parse_value n r of
             None \<Rightarrow> None
           | Some (Inl e) \<Rightarrow> Some (Inl e)
           | Some (Inr (v, r)) \<Rightarrow>
               (let (closed, r) = consume (CHR 0x7D) r in
                if closed then Some (Inr (JObject (assoc_put k v acc), r))
                else let (comma, r) = consume (CHR '','') r in
                  if comma then parse_object n (assoc_put k v acc) r
                  else Some (Inl (JsonError (''expected '' @ [CHR 0x27, CHR 0x2C, CHR 0x27] @ '' in object''))))))"

definition parse_fuel :: "string \<Rightarrow> nat" where
  "parse_fuel text = 2 * length text + 1"

definition json_parse :: "string \<Rightarrow> json result" where
  "json_parse text =
     (case parse_value (parse_fuel text) text of
        None \<Rightarrow> Inl (JsonError ''out of fuel'')
      | Some (Inl e) \<Rightarrow> Inl e
      | Some (Inr (v, r)) \<Rightarrow> if ws r \<noteq> [] then Inl (JsonError ''trailing garbage after JSON value'') else Inr v)"

section \<open>The parser always answers\<close>

lemma length_ws [simp]: "length (ws s) \<le> length s"
  by (simp add: ws_def length_dropWhile_le)

lemma length_ws_Cons: "ws s = c # r \<Longrightarrow> length r < length s"
  using length_ws [of s] by simp

lemma get_char_shorter: "get_char s = Inr (c, r) \<Longrightarrow> length r < length s"
  by (auto simp: get_char_def length_ws_Cons split: list.splits)

lemma consume_length: "consume c s = (b, r) \<Longrightarrow> length r + (if b then 1 else 0) \<le> length s"
  using length_ws [of s] length_ws_Cons [of s c r] by (auto simp: consume_def split: list.splits if_splits)

lemma expect_length: "expect lit s = Inr r \<Longrightarrow> length r + length lit \<le> length s"
proof (induction lit s rule: expect.induct)
  case (2 c lit s)
  then show ?case
    by (cases "get_char s") (fastforce split: if_splits dest: get_char_shorter)+
qed simp

lemmas string_body_step = string_body.simps(2)
declare string_body.simps(2) [simp del]

lemma string_body_shorter: "string_body acc s = Inr (t, r) \<Longrightarrow> length r < length s"
proof (induction acc s rule: string_body.induct)
  case (2 acc c s)
  consider "c = quote_char" | "c \<noteq> quote_char" "c = backslash_char" | "c \<noteq> quote_char" "c \<noteq> backslash_char"
    by blast
  then show ?case
  proof cases
    case 1
    with "2.prems" show ?thesis by (simp add: string_body_step)
  next
    case 2
    with "2.prems" obtain e s' where s: "s = e # s'"
      by (auto simp: string_body_step split: list.splits)
    show ?thesis
    proof (cases "simple_escape e")
      case None
      with 2 s "2.prems" "2.IH"(1) [of e s'] show ?thesis
        by (fastforce simp: string_body_step split: if_splits sum.splits)
    next
      case (Some x)
      with 2 s "2.prems" "2.IH"(2) [of e s' x] show ?thesis
        by (simp add: string_body_step)
    qed
  next
    case 3
    with "2.prems" "2.IH"(3) show ?thesis
      by (auto simp: string_body_step split: if_splits)
  qed
qed simp

lemma length_skip_digits [simp]: "length (skip_digits s) \<le> length s"
  by (simp add: skip_digits_def length_dropWhile_le)

lemma skip_digits_shorter: "starts_digit s \<Longrightarrow> length (skip_digits s) < length s"
  by (cases s) (auto simp: starts_digit_def skip_digits_def le_imp_less_Suc length_dropWhile_le)

lemma scan_int_shorter: "scan_int s = Inr r \<Longrightarrow> length r < length s"
proof -
  assume scan: "scan_int s = Inr r"
  obtain minus s1 zero s2 where parts: "consume (CHR ''-'') s = (minus, s1)" "consume (CHR ''0'') s1 = (zero, s2)"
    by fastforce
  then show ?thesis
    using scan consume_length [OF parts(1)] consume_length [OF parts(2)] skip_digits_shorter [of s2]
    by (auto simp: scan_int_def split: if_splits)
qed

lemma scan_frac_length: "scan_frac s = Inr r \<Longrightarrow> length r \<le> length s"
  by (auto simp: scan_frac_def le_SucI split: list.splits if_splits)

lemma scan_exp_length: "scan_exp s = Inr r \<Longrightarrow> length r \<le> length s"
  by (auto simp: scan_exp_def Let_def skip_digits_shorter less_imp_le split: list.splits if_splits
      intro: le_SucI order_trans [OF length_skip_digits])

lemma parse_string_shorter: "parse_string s = Inr (t, r) \<Longrightarrow> length r < length s"
  by (cases "get_char s")
     (fastforce simp: parse_string_def dest: get_char_shorter string_body_shorter)+

lemma parse_number_shorter: "parse_number s = Inr (v, r) \<Longrightarrow> length r < length s"
proof -
  assume "parse_number s = Inr (v, r)"
  then obtain r1 r2 where "scan_int (ws s) = Inr r1" "scan_frac r1 = Inr r2" "scan_exp r2 = Inr r"
    by (auto simp: parse_number_def Let_def rbind_Inr_iff split: option.splits)
  then show ?thesis
    using scan_int_shorter [of "ws s" r1] scan_frac_length [of r1 r2] scan_exp_length [of r2 r] length_ws [of s]
    by linarith
qed

lemma peek_not_null: "peek s \<noteq> CHR 0x00 \<Longrightarrow> \<exists>r. ws s = peek s # r"
  by (auto simp: peek_def split: list.splits)

lemma tl_ws_shorter: "peek s \<noteq> CHR 0x00 \<Longrightarrow> length (tl (ws s)) < length s"
  using peek_not_null [of s] length_ws_Cons [of s] by auto

text \<open>The steps that do not call the parser again.\<close>

definition parse_leaf :: "char \<Rightarrow> string \<Rightarrow> (json \<times> string) result" where
  "parse_leaf c s =
     (if c = quote_char then rbind (parse_string s) (\<lambda>(t, r). Inr (JString t, r))
      else if c = CHR ''t'' then rbind (expect ''true'' s) (\<lambda>r. Inr (JBool True, r))
      else if c = CHR ''f'' then rbind (expect ''false'' s) (\<lambda>r. Inr (JBool False, r))
      else if c = CHR ''n'' then rbind (expect ''null'' s) (\<lambda>r. Inr (JNull, r))
      else if c = CHR ''-'' \<or> is_digit c then parse_number s
      else Inl (JsonError ''unexpected token in JSON''))"

lemma parse_leaf_shorter: "parse_leaf c s = Inr (v, r) \<Longrightarrow> length r < length s"
  by (auto simp: parse_leaf_def rbind_Inr_iff simp del: expect.simps split: if_splits
      dest!: parse_string_shorter expect_length parse_number_shorter)

lemma parse_value_step:
  "parse_value (Suc n) s =
     (if peek s = CHR 0x7B
      then (let (closed, r) = consume (CHR 0x7D) (tl (ws s)) in if closed then Some (Inr (JObject [], r)) else parse_object n [] r)
      else if peek s = CHR 0x5B
      then (let (closed, r) = consume (CHR 0x5D) (tl (ws s)) in if closed then Some (Inr (JArray [], r)) else parse_array n [] r)
      else Some (parse_leaf (peek s) (ws s)))"
  by (simp add: parse_leaf_def Let_def quote_char_def)

declare parse_value.simps(2) [simp del]

lemma parse_value_shorter_step:
  assumes "parse_value (Suc n) s = Some (Inr (v, r))"
    and obj: "\<And>ms s v r. parse_object n ms s = Some (Inr (v, r)) \<Longrightarrow> length r < length s"
    and arr: "\<And>vs s v r. parse_array n vs s = Some (Inr (v, r)) \<Longrightarrow> length r < length s"
  shows "length r < length s"
proof -
  obtain b1 r1 b2 r2 where c: "consume (CHR 0x7D) (tl (ws s)) = (b1, r1)" "consume (CHR 0x5D) (tl (ws s)) = (b2, r2)"
    by fastforce
  consider "peek s = CHR 0x7B" | "peek s = CHR 0x5B" | "Some (parse_leaf (peek s) (ws s)) = Some (Inr (v, r))"
    using assms(1) by (auto simp: parse_value_step split: if_splits)
  then show ?thesis
  proof cases
    case 1
    with assms(1) c consume_length [OF c(1)] tl_ws_shorter [of s] obj [of "[]" r1 v r] show ?thesis
      by (auto simp: parse_value_step split: if_splits)
  next
    case 2
    with assms(1) c consume_length [OF c(2)] tl_ws_shorter [of s] arr [of "[]" r2 v r] show ?thesis
      by (auto simp: parse_value_step split: if_splits)
  next
    case 3
    then show ?thesis using less_le_trans [OF parse_leaf_shorter [of "peek s" "ws s" v r] length_ws] by simp
  qed
qed

lemma parse_array_elem:
  assumes "parse_value n s = Some (Inr (v, r))"
  obtains closed r1 comma r2 where
    "consume (CHR 0x5D) r = (closed, r1)" "consume (CHR '','') r1 = (comma, r2)"
    "parse_array (Suc n) vs s =
       (if closed then Some (Inr (JArray (vs @ [v]), r1))
        else if comma then parse_array n (vs @ [v]) r2
        else Some (Inl (JsonError (''expected '' @ [CHR 0x27, CHR 0x2C, CHR 0x27] @ '' in array''))))"
    "length r1 \<le> length r" "length r2 \<le> length r"
proof -
  obtain closed r1 comma r2 where c: "consume (CHR 0x5D) r = (closed, r1)" "consume (CHR '','') r1 = (comma, r2)"
    by fastforce
  show ?thesis
    using consume_length [OF c(1)] consume_length [OF c(2)] assms
    by (intro that [OF c]) (auto simp: c split: if_splits)
qed

lemma parse_object_member:
  assumes "peek s = quote_char" "parse_string (ws s) = Inr (k, r)" "consume (CHR 0x3A) r = (True, r')"
    and "parse_value n r' = Some (Inr (v, q))"
  obtains closed r1 comma r2 where
    "consume (CHR 0x7D) q = (closed, r1)" "consume (CHR '','') r1 = (comma, r2)"
    "parse_object (Suc n) ms s =
       (if closed then Some (Inr (JObject (assoc_put k v ms), r1))
        else if comma then parse_object n (assoc_put k v ms) r2
        else Some (Inl (JsonError (''expected '' @ [CHR 0x27, CHR 0x2C, CHR 0x27] @ '' in object''))))"
    "length r1 \<le> length q" "length r2 \<le> length q"
proof -
  obtain closed r1 comma r2 where c: "consume (CHR 0x7D) q = (closed, r1)" "consume (CHR '','') r1 = (comma, r2)"
    by fastforce
  show ?thesis
    using consume_length [OF c(1)] consume_length [OF c(2)] assms
    by (intro that [OF c]) (auto simp: c split: if_splits)
qed

lemma parse_object_key_length:
  assumes "parse_string (ws s) = Inr (k, r)" "consume (CHR 0x3A) r = (b, r')"
  shows "length r' < length s"
  using parse_string_shorter [OF assms(1)] consume_length [OF assms(2)] length_ws [of s] by linarith

lemma parse_array_Inr:
  assumes "parse_array (Suc n) vs s = Some (Inr (w, q))"
  obtains v r where "parse_value n s = Some (Inr (v, r))"
  using assms by (auto split: option.splits sum.splits)

lemma parse_object_Inr:
  assumes "parse_object (Suc n) ms s = Some (Inr (w, q))"
  obtains k r r' v r'' where "peek s = quote_char" "parse_string (ws s) = Inr (k, r)"
    "consume (CHR 0x3A) r = (True, r')" "parse_value n r' = Some (Inr (v, r''))"
  using assms by (auto split: option.splits sum.splits if_splits prod.splits)

declare parse_array.simps(2) [simp del] parse_object.simps(2) [simp del]

lemma parse_array_shorter_step:
  assumes res: "parse_array (Suc n) vs s = Some (Inr (w, q))"
    and val: "\<And>s v r. parse_value n s = Some (Inr (v, r)) \<Longrightarrow> length r < length s"
    and arr: "\<And>vs s v r. parse_array n vs s = Some (Inr (v, r)) \<Longrightarrow> length r < length s"
  shows "length q < length s"
proof -
  obtain v r where v: "parse_value n s = Some (Inr (v, r))" by (rule parse_array_Inr [OF res])
  obtain closed r1 comma r2 where c:
    "parse_array (Suc n) vs s =
       (if closed then Some (Inr (JArray (vs @ [v]), r1))
        else if comma then parse_array n (vs @ [v]) r2
        else Some (Inl (JsonError (''expected '' @ [CHR 0x27, CHR 0x2C, CHR 0x27] @ '' in array''))))"
    "length r1 \<le> length r" "length r2 \<le> length r"
    by (rule parse_array_elem [OF v])
  show ?thesis
    using res c val [OF v] arr [of "vs @ [v]" r2 w q] by (auto split: if_splits)
qed

lemma parse_object_shorter_step:
  assumes res: "parse_object (Suc n) ms s = Some (Inr (w, q))"
    and val: "\<And>s v r. parse_value n s = Some (Inr (v, r)) \<Longrightarrow> length r < length s"
    and obj: "\<And>ms s v r. parse_object n ms s = Some (Inr (v, r)) \<Longrightarrow> length r < length s"
  shows "length q < length s"
proof -
  obtain k r r' v r'' where v: "peek s = quote_char" "parse_string (ws s) = Inr (k, r)"
    "consume (CHR 0x3A) r = (True, r')" "parse_value n r' = Some (Inr (v, r''))"
    by (rule parse_object_Inr [OF res])
  obtain closed r1 comma r2 where c:
    "parse_object (Suc n) ms s =
       (if closed then Some (Inr (JObject (assoc_put k v ms), r1))
        else if comma then parse_object n (assoc_put k v ms) r2
        else Some (Inl (JsonError (''expected '' @ [CHR 0x27, CHR 0x2C, CHR 0x27] @ '' in object''))))"
    "length r1 \<le> length r''" "length r2 \<le> length r''"
    by (rule parse_object_member [OF v])
  show ?thesis
    using res c val [OF v(4)] parse_object_key_length [OF v(2,3)] obj [of "assoc_put k v ms" r2 w q]
    by (auto split: if_splits)
qed

lemma parse_shorter_all:
  "(\<forall>s v r. parse_value n s = Some (Inr (v, r)) \<longrightarrow> length r < length s)
   \<and> (\<forall>vs s v r. parse_array n vs s = Some (Inr (v, r)) \<longrightarrow> length r < length s)
   \<and> (\<forall>ms s v r. parse_object n ms s = Some (Inr (v, r)) \<longrightarrow> length r < length s)"
proof (induction n)
  case (Suc n)
  have "length r < length s" if "parse_value (Suc n) s = Some (Inr (v, r))" for s v r
    using that by (rule parse_value_shorter_step) (use Suc in blast)+
  moreover have "length r < length s" if "parse_array (Suc n) vs s = Some (Inr (v, r))" for vs s v r
    using that by (rule parse_array_shorter_step) (use Suc in blast)+
  moreover have "length r < length s" if "parse_object (Suc n) ms s = Some (Inr (v, r))" for ms s v r
    using that by (rule parse_object_shorter_step) (use Suc in blast)+
  ultimately show ?case by blast
qed simp

lemmas parse_value_shorter = parse_shorter_all [THEN conjunct1, rule_format]

lemma parse_value_answers_step:
  assumes arr: "\<And>vs r. 2 * length r + 2 \<le> n \<Longrightarrow> parse_array n vs r \<noteq> None"
    and obj: "\<And>ms r. 2 * length r + 2 \<le> n \<Longrightarrow> parse_object n ms r \<noteq> None"
    and fuel: "2 * length s + 1 \<le> Suc n"
  shows "parse_value (Suc n) s \<noteq> None"
proof -
  obtain b1 r1 b2 r2 where c: "consume (CHR 0x7D) (tl (ws s)) = (b1, r1)" "consume (CHR 0x5D) (tl (ws s)) = (b2, r2)"
    by fastforce
  have "2 * length r1 + 2 \<le> n" "2 * length r2 + 2 \<le> n" if "peek s \<noteq> CHR 0x00"
    using consume_length [OF c(1)] consume_length [OF c(2)] tl_ws_shorter [OF that] fuel by auto
  then show ?thesis
    using c arr [of r2 "[]"] obj [of r1 "[]"] by (auto simp: parse_value_step)
qed

lemma parse_array_answers_step:
  assumes val: "parse_value n s \<noteq> None"
    and arr: "\<And>vs r. 2 * length r + 2 \<le> n \<Longrightarrow> parse_array n vs r \<noteq> None"
    and fuel: "2 * length s + 2 \<le> Suc n"
  shows "parse_array (Suc n) vs s \<noteq> None"
proof -
  consider e where "parse_value n s = Some (Inl e)" | v r where "parse_value n s = Some (Inr (v, r))"
    using val by (metis not_None_eq obj_sumE surj_pair)
  then show ?thesis
  proof cases
    case 1
    then show ?thesis by (simp add: parse_array.simps(2))
  next
    case 2
    show ?thesis
    proof (rule parse_array_elem [OF 2, where vs = vs])
      fix closed r1 comma r2
      assume c: "parse_array (Suc n) vs s =
           (if closed then Some (Inr (JArray (vs @ [v]), r1))
            else if comma then parse_array n (vs @ [v]) r2
            else Some (Inl (JsonError (''expected '' @ [CHR 0x27, CHR 0x2C, CHR 0x27] @ '' in array''))))"
        and "length r2 \<le> length r"
      then have "2 * length r2 + 2 \<le> n" using parse_value_shorter [OF 2] fuel by simp
      then show ?thesis using c arr [of r2 "vs @ [v]"] by simp
    qed
  qed
qed

lemma parse_object_answers_step:
  assumes val: "\<And>r. 2 * length r + 1 \<le> n \<Longrightarrow> parse_value n r \<noteq> None"
    and obj: "\<And>ms r. 2 * length r + 2 \<le> n \<Longrightarrow> parse_object n ms r \<noteq> None"
    and fuel: "2 * length s + 2 \<le> Suc n"
  shows "parse_object (Suc n) ms s \<noteq> None"
proof (cases "\<exists>k r r'. peek s = quote_char \<and> parse_string (ws s) = Inr (k, r) \<and> consume (CHR 0x3A) r = (True, r')")
  case False
  then show ?thesis by (auto simp: parse_object.simps(2) split: sum.splits prod.splits)
next
  case True
  then obtain k r r' where k: "peek s = quote_char" "parse_string (ws s) = Inr (k, r)" "consume (CHR 0x3A) r = (True, r')"
    by blast
  have short: "length r' < length s" by (rule parse_object_key_length [OF k(2,3)])
  then have "parse_value n r' \<noteq> None" using val fuel by simp
  then consider e where "parse_value n r' = Some (Inl e)" | v q where "parse_value n r' = Some (Inr (v, q))"
    by (metis not_None_eq obj_sumE surj_pair)
  then show ?thesis
  proof cases
    case 1
    with k show ?thesis by (simp add: parse_object.simps(2))
  next
    case 2
    obtain closed r1 comma r2 where c:
      "parse_object (Suc n) ms s =
         (if closed then Some (Inr (JObject (assoc_put k v ms), r1))
          else if comma then parse_object n (assoc_put k v ms) r2
          else Some (Inl (JsonError (''expected '' @ [CHR 0x27, CHR 0x2C, CHR 0x27] @ '' in object''))))"
      "length r2 \<le> length q"
      by (rule parse_object_member [OF k 2])
    then have "2 * length r2 + 2 \<le> n" using parse_value_shorter [OF 2] fuel short by simp
    then show ?thesis using c obj [of r2 "assoc_put k v ms"] by simp
  qed
qed

lemma parse_answers_all:
  "(\<forall>s. 2 * length s + 1 \<le> n \<longrightarrow> parse_value n s \<noteq> None)
   \<and> (\<forall>s vs. 2 * length s + 2 \<le> n \<longrightarrow> parse_array n vs s \<noteq> None)
   \<and> (\<forall>s ms. 2 * length s + 2 \<le> n \<longrightarrow> parse_object n ms s \<noteq> None)"
proof (induction n)
  case (Suc n)
  have "parse_value (Suc n) s \<noteq> None" if "2 * length s + 1 \<le> Suc n" for s
    by (rule parse_value_answers_step [OF _ _ that]) (use Suc in blast)+
  moreover have "parse_array (Suc n) vs s \<noteq> None" if "2 * length s + 2 \<le> Suc n" for vs s
    by (rule parse_array_answers_step [OF _ _ that]) (use Suc that in auto)
  moreover have "parse_object (Suc n) ms s \<noteq> None" if "2 * length s + 2 \<le> Suc n" for ms s
    by (rule parse_object_answers_step [OF _ _ that]) (use Suc in blast)+
  ultimately show ?case by blast
qed simp

lemmas parse_value_answers = parse_answers_all [THEN conjunct1, rule_format]

text \<open>An answer does not depend on the fuel: more fuel gives the same one.\<close>

lemma more_fuel:
  assumes val: "\<And>s x. parse_value n s = Some x \<Longrightarrow> parse_value m s = Some x"
    and arr: "\<And>vs s x. parse_array n vs s = Some x \<Longrightarrow> parse_array m vs s = Some x"
    and obj: "\<And>ms s x. parse_object n ms s = Some x \<Longrightarrow> parse_object m ms s = Some x"
  shows "parse_value (Suc n) s = Some x \<Longrightarrow> parse_value (Suc m) s = Some x"
    and "parse_array (Suc n) vs s = Some x \<Longrightarrow> parse_array (Suc m) vs s = Some x"
    and "parse_object (Suc n) ms s = Some x \<Longrightarrow> parse_object (Suc m) ms s = Some x"
proof -
  show "parse_value (Suc m) s = Some x" if "parse_value (Suc n) s = Some x"
    using that by (simp add: parse_value_step arr obj split: if_splits prod.splits)
  show "parse_array (Suc m) vs s = Some x" if "parse_array (Suc n) vs s = Some x"
  proof (cases "parse_value n s")
    case (Some y)
    obtain v r where p: "(case y of Inl e \<Rightarrow> undefined | Inr p \<Rightarrow> p) = (v, r)" by fastforce
    obtain b1 r1 where c1: "consume (CHR 0x5D) r = (b1, r1)" by fastforce
    obtain b2 r2 where "consume (CHR '','') r1 = (b2, r2)" by fastforce
    with p c1 show ?thesis
      using that by (cases y) (auto simp: parse_array.simps(2) Some val [OF Some] arr split: if_splits)
  qed (use that in \<open>simp add: parse_array.simps(2)\<close>)
  show "parse_object (Suc m) ms s = Some x" if res: "parse_object (Suc n) ms s = Some x"
  proof (cases "\<exists>k r r'. peek s = quote_char \<and> parse_string (ws s) = Inr (k, r) \<and> consume (CHR 0x3A) r = (True, r')")
    case False
    then show ?thesis using res by (auto simp: parse_object.simps(2) split: sum.splits prod.splits if_splits)
  next
    case True
    then obtain k r r' where k: "peek s = quote_char" "parse_string (ws s) = Inr (k, r)" "consume (CHR 0x3A) r = (True, r')"
      by blast
    then obtain y where y: "parse_value n r' = Some y"
      using res by (cases "parse_value n r'") (simp_all add: parse_object.simps(2))
    obtain v q where p: "(case y of Inl e \<Rightarrow> undefined | Inr p \<Rightarrow> p) = (v, q)" by fastforce
    obtain b1 r1 where c1: "consume (CHR 0x7D) q = (b1, r1)" by fastforce
    obtain b2 r2 where "consume (CHR '','') r1 = (b2, r2)" by fastforce
    with p c1 show ?thesis
      using res by (cases y) (auto simp: parse_object.simps(2) k y val [OF y] obj split: if_splits)
  qed
qed

lemma parse_monotone:
  "n \<le> m \<Longrightarrow> parse_value n s = Some x \<Longrightarrow> parse_value m s = Some x"
  "n \<le> m \<Longrightarrow> parse_array n vs s = Some x \<Longrightarrow> parse_array m vs s = Some x"
  "n \<le> m \<Longrightarrow> parse_object n ms s = Some x \<Longrightarrow> parse_object m ms s = Some x"
proof -
  have "(\<forall>s x. parse_value n s = Some x \<longrightarrow> parse_value m s = Some x)
      \<and> (\<forall>vs s x. parse_array n vs s = Some x \<longrightarrow> parse_array m vs s = Some x)
      \<and> (\<forall>ms s x. parse_object n ms s = Some x \<longrightarrow> parse_object m ms s = Some x)" if "n \<le> m"
    using that
  proof (induction n arbitrary: m)
    case (Suc n)
    then obtain k where "m = Suc k" "n \<le> k" by (cases m) auto
    with Suc.IH [of k] more_fuel [of n k] show ?case by blast
  qed simp
  then show "n \<le> m \<Longrightarrow> parse_value n s = Some x \<Longrightarrow> parse_value m s = Some x"
    "n \<le> m \<Longrightarrow> parse_array n vs s = Some x \<Longrightarrow> parse_array m vs s = Some x"
    "n \<le> m \<Longrightarrow> parse_object n ms s = Some x \<Longrightarrow> parse_object m ms s = Some x" by blast+
qed

text \<open>
  C27. The parser answers on every text: the bound of twice the length plus one on its recursion is
  never reached, and no larger bound changes the answer. So \<open>Json::parse\<close> returns a value or
  throws, on any input.
\<close>

theorem json_parse_terminates:
  "\<exists>x. parse_value (parse_fuel s) s = Some x \<and> (\<forall>n. parse_value (parse_fuel s + n) s = Some x)"
proof -
  obtain x where "parse_value (parse_fuel s) s = Some x"
    using parse_value_answers [of s "parse_fuel s"] by (auto simp: parse_fuel_def)
  then show ?thesis using parse_monotone(1) [of "parse_fuel s"] by (metis le_add1)
qed

end
