(* ===== verification/Json_Roundtrip.thy ===== *)
theory Json_Roundtrip
  imports Json
begin

text \<open>
  The writer and the parser of \<open>core/json.hpp\<close> against each other: what \<open>dump\<close> writes,
  compact or pretty, \<open>parse\<close> reads back to the same value. Strings may hold any bytes; numbers
  must be integers that a \<open>double\<close> and an \<open>int64_t\<close> hold, since the writer prints other
  numbers with six digits only.
\<close>

section \<open>Strings\<close>

lemma hex_value_digit: "d < 16 \<Longrightarrow> hex_value (hex_char d) = Inr d"
  by (cases "d < 10") (auto simp: hex_value_def hex_char_def digit_char_def of_char_of take_bit_eq_mod Let_def)

lemma string_body_control:
  assumes "(of_char c :: nat) < 0x20"
  shows "string_body acc ([backslash_char, CHR ''u'', CHR ''0'', CHR ''0'', hex_char (of_char c div 16), hex_char (of_char c mod 16)] @ r)
    = string_body (acc @ [c]) r"
proof -
  have zero: "hex_value (CHR ''0'') = Inr 0" by (simp add: hex_value_def)
  have "of_char c div 16 < (16 :: nat)" "of_char c mod 16 < (16 :: nat)" using assms by auto
  then have "hex_number 0 [CHR ''0'', CHR ''0'', hex_char (of_char c div 16), hex_char (of_char c mod 16)] = Inr (of_char c)"
    by (simp add: hex_value_digit zero)
  moreover have "utf8 (of_char c) = [c]" using assms by (simp add: utf8_def)
  ultimately show ?thesis
    by (simp add: string_body_step quote_char_def backslash_char_def simple_escape_def del: hex_number.simps)
qed

lemma string_body_write_char: "string_body acc (write_char c @ r) = string_body (acc @ [c]) r"
proof -
  consider "c \<in> {quote_char, backslash_char, CHR 0x0A, CHR 0x0D, CHR 0x09, CHR 0x08, CHR 0x0C}"
    | "c \<notin> {quote_char, backslash_char, CHR 0x0A, CHR 0x0D, CHR 0x09, CHR 0x08, CHR 0x0C}" "(of_char c :: nat) < 0x20"
    | "c \<notin> {quote_char, backslash_char, CHR 0x0A, CHR 0x0D, CHR 0x09, CHR 0x08, CHR 0x0C}" "\<not> (of_char c :: nat) < 0x20"
    by blast
  then show ?thesis
  proof cases
    case 1
    then show ?thesis
      by (auto simp: write_char_def string_body_step simple_escape_def quote_char_def backslash_char_def)
  next
    case 2
    then have "write_char c =
      [backslash_char, CHR ''u'', CHR ''0'', CHR ''0'', hex_char (of_char c div 16), hex_char (of_char c mod 16)]"
      by (simp add: write_char_def)
    then show ?thesis using string_body_control [OF 2(2)] by simp
  next
    case 3
    then show ?thesis by (simp add: write_char_def string_body_step)
  qed
qed

lemma string_body_written: "string_body acc (concat (map write_char s) @ quote_char # r) = Inr (acc @ s, r)"
proof (induction s arbitrary: acc)
  case Nil
  then show ?case by (simp add: string_body_step)
next
  case (Cons c s)
  then show ?case by (simp add: string_body_write_char)
qed

lemma quote_not_ws [simp]: "\<not> is_ws quote_char"
  by (simp add: is_ws_def quote_char_def)

lemma ws_Cons [simp]: "\<not> is_ws c \<Longrightarrow> ws (c # r) = c # r"
  by (simp add: ws_def)

lemma parse_string_written: "parse_string (write_string s @ r) = Inr (s, r)"
  by (simp add: parse_string_def write_string_def get_char_def string_body_written)

section \<open>Integers\<close>

lemma is_digit_char: "d < 10 \<Longrightarrow> is_digit (digit_char d)"
  by (simp add: is_digit_def digit_char_def of_char_of take_bit_eq_mod)

lemma dec_digits_are_digits: "c \<in> set (dec_digits n) \<Longrightarrow> is_digit c"
  using dec_digits_set is_digit_char by blast

lemma dec_digits_not_Nil [simp]: "dec_digits n \<noteq> []"
  by (subst dec_digits.simps) simp

lemma digits_value_dec: "digits_value (dec_digits n) = n"
proof (induction n rule: dec_digits.induct)
  case (1 n)
  have "(of_char (digit_char d) :: nat) - 48 = d" if "d < 10" for d
    using that by (simp add: digit_char_def of_char_of take_bit_eq_mod)
  with 1 show ?case
    by (subst dec_digits.simps) (simp add: digits_value_def)
qed

lemma dec_digits_head: "hd (dec_digits n) = CHR ''0'' \<longleftrightarrow> n = 0"
proof (induction n rule: dec_digits.induct)
  case (1 n)
  have "digit_char n = CHR ''0'' \<longleftrightarrow> n = 0" if "n < 10"
    using that by (auto simp: digit_char_def char_of_eq_iff take_bit_eq_mod)
  with 1 show ?case by (subst dec_digits.simps) auto
qed

definition terminated :: "string \<Rightarrow> bool" where
  "terminated r \<longleftrightarrow> r = [] \<or> hd r \<in> {CHR '','', CHR 0x5D, CHR 0x7D}"

lemma terminated_simps [simp]:
  "terminated []" "terminated (CHR '','' # r)" "terminated (CHR 0x5D # r)" "terminated (CHR 0x7D # r)"
  by (simp_all add: terminated_def)

lemma terminated_no_digit: "terminated (c # r) \<Longrightarrow> \<not> is_digit c \<and> c \<notin> {CHR ''.'', CHR ''e'', CHR ''E''}"
  by (auto simp: terminated_def is_digit_def)

lemma digit_not_ws: "is_digit c \<Longrightarrow> \<not> is_ws c"
  by (auto simp: is_digit_def is_ws_def)

lemma dec_digits_Cons:
  obtains c t where "dec_digits n = c # t" "is_digit c" "\<forall>d\<in>set t. is_digit d"
  using dec_digits_are_digits [of _ n] dec_digits_not_Nil [of n] by (metis list.exhaust list.set_intros)

lemma skip_dec_digits: "terminated r \<Longrightarrow> skip_digits (dec_digits n @ r) = r"
  using dec_digits_are_digits [of _ n] terminated_no_digit
  by (cases r) (auto simp: skip_digits_def dropWhile_append)

lemma scan_frac_terminated [simp]: "terminated r \<Longrightarrow> scan_frac r = Inr r"
  using terminated_no_digit by (cases r) (auto simp: scan_frac_def)

lemma scan_exp_terminated [simp]: "terminated r \<Longrightarrow> scan_exp r = Inr r"
  using terminated_no_digit by (cases r) (auto simp: scan_exp_def)

lemma starts_digit_terminated [simp]: "terminated r \<Longrightarrow> \<not> starts_digit r"
  using terminated_no_digit by (cases r) (auto simp: starts_digit_def)

lemma consume_Cons [simp]: "\<not> is_ws d \<Longrightarrow> consume c (d # r) = (if d = c then (True, r) else (False, d # r))"
  by (simp add: consume_def)

lemma minus_chars [simp]: "\<not> is_ws (CHR ''-'')" "\<not> is_digit (CHR ''-'')"
  by (simp_all add: is_ws_def is_digit_def)

lemma scan_nat_written:
  assumes "terminated r"
  shows "scan_int (dec_digits n @ r) = Inr r" "scan_int (CHR ''-'' # dec_digits n @ r) = Inr r"
proof -
  obtain c t where d: "dec_digits n = c # t" "is_digit c" "\<forall>d\<in>set t. is_digit d" by (rule dec_digits_Cons)
  have minus: "c \<noteq> CHR ''-''" using d(2) by auto
  have t: "t = []" if "c = CHR ''0''"
    using that d(1) dec_digits_head [of n] by (auto simp: dec_digits.simps)
  have "skip_digits (c # t @ r) = r" using skip_dec_digits [OF assms, of n] d(1) by simp
  with d minus t assms show "scan_int (dec_digits n @ r) = Inr r" "scan_int (CHR ''-'' # dec_digits n @ r) = Inr r"
    by (auto simp: scan_int_def digit_not_ws starts_digit_def[of "c # _"])
qed

lemma decimal_value_nat: "decimal_value (dec_digits n) = of_nat n"
proof -
  have parts: "takeWhile is_digit (dec_digits n) = dec_digits n" "dropWhile is_digit (dec_digits n) = []"
    using dec_digits_are_digits by simp_all
  show ?thesis by (simp add: decimal_value_def Let_def parts digits_value_dec ten_to_def)
qed

definition holds_integer :: "rat \<Rightarrow> bool" where
  "holds_integer x \<longleftrightarrow> is_int64 x \<and> binary64 \<bar>x\<bar> = \<bar>x\<bar>"

lemma stod_nat:
  assumes "binary64 (of_nat n) = of_nat n" "n \<le> 2 ^ 63"
  shows "stod (dec_digits n) = Some (of_nat n)" "stod (CHR ''-'' # dec_digits n) = Some (- of_nat n)"
proof -
  have d: "starts_digit (dec_digits n)" "hd (dec_digits n) \<noteq> CHR ''-''"
    by (rule dec_digits_Cons [of n]; auto simp: starts_digit_def)+
  have "(of_nat n :: rat) \<le> of_nat (2 ^ 63)" using assms(2) by (simp only: of_nat_le_iff)
  also have "\<dots> < 2 ^ 1024" by simp
  finally have big: "\<not> (of_nat n :: rat) \<ge> 2 ^ 1024" by simp
  have small: "\<not> (of_nat n :: rat) < two_to (- 1022)" if "n \<noteq> 0"
  proof -
    have "two_to (- 1022) \<le> 1" by (simp add: two_to_def)
    also have "1 \<le> (of_nat n :: rat)" using that by (cases n) auto
    finally show ?thesis by simp
  qed
  show "stod (dec_digits n) = Some (of_nat n)"
    using big small by (auto simp: stod_def Let_def d decimal_value_nat assms(1))
  show "stod (CHR ''-'' # dec_digits n) = Some (- of_nat n)"
    using big small by (auto simp: stod_def Let_def d decimal_value_nat assms(1))
qed

lemma parse_number_written:
  assumes "holds_integer x" "terminated r"
  shows "parse_number (write_number x @ r) = Inr (JNumber x, r)"
proof -
  define z where "z = \<lfloor>x\<rfloor>"
  define n where "n = nat \<bar>z\<bar>"
  have x: "x = of_int z" "- (2 ^ 63) \<le> z" "z < 2 ^ 63"
  proof -
    have "x = of_int z" "of_int (- (2 ^ 63)) \<le> x" "x < of_int (2 ^ 63)"
      using assms(1) by (simp_all add: holds_integer_def is_int64_def z_def)
    then show "x = of_int z" "- (2 ^ 63) \<le> z" "z < 2 ^ 63" by (simp_all only: of_int_le_iff of_int_less_iff)
  qed
  have n: "binary64 (of_nat n) = of_nat n" "n \<le> 2 ^ 63"
    using assms(1) x by (simp_all add: holds_integer_def n_def)
  obtain c t where d: "dec_digits n = c # t" "is_digit c" by (rule dec_digits_Cons)
  have keep: "ws (dec_digits n @ r) = dec_digits n @ r" using d digit_not_ws by simp
  show ?thesis
  proof (cases "z < 0")
    case True
    then have "write_number x = CHR ''-'' # dec_digits n"
      using assms(1) by (simp add: write_number_def holds_integer_def write_int_def n_def z_def)
    moreover have "- of_nat n = x" using True x(1) by (simp add: n_def)
    ultimately show ?thesis
      using assms(2) n by (simp add: parse_number_def Let_def scan_nat_written stod_nat)
  next
    case False
    then have "write_number x = dec_digits n"
      using assms(1) by (simp add: write_number_def holds_integer_def write_int_def n_def z_def)
    moreover have "of_nat n = x" using False x(1) by (simp add: n_def)
    ultimately show ?thesis
      using assms(2) n by (simp add: parse_number_def Let_def keep scan_nat_written stod_nat)
  qed
qed

section \<open>Parsing without fuel\<close>

definition parses :: "string \<Rightarrow> json \<Rightarrow> string \<Rightarrow> bool" where
  "parses s v r \<longleftrightarrow> (\<exists>n. parse_value n s = Some (Inr (v, r)))"

definition parses_array :: "json list \<Rightarrow> string \<Rightarrow> json \<Rightarrow> string \<Rightarrow> bool" where
  "parses_array vs s v r \<longleftrightarrow> (\<exists>n. parse_array n vs s = Some (Inr (v, r)))"

definition parses_object :: "(string \<times> json) list \<Rightarrow> string \<Rightarrow> json \<Rightarrow> string \<Rightarrow> bool" where
  "parses_object ms s v r \<longleftrightarrow> (\<exists>n. parse_object n ms s = Some (Inr (v, r)))"

lemma ws_ws [simp]: "ws (ws s) = ws s"
  by (simp add: ws_def dropWhile_idem)

lemma peek_ws [simp]: "peek (ws s) = peek s"
  by (simp add: peek_def)

lemma peek_Cons [simp]: "\<not> is_ws c \<Longrightarrow> peek (c # r) = c"
  by (simp add: peek_def)

lemma parses_ws: "ws s = ws s' \<Longrightarrow> parses s v r \<longleftrightarrow> parses s' v r"
proof -
  assume eq: "ws s = ws s'"
  then have "parse_value n s = parse_value n s'" for n
    by (cases n) (simp_all add: parse_value_step peek_def)
  then show ?thesis by (simp add: parses_def)
qed

lemma parses_leaf:
  assumes "c \<notin> {CHR 0x7B, CHR 0x5B}" "\<not> is_ws c" "parse_leaf c (c # s) = Inr (v, r)"
  shows "parses (c # s) v r"
  unfolding parses_def by (rule exI [of _ 1]) (use assms in \<open>simp add: parse_value_step\<close>)

lemma open_chars [simp]:
  "\<not> is_ws (CHR 0x7B)" "\<not> is_ws (CHR 0x5B)" "\<not> is_ws (CHR 0x7D)" "\<not> is_ws (CHR 0x5D)" "\<not> is_ws (CHR '','')" "\<not> is_ws (CHR 0x3A)"
  by (simp_all add: is_ws_def)

lemma parses_empty:
  "parses (CHR 0x5B # CHR 0x5D # r) (JArray []) r"
  "parses (CHR 0x7B # CHR 0x7D # r) (JObject []) r"
  unfolding parses_def by (rule exI [of _ 1]; simp add: parse_value_step)+

lemma parses_open:
  assumes "ws s = c # t"
  shows "c \<noteq> CHR 0x5D \<Longrightarrow> parses_array [] (c # t) v r \<Longrightarrow> parses (CHR 0x5B # s) v r"
    and "c \<noteq> CHR 0x7D \<Longrightarrow> parses_object [] (c # t) v r \<Longrightarrow> parses (CHR 0x7B # s) v r"
proof -
  show "parses (CHR 0x5B # s) v r" if c: "c \<noteq> CHR 0x5D" "parses_array [] (c # t) v r"
  proof -
    obtain n where "parse_array n [] (c # t) = Some (Inr (v, r))" using c(2) by (auto simp: parses_array_def)
    then have "parse_value (Suc n) (CHR 0x5B # s) = Some (Inr (v, r))"
      using assms c(1) by (simp add: parse_value_step consume_def)
    then show ?thesis unfolding parses_def by blast
  qed
  show "parses (CHR 0x7B # s) v r" if c: "c \<noteq> CHR 0x7D" "parses_object [] (c # t) v r"
  proof -
    obtain n where "parse_object n [] (c # t) = Some (Inr (v, r))" using c(2) by (auto simp: parses_object_def)
    then have "parse_value (Suc n) (CHR 0x7B # s) = Some (Inr (v, r))"
      using assms c(1) by (simp add: parse_value_step consume_def)
    then show ?thesis unfolding parses_def by blast
  qed
qed

lemma parses_array_last: "parses s v (CHR 0x5D # r) \<Longrightarrow> parses_array vs s (JArray (vs @ [v])) r"
proof -
  assume "parses s v (CHR 0x5D # r)"
  then obtain n where "parse_value n s = Some (Inr (v, CHR 0x5D # r))" by (auto simp: parses_def)
  then have "parse_array (Suc n) vs s = Some (Inr (JArray (vs @ [v]), r))" by (simp add: parse_array.simps(2))
  then show ?thesis unfolding parses_array_def by blast
qed

lemma parses_array_more:
  assumes "parses s v (CHR '','' # s')" "parses_array (vs @ [v]) s' w r"
  shows "parses_array vs s w r"
proof -
  obtain n m where "parse_value n s = Some (Inr (v, CHR '','' # s'))" "parse_array m (vs @ [v]) s' = Some (Inr (w, r))"
    using assms by (auto simp: parses_def parses_array_def)
  then have "parse_value (max n m) s = Some (Inr (v, CHR '','' # s'))"
    "parse_array (max n m) (vs @ [v]) s' = Some (Inr (w, r))"
    by (auto intro: parse_monotone [rotated])
  then have "parse_array (Suc (max n m)) vs s = Some (Inr (w, r))" by (simp add: parse_array.simps(2))
  then show ?thesis unfolding parses_array_def by blast
qed

lemma parses_object_last:
  assumes "peek s = quote_char" "parse_string (ws s) = Inr (k, CHR 0x3A # s1)" "parses s1 v (CHR 0x7D # r)"
  shows "parses_object ms s (JObject (assoc_put k v ms)) r"
proof -
  obtain n where "parse_value n s1 = Some (Inr (v, CHR 0x7D # r))" using assms(3) by (auto simp: parses_def)
  then have "parse_object (Suc n) ms s = Some (Inr (JObject (assoc_put k v ms), r))"
    using assms by (simp add: parse_object.simps(2))
  then show ?thesis unfolding parses_object_def by blast
qed

lemma parses_object_more:
  assumes "peek s = quote_char" "parse_string (ws s) = Inr (k, CHR 0x3A # s1)" "parses s1 v (CHR '','' # s')"
    and "parses_object (assoc_put k v ms) s' w r"
  shows "parses_object ms s w r"
proof -
  obtain n m where "parse_value n s1 = Some (Inr (v, CHR '','' # s'))"
    "parse_object m (assoc_put k v ms) s' = Some (Inr (w, r))"
    using assms by (auto simp: parses_def parses_object_def)
  then have "parse_value (max n m) s1 = Some (Inr (v, CHR '','' # s'))"
    "parse_object (max n m) (assoc_put k v ms) s' = Some (Inr (w, r))"
    by (auto intro: parse_monotone [rotated])
  then have "parse_object (Suc (max n m)) ms s = Some (Inr (w, r))"
    using assms by (simp add: parse_object.simps(2))
  then show ?thesis unfolding parses_object_def by blast
qed

section \<open>What the writer wrote\<close>

fun json_ok :: "json \<Rightarrow> bool" where
  "json_ok (JNumber x) = holds_integer x"
| "json_ok (JArray vs) = list_all json_ok vs"
| "json_ok (JObject ms) = (keys_ascending ms \<and> list_all (\<lambda>(k, v). json_ok v) ms)"
| "json_ok v = True"

definition reads_back :: "json \<Rightarrow> bool" where
  "reads_back v \<longleftrightarrow> (\<forall>pretty i r. terminated r \<longrightarrow> parses (json_write pretty i v @ r) v r)"

lemma reads_backD: "reads_back v \<Longrightarrow> terminated r \<Longrightarrow> parses (json_write pretty i v @ r) v r"
  by (simp add: reads_back_def)

lemma ws_nl [simp]: "ws (nl pretty i @ s) = ws s"
proof -
  have "dropWhile is_ws (concat (replicate i ''  '') @ s) = dropWhile is_ws s" by (induction i) (simp_all add: is_ws_def)
  then show ?thesis by (simp add: ws_def nl_def is_ws_def)
qed

lemma ws_space [simp]: "ws ((if pretty then '' '' else []) @ s) = ws s"
  by (simp add: ws_def is_ws_def)

lemma write_string_Cons: "write_string s = quote_char # concat (map write_char s) @ [quote_char]"
  by (simp add: write_string_def)

text \<open>The first character of a written value tells it from white space and from a closing bracket.\<close>

lemma write_number_head:
  assumes "holds_integer x"
  obtains c t where "write_number x = c # t" "c = CHR ''-'' \<or> is_digit c"
proof -
  obtain c t where d: "dec_digits (nat \<lfloor>x\<rfloor>) = c # t" "is_digit c" by (rule dec_digits_Cons)
  show ?thesis
    using assms d that by (cases "\<lfloor>x\<rfloor> < 0") (auto simp: holds_integer_def write_number_def write_int_def)
qed

lemma number_head_chars:
  "c = CHR ''-'' \<or> is_digit c \<Longrightarrow>
     \<not> is_ws c \<and> c \<notin> {CHR 0x5D, CHR 0x7D, CHR 0x5B, CHR 0x7B, quote_char, CHR ''t'', CHR ''f'', CHR ''n''}"
  by (auto simp: is_digit_def is_ws_def quote_char_def)

lemma json_write_head:
  assumes "json_ok v"
  shows "\<exists>c t. json_write pretty i v = c # t \<and> \<not> is_ws c \<and> c \<notin> {CHR 0x5D, CHR 0x7D}"
proof (cases v)
  case (JNumber x)
  with assms have "holds_integer x" by simp
  then show ?thesis by (rule write_number_head) (use JNumber number_head_chars in auto)
qed (auto simp: write_bool_def write_string_Cons is_ws_def quote_char_def)

lemma reads_back_elems:
  assumes "\<forall>x\<in>set (v # vs). reads_back x" "ws s = ws (json_write pretty j v @ write_elems pretty i False vs @ CHR 0x5D # r)"
  shows "parses_array acc s (JArray (acc @ v # vs)) r"
  using assms
proof (induction vs arbitrary: v acc s j)
  case Nil
  then have "parses (json_write pretty j v @ CHR 0x5D # r) v (CHR 0x5D # r)" by (intro reads_backD) simp_all
  then have "parses s v (CHR 0x5D # r)" using Nil.prems(2) parses_ws [of s] by simp
  then show ?case using parses_array_last [of s v r acc] by simp
next
  case (Cons w vs)
  let ?s' = "nl pretty i @ json_write pretty (i + 1) w @ write_elems pretty i False vs @ CHR 0x5D # r"
  have "parses s v (CHR '','' # ?s')"
    using reads_backD [of v "CHR '','' # ?s'" pretty j] Cons.prems parses_ws [of s] by simp
  moreover have "parses_array (acc @ [v]) ?s' (JArray ((acc @ [v]) @ w # vs)) r"
    using Cons.prems by (intro Cons.IH) simp_all
  ultimately show ?case using parses_array_more [of s v] by fastforce
qed

lemma assoc_put_above: "\<forall>p\<in>set ms. fst p < k \<Longrightarrow> assoc_put k v ms = ms @ [(k, v)]"
  by (induction ms) auto

definition member_text :: "bool \<Rightarrow> nat \<Rightarrow> string \<Rightarrow> json \<Rightarrow> string" where
  "member_text pretty j k v = write_string k @ '':'' @ (if pretty then '' '' else []) @ json_write pretty j v"

lemma parse_member:
  assumes "ws s = ws (member_text pretty j k v @ r)" "reads_back v" "terminated r"
  obtains s1 where "peek s = quote_char" "parse_string (ws s) = Inr (k, CHR 0x3A # s1)" "parses s1 v r"
proof
  let ?s1 = "(if pretty then '' '' else []) @ json_write pretty j v @ r"
  have s: "ws s = write_string k @ CHR 0x3A # ?s1"
    using assms(1) by (simp add: member_text_def write_string_Cons)
  show "peek s = quote_char" by (simp add: peek_def s write_string_Cons)
  show "parse_string (ws s) = Inr (k, CHR 0x3A # ?s1)" by (simp only: s parse_string_written)
  show "parses ?s1 v r"
    using reads_backD [OF assms(2,3)] parses_ws [of ?s1] by simp
qed

lemma reads_back_members:
  assumes "\<forall>x\<in>snd ` set ((k, v) # ms). reads_back x" "keys_ascending (acc @ (k, v) # ms)"
    and "ws s = ws (member_text pretty j k v @ write_members pretty i False ms @ CHR 0x7D # r)"
  shows "parses_object acc s (JObject (acc @ (k, v) # ms)) r"
  using assms
proof (induction ms arbitrary: k v acc s j)
  case Nil
  then have put: "assoc_put k v acc = acc @ [(k, v)]" by (intro assoc_put_above) (auto simp: sorted_wrt_append)
  have "ws s = ws (member_text pretty j k v @ CHR 0x7D # r)" using Nil.prems(3) by simp
  then obtain s1 where "peek s = quote_char" "parse_string (ws s) = Inr (k, CHR 0x3A # s1)" "parses s1 v (CHR 0x7D # r)"
    by (rule parse_member) (use Nil.prems in auto)
  then show ?case using parses_object_last [of s k s1 v r acc] put by simp
next
  case (Cons m ms)
  obtain k' v' where m: "m = (k', v')" by fastforce
  have put: "assoc_put k v acc = acc @ [(k, v)]"
    using Cons.prems(2) by (intro assoc_put_above) (auto simp: sorted_wrt_append)
  let ?s' = "nl pretty i @ member_text pretty (i + 1) k' v' @ write_members pretty i False ms @ CHR 0x7D # r"
  have "parses_object (acc @ [(k, v)]) ?s' (JObject ((acc @ [(k, v)]) @ (k', v') # ms)) r"
    using Cons.prems m by (intro Cons.IH) simp_all
  moreover have "ws s = ws (member_text pretty j k v @ CHR '','' # ?s')"
    using Cons.prems(3) by (simp add: m member_text_def)
  then obtain s1 where "peek s = quote_char" "parse_string (ws s) = Inr (k, CHR 0x3A # s1)" "parses s1 v (CHR '','' # ?s')"
    by (rule parse_member) (use Cons.prems in auto)
  ultimately show ?case using put m parses_object_more [of s k s1 v ?s' acc] by simp
qed

lemma reads_back_string: "reads_back (JString s)"
proof -
  have "parse_leaf quote_char (write_string s @ r) = Inr (JString s, r)" for r
    by (simp add: parse_leaf_def parse_string_written)
  then show ?thesis
    by (auto simp: reads_back_def write_string_Cons intro!: parses_leaf) (simp_all add: quote_char_def)
qed

lemma reads_back_literals: "reads_back JNull" "reads_back (JBool b)"
  by (auto simp: reads_back_def write_bool_def is_ws_def quote_char_def parse_leaf_def get_char_def intro!: parses_leaf)

lemma reads_back_number: "holds_integer x \<Longrightarrow> reads_back (JNumber x)"
  unfolding reads_back_def
proof (intro allI impI)
  fix pretty i r assume ok: "holds_integer x" "terminated r"
  obtain c t where h: "write_number x = c # t" "c = CHR ''-'' \<or> is_digit c" by (rule write_number_head [OF ok(1)])
  have "parse_leaf c (c # t @ r) = Inr (JNumber x, r)"
    using number_head_chars [OF h(2)] h parse_number_written [OF ok] by (simp add: parse_leaf_def)
  then show "parses (json_write pretty i (JNumber x) @ r) (JNumber x) r"
    using h(1) number_head_chars [OF h(2)] parses_leaf by simp
qed

lemma reads_back_array:
  assumes "\<forall>v\<in>set vs. reads_back v" "list_all json_ok vs"
  shows "reads_back (JArray vs)"
proof (cases vs)
  case Nil
  then show ?thesis by (simp add: reads_back_def parses_empty)
next
  case (Cons v ws')
  show ?thesis
    unfolding reads_back_def
  proof (intro allI impI)
    fix pretty i r
    let ?s = "json_write pretty (i + 1) v @ write_elems pretty i False ws' @ CHR 0x5D # r"
    obtain c t where c: "?s = c # t" "\<not> is_ws c" "c \<notin> {CHR 0x5D, CHR 0x7D}"
      using json_write_head [of v pretty "i + 1"] assms(2) Cons by auto
    have "parses_array [] ?s (JArray ([] @ v # ws')) r"
      by (rule reads_back_elems) (use assms Cons in auto)
    then have "parses (CHR 0x5B # nl pretty i @ ?s) (JArray vs) r"
      using c Cons by (intro parses_open(1)) simp_all
    then show "parses (json_write pretty i (JArray vs) @ r) (JArray vs) r" by (simp add: Cons)
  qed
qed

lemma reads_back_object:
  assumes "\<forall>p\<in>set ms. reads_back (snd p)" "keys_ascending ms"
  shows "reads_back (JObject ms)"
proof (cases ms)
  case Nil
  then show ?thesis by (simp add: reads_back_def parses_empty)
next
  case (Cons m ms')
  obtain k v where m: "m = (k, v)" by fastforce
  show ?thesis
    unfolding reads_back_def
  proof (intro allI impI)
    fix pretty i r
    let ?s = "member_text pretty (i + 1) k v @ write_members pretty i False ms' @ CHR 0x7D # r"
    obtain t where c: "?s = quote_char # t" by (simp add: member_text_def write_string_Cons)
    have "parses_object [] ?s (JObject ([] @ (k, v) # ms')) r"
      by (rule reads_back_members) (use assms Cons m in auto)
    then have "parses (CHR 0x7B # nl pretty i @ ?s) (JObject ms) r"
      using c Cons m by (intro parses_open(2)) (simp_all, simp add: quote_char_def)
    then show "parses (json_write pretty i (JObject ms) @ r) (JObject ms) r"
      by (simp add: Cons m member_text_def)
  qed
qed

lemma written_reads_back: "json_ok v \<Longrightarrow> reads_back v"
proof (induction v)
  case (JArray vs)
  then show ?case by (intro reads_back_array) (auto simp: list_all_iff)
next
  case (JObject ms)
  then show ?case by (intro reads_back_object) (auto simp: list_all_iff)
qed (simp_all add: reads_back_literals reads_back_number reads_back_string)

lemma parses_json_parse: "parses s v [] \<Longrightarrow> json_parse s = Inr v"
proof -
  assume "parses s v []"
  then obtain n where n: "parse_value n s = Some (Inr (v, []))" by (auto simp: parses_def)
  obtain x where x: "parse_value (parse_fuel s) s = Some x"
    using parse_value_answers [of s "parse_fuel s"] by (auto simp: parse_fuel_def)
  have "x = Inr (v, [])"
    using parse_monotone(1) [OF max.cobounded1 n, of "parse_fuel s"]
      parse_monotone(1) [OF max.cobounded2 x, of n] by simp
  then show ?thesis using x by (simp add: json_parse_def ws_def)
qed

lemma json_parse_dump: "json_ok v \<Longrightarrow> json_parse (dump pretty v) = Inr v"
  using reads_backD [OF written_reads_back, of v "[]" pretty 0] by (simp add: dump_def parses_json_parse)

lemma holds_integer_nat: "n < 2 ^ 53 \<Longrightarrow> holds_integer (of_nat n)"
proof -
  assume "n < 2 ^ 53"
  moreover from this have "(of_nat n :: rat) < of_nat (2 ^ 53)" by (simp only: of_nat_less_iff)
  moreover have "- (2 ^ 63) \<le> (of_nat n :: rat)" by (rule order_trans [of _ 0]) simp_all
  ultimately show ?thesis by (simp add: holds_integer_def is_int64_def binary64_nat)
qed



section \<open>Every parsed value is well formed\<close>

fun json_wf :: "json \<Rightarrow> bool" where
  "json_wf (JArray vs) = list_all json_wf vs"
| "json_wf (JObject ms) = (keys_ascending ms \<and> list_all (\<lambda>(k, v). json_wf v) ms)"
| "json_wf v = True"

lemma assoc_put_set: "set (assoc_put k v ms) \<subseteq> insert (k, v) (set ms)"
  by (induction ms) auto

lemma json_wf_put: "json_wf (JObject ms) \<Longrightarrow> json_wf v \<Longrightarrow> json_wf (JObject (assoc_put k v ms))"
  using assoc_put_set [of k v ms] by (auto simp: ascending_put list_all_iff)

lemma json_wf_append: "json_wf (JArray vs) \<Longrightarrow> json_wf v \<Longrightarrow> json_wf (JArray (vs @ [v]))"
  by simp

lemma parse_leaf_wf: "parse_leaf c s = Inr (v, r) \<Longrightarrow> json_wf v"
  by (auto simp: parse_leaf_def parse_number_def Let_def rbind_Inr_iff simp del: expect.simps split: if_splits option.splits)

lemma parse_array_wf_step:
  assumes res: "parse_array (Suc n) vs s = Some (Inr (w, q))" and vs: "json_wf (JArray vs)"
    and val: "\<And>s v r. parse_value n s = Some (Inr (v, r)) \<Longrightarrow> json_wf v"
    and arr: "\<And>vs s v r. parse_array n vs s = Some (Inr (v, r)) \<Longrightarrow> json_wf (JArray vs) \<Longrightarrow> json_wf v"
  shows "json_wf w"
proof -
  obtain v r where v: "parse_value n s = Some (Inr (v, r))" by (rule parse_array_Inr [OF res])
  have new: "json_wf (JArray (vs @ [v]))" by (rule json_wf_append [OF vs val [OF v]])
  show ?thesis
    by (rule parse_array_elem [OF v, of vs]) (use res arr [OF _ new, of _ w q] new in \<open>auto split: if_splits\<close>)
qed

lemma parse_object_wf_step:
  assumes res: "parse_object (Suc n) ms s = Some (Inr (w, q))" and ms: "json_wf (JObject ms)"
    and val: "\<And>s v r. parse_value n s = Some (Inr (v, r)) \<Longrightarrow> json_wf v"
    and obj: "\<And>ms s v r. parse_object n ms s = Some (Inr (v, r)) \<Longrightarrow> json_wf (JObject ms) \<Longrightarrow> json_wf v"
  shows "json_wf w"
proof -
  obtain k r r' v r'' where v: "peek s = quote_char" "parse_string (ws s) = Inr (k, r)"
    "consume (CHR 0x3A) r = (True, r')" "parse_value n r' = Some (Inr (v, r''))"
    by (rule parse_object_Inr [OF res])
  have new: "json_wf (JObject (assoc_put k v ms))" by (rule json_wf_put [OF ms val [OF v(4)]])
  show ?thesis
    by (rule parse_object_member [OF v, of ms]) (use res obj [OF _ new, of _ w q] new in \<open>auto split: if_splits\<close>)
qed

lemma parse_wf_all:
  "(\<forall>s v r. parse_value n s = Some (Inr (v, r)) \<longrightarrow> json_wf v)
   \<and> (\<forall>vs s v r. parse_array n vs s = Some (Inr (v, r)) \<longrightarrow> json_wf (JArray vs) \<longrightarrow> json_wf v)
   \<and> (\<forall>ms s v r. parse_object n ms s = Some (Inr (v, r)) \<longrightarrow> json_wf (JObject ms) \<longrightarrow> json_wf v)"
proof (induction n)
  case (Suc n)
  have "json_wf v" if "parse_value (Suc n) s = Some (Inr (v, r))" for s v r
    using that Suc parse_leaf_wf [of "peek s" "ws s" v r]
    by (fastforce simp: parse_value_step split: if_splits prod.splits)
  moreover have "json_wf v" if "parse_array (Suc n) vs s = Some (Inr (v, r))" "json_wf (JArray vs)" for vs s v r
    using that by (rule parse_array_wf_step) (use Suc in blast)+
  moreover have "json_wf v" if "parse_object (Suc n) ms s = Some (Inr (v, r))" "json_wf (JObject ms)" for ms s v r
    using that by (rule parse_object_wf_step) (use Suc in blast)+
  ultimately show ?case by blast
qed simp

lemmas parse_value_wf = parse_wf_all [THEN conjunct1, rule_format]



text \<open>
  The parser is not strict inside a literal: it skips white space between the letters, so that
  the text \<open>t r u e\<close> is read as \<open>true\<close>. After a complete value it is strict: anything but
  white space is an error.
\<close>

theorem literal_with_spaces:
  "json_parse ''t r u e'' = Inr (JBool True)
   \<and> json_parse ''true x'' = Inl (JsonError ''trailing garbage after JSON value'')"
  by code_simp

end
