(* ===== verification/Program_Args.thy ===== *)
theory Program_Args
  imports Json_Roundtrip
begin

text \<open>
  The conversions of the C++ library by which the programs under \<open>apps\<close> read numbers:
  \<open>std::stoul\<close> (with an \<open>unsigned long\<close> of 32 bits, as on Windows), \<open>std::stoull\<close> and \<open>std::stoi\<close>. All
  of them skip white space, take an optional sign and the longest run of digits, and ignore
  what follows; \<open>None\<close> is their exception. The lemmas say that they read back what
  \<open>std::to_string\<close> writes.
\<close>

section \<open>Conversions\<close>

definition is_space :: "char \<Rightarrow> bool" where
  "is_space c \<longleftrightarrow> c = CHR '' '' \<or> c = CHR 0x09 \<or> c = CHR 0x0A \<or> c = CHR 0x0B \<or> c = CHR 0x0C \<or> c = CHR 0x0D"

text \<open>The sign and the digits that a conversion uses.\<close>

definition scan_number :: "string \<Rightarrow> (bool \<times> nat) option" where
  "scan_number txt =
     (let s = dropWhile is_space txt;
          minus = (s \<noteq> [] \<and> hd s = CHR ''-'');
          s = (if s \<noteq> [] \<and> (hd s = CHR ''-'' \<or> hd s = CHR ''+'') then tl s else s);
          ds = takeWhile is_digit s
      in if ds = [] then None else Some (minus, digits_value ds))"

text \<open>The magnitude must fit; a minus sign negates modulo the width.\<close>

definition scan_unsigned :: "string \<Rightarrow> ('w::len) word option" where
  "scan_unsigned txt = Option.bind (scan_number txt) (\<lambda>(minus, n).
     if n \<ge> 2 ^ LENGTH('w) then None else Some (if minus then - of_nat n else of_nat n))"

definition stoul32 :: "string \<Rightarrow> u32 option" where
  "stoul32 = scan_unsigned"

definition stoull :: "string \<Rightarrow> u64 option" where
  "stoull = scan_unsigned"

definition stoi :: "string \<Rightarrow> int option" where
  "stoi txt = Option.bind (scan_number txt) (\<lambda>(minus, n).
     let i = (if minus then - int n else int n) in if - (2 ^ 31) \<le> i \<and> i < 2 ^ 31 then Some i else None)"

section \<open>Reading what was written\<close>

lemma digit_no_space: "is_digit c \<Longrightarrow> \<not> is_space c \<and> c \<noteq> CHR ''-'' \<and> c \<noteq> CHR ''+''"
  by (auto simp: is_space_def is_digit_def)

lemma scan_number_dec:
  assumes "rest = [] \<or> \<not> is_digit (hd rest)"
  shows "scan_number (dec_digits n @ rest) = Some (False, n)"
proof -
  obtain c t where d: "dec_digits n = c # t" "is_digit c" "\<forall>x\<in>set t. is_digit x" by (rule dec_digits_Cons)
  have "takeWhile is_digit (dec_digits n @ rest) = dec_digits n"
    using assms d by (cases rest) auto
  moreover have "dropWhile is_space (dec_digits n @ rest) = dec_digits n @ rest" "hd (dec_digits n @ rest) = c"
    using d digit_no_space by simp_all
  ultimately show ?thesis
    using digit_no_space [OF d(2)] by (simp add: scan_number_def Let_def digits_value_dec)
qed

lemma scan_unsigned_dec:
  assumes "rest = [] \<or> \<not> is_digit (hd rest)"
  shows "scan_unsigned (std_to_string (w :: 'w::len word) @ rest) = Some w"
proof -
  have "\<not> 2 ^ LENGTH('w) \<le> unat w" unfolding not_le by (rule unsigned_less)
  with scan_number_dec [OF assms, of "unat w"] show ?thesis by (simp add: scan_unsigned_def std_to_string_def)
qed

lemma stoi_dec: "n < 2 ^ 31 \<Longrightarrow> stoi (dec_digits n) = Some (int n)"
  using scan_number_dec [of "[]" n] by (simp add: stoi_def Let_def)

section \<open>Numbers of the programs\<close>

lemma digit_chars: "digit_char 0 = CHR ''0''" "digit_char 1 = CHR ''1''" "digit_char 2 = CHR ''2''" "digit_char 3 = CHR ''3''"
  "digit_char 4 = CHR ''4''" "digit_char 5 = CHR ''5''" "digit_char (Suc 0) = CHR ''1''"
  by code_simp+

lemma printed_numbers: "std_to_string (0x2000000 :: u64) = ''33554432''" "std_to_string (1 :: u64) = ''1''" "std_to_string (0 :: u64) = ''0''"
  by (simp_all add: std_to_string_def dec_digits.simps digit_chars)

end
