(* ===== verification/Worker_App.thy ===== *)
theory Worker_App
  imports Worker_Session Runtime_Report Program_Args
begin

text \<open>
  \<open>apps/worker/main.cpp\<close>: the worker process. It connects to a coordinator, registers, asks for the
  topology and then repeats: ask for a placement, reserve, work, release. Every step is
  written to a marker file. The peer at the other end of the connection has a state: for the
  bytes that were sent it delivers pieces of an answer and moves on. The theorems put the
  coordinator there.
\<close>

section \<open>Arguments\<close>

record WorkerOptions =
  wo_id :: u32
  wo_host :: string
  wo_port :: u16
  wo_footprint :: u64
  wo_iterations :: int
  wo_hold :: bool
  wo_release :: bool
  wo_marker :: string

definition default_worker_options :: WorkerOptions where
  "default_worker_options = \<lparr>wo_id = 1, wo_host = ''127.0.0.1'', wo_port = 0, wo_footprint = 32 * 1024 * 1024, wo_iterations = 1,
     wo_hold = False, wo_release = True, wo_marker = ''''\<rparr>"

text \<open>\<open>None\<close> is an exception of a conversion: it is thrown outside the handler of \<open>main\<close>.\<close>

fun worker_args :: "string list \<Rightarrow> WorkerOptions \<Rightarrow> WorkerOptions option" where
  "worker_args [] opts = Some opts"
| "worker_args (a # rest) opts =
     (if a = ''--id'' \<and> rest \<noteq> []
      then Option.bind (stoul32 (hd rest)) (\<lambda>n. worker_args (tl rest) (opts\<lparr>wo_id := n\<rparr>))
      else if a = ''--host'' \<and> rest \<noteq> [] then worker_args (tl rest) (opts\<lparr>wo_host := hd rest\<rparr>)
      else if a = ''--port'' \<and> rest \<noteq> []
      then Option.bind (stoul32 (hd rest)) (\<lambda>n. worker_args (tl rest) (opts\<lparr>wo_port := ucast n\<rparr>))
      else if a = ''--footprint'' \<and> rest \<noteq> []
      then Option.bind (stoull (hd rest)) (\<lambda>n. worker_args (tl rest) (opts\<lparr>wo_footprint := n\<rparr>))
      else if a = ''--iterations'' \<and> rest \<noteq> []
      then Option.bind (stoi (hd rest)) (\<lambda>n. worker_args (tl rest) (opts\<lparr>wo_iterations := n\<rparr>))
      else if a = ''--hold'' then worker_args rest (opts\<lparr>wo_hold := True\<rparr>)
      else if a = ''--no-release'' then worker_args rest (opts\<lparr>wo_release := False\<rparr>)
      else if a = ''--marker'' \<and> rest \<noteq> [] then worker_args (tl rest) (opts\<lparr>wo_marker := hd rest\<rparr>)
      else worker_args rest opts)"

section \<open>The work\<close>

text \<open>The buffer has one word more than the footprint holds; each word is filled and summed.\<close>

definition work_word :: "u64 \<Rightarrow> u64" where
  "work_word i = (i * 0x9E3779B97F4A7C15) XOR 0x12345678"

definition checksum_work :: "u64 \<Rightarrow> u64" where
  "checksum_work bytes = fold (\<lambda>i sum. sum + (work_word (of_nat i) XOR (of_nat i * 7))) [0..<unat (bytes div 8 + 1)] 0"

section \<open>The process\<close>

text \<open>
  The environment of a run: which calls of the connection succeed, the process identifier,
  whether the marker file can be opened, the exception of the allocation of the buffer, if
  there is one, and the peer. The state is the peer, the session, the text of the marker file
  and the output.
\<close>

type_synonym 'n peer = "'n \<Rightarrow> byte list \<Rightarrow> 'n \<times> byte list list"

record 'n WorkerEnv =
  we_connect :: ConnectEnv
  we_pid :: ProcessId
  we_marker :: bool
  we_alloc :: "u64 \<Rightarrow> exn option"
  we_peer :: "'n peer"

type_synonym 'n worker_state = "('n \<times> WorkerSession) \<times> string \<times> string"

definition marker :: "'n WorkerEnv \<Rightarrow> WorkerOptions \<Rightarrow> string list \<Rightarrow> 'n worker_state \<Rightarrow> 'n worker_state" where
  "marker env opts txt = (\<lambda>(s, mk, out). (s, if wo_marker opts = '''' \<or> \<not> we_marker env then mk else mk @ line txt, out))"

text \<open>A call of the session. The message that it sends is named again for the peer, which moves on
  with the bytes of its frame.\<close>

definition peer_after :: "'n peer \<Rightarrow> MsgType \<Rightarrow> byte list \<Rightarrow> 'n \<Rightarrow> 'n" where
  "peer_after peer ty payload n = (case encode_frame (msg_code ty) payload of Inl _ \<Rightarrow> n | Inr bs \<Rightarrow> fst (peer n bs))"

definition wk_call :: "'n WorkerEnv \<Rightarrow> MsgType \<Rightarrow> byte list \<Rightarrow> (network \<Rightarrow> WorkerSession \<Rightarrow> (WorkerSession, 'a) outcome) \<Rightarrow>
    ('a \<Rightarrow> 'n worker_state \<Rightarrow> ('n worker_state, 'c) outcome) \<Rightarrow> 'n worker_state \<Rightarrow> ('n worker_state, 'c) outcome" where
  "wk_call env ty payload call k = (\<lambda>((n, s), mk, out).
     let n' = peer_after (we_peer env) ty payload n in
     case call (\<lambda>bs. snd (we_peer env n bs)) s of
       (s, Inl e) \<Rightarrow> (((n', s), mk, out), Inl e)
     | (s, Inr x) \<Rightarrow> k x ((n', s), mk, out))"

definition worker_id :: "WorkerOptions \<Rightarrow> WorkerId" where
  "worker_id opts = Id (ucast (wo_id opts))"

definition worker_placement :: "WorkerOptions \<Rightarrow> RegisterInfo \<Rightarrow> PlacementWire" where
  "worker_placement opts reg = \<lparr>plw_worker = worker_id opts, plw_boot = ri_boot reg, plw_epoch = ri_epoch reg,
     plw_footprint = wo_footprint opts, plw_pref = Id 0, plw_required = Id 0, plw_has_required = False, plw_require_accel = False,
     plw_accel = Id 0, plw_cpu = 0, plw_allow_fallback = True, plw_revalidation = False\<rparr>"

definition placed_line :: "nat \<Rightarrow> PlacementOut \<Rightarrow> string list" where
  "placed_line i p = [''PLACED=iter='', dec_digits i, '' node='', std_to_string (po_out_node p), '' kind='', std_to_string (po_decision p),
     '' penalty='', std_to_string (po_penalty p), '' binding='', po_binding_constraint p]"

text \<open>One round; \<open>Inr (Some code)\<close> leaves \<open>main\<close> with this code.\<close>

definition worker_release :: "'n WorkerEnv \<Rightarrow> WorkerOptions \<Rightarrow> RegisterInfo \<Rightarrow> nat \<Rightarrow> u64 \<Rightarrow> 'n worker_state \<Rightarrow> ('n worker_state, nat option) outcome" where
  "worker_release env opts reg i res st =
     (if wo_release opts
      then wk_call env MT_ReleaseRequest (w_u64 (id_value (worker_id opts)) @ w_u64 (id_value (ri_boot reg)) @ w_u64 res)
        (\<lambda>net. send_release net (worker_id opts) (ri_boot reg) (Id res))
        (\<lambda>_ st. (marker env opts [''RELEASED=iter='', dec_digits i] st, Inr None)) st
      else (st, Inr None))"

definition worker_work :: "'n WorkerEnv \<Rightarrow> WorkerOptions \<Rightarrow> RegisterInfo \<Rightarrow> nat \<Rightarrow> u64 \<Rightarrow> 'n worker_state \<Rightarrow> ('n worker_state, nat option) outcome" where
  "worker_work env opts reg i res st =
     (let st = marker env opts [''RESERVED=iter='', dec_digits i, '' id='', std_to_string res] st in
      case we_alloc env (wo_footprint opts) of
        Some e \<Rightarrow> (st, Inl e)
      | None \<Rightarrow> worker_release env opts reg i res
          (marker env opts [''WORK=iter='', dec_digits i, '' checksum='', std_to_string (checksum_work (wo_footprint opts))] st))"

definition worker_round :: "'n WorkerEnv \<Rightarrow> WorkerOptions \<Rightarrow> RegisterInfo \<Rightarrow> nat \<Rightarrow> 'n worker_state \<Rightarrow> ('n worker_state, nat option) outcome" where
  "worker_round env opts reg i =
     wk_call env MT_PlacementRequest (w_placement (worker_placement opts reg)) (\<lambda>net. send_placement net (worker_placement opts reg)) (\<lambda>place st.
       let st = marker env opts (placed_line i place) st in
       if \<not> po_ok place then (marker env opts [''PLACE=failed '', ws_last_error_message (snd (fst st))] st, Inr (Some 4))
       else wk_call env MT_ReserveRequest (w_reserve (worker_id opts) (ri_boot reg) (Id (po_out_node place)) (wo_footprint opts) 2 (Id 0) False)
         (\<lambda>net. send_reserve net (worker_id opts) (ri_boot reg) (Id (po_out_node place)) (wo_footprint opts) 2 (Id 0) False)
         (\<lambda>rr st. worker_work env opts reg i (fst rr) st) st)"

fun worker_rounds :: "'n WorkerEnv \<Rightarrow> WorkerOptions \<Rightarrow> RegisterInfo \<Rightarrow> nat \<Rightarrow> nat \<Rightarrow> 'n worker_state \<Rightarrow> ('n worker_state, nat option) outcome" where
  "worker_rounds env opts reg i 0 st = (st, Inr None)"
| "worker_rounds env opts reg i (Suc n) st =
     (case worker_round env opts reg i st of
        (st, Inr None) \<Rightarrow> worker_rounds env opts reg (Suc i) n st
      | (st, r) \<Rightarrow> (st, r))"

definition discovered_line :: "DiscoverInfo \<Rightarrow> string list" where
  "discovered_line d = [''DISCOVER=nodes='', std_to_string (di_node_count d), '' groups='', std_to_string (di_groups d),
     '' processors='', std_to_string (di_processors d), '' single='', if di_single_node d then ''1'' else ''0'']"

definition worker_session :: "'n WorkerEnv \<Rightarrow> WorkerOptions \<Rightarrow> 'n worker_state \<Rightarrow> ('n worker_state, nat option) outcome" where
  "worker_session env opts = (\<lambda>((n, s), mk, out).
     case ws_connect (we_connect env) s of
       (s, False) \<Rightarrow> (marker env opts [''CONNECT=failed''] ((n, s), mk, out @ line [''nf-worker: connect failed'']), Inr (Some 2))
     | (s, True) \<Rightarrow>
         wk_call env MT_Register (w_u64 (id_value (worker_id opts)) @ w_u64 (id_value (we_pid env)))
           (\<lambda>net. send_register net (worker_id opts) (we_pid env)) (\<lambda>reg st.
           if \<not> id_valid (ri_boot reg) then (marker env opts [''REGISTER=failed''] st, Inr (Some 3))
           else wk_call env MT_DiscoverRequest [] send_discover (\<lambda>disc st.
             worker_rounds env opts reg 0 (nat (wo_iterations opts)) (marker env opts (discovered_line disc) st))
           (marker env opts [''BOOT='', id_to_string (ri_boot reg), '' epoch='', std_to_string (ri_epoch reg)] st))
         (marker env opts [''CONNECT=ok''] ((n, s), mk, out)))"

text \<open>How a run ends: with a code, in the endless loop of \<open>--hold\<close>, or by an exception that nothing
  catches. With it, the peer, the marker file and the output.\<close>

datatype worker_end = Exited nat | Held | Aborted

definition worker_main :: "'n WorkerEnv \<Rightarrow> string list \<Rightarrow> 'n \<Rightarrow> string \<Rightarrow> worker_end \<times> 'n \<times> string \<times> string" where
  "worker_main env args n mk =
     (case worker_args args default_worker_options of
        None \<Rightarrow> (Aborted, n, mk, '''')
      | Some opts \<Rightarrow>
          if wo_port opts = 0 then (Exited 1, n, mk, line [''nf-worker: --port is required''])
          else case worker_session env opts ((n, new_session), mk, '''') of
            (st, Inl e) \<Rightarrow> (case marker env opts [''ERROR='', what e] st of ((n, s), mk, out) \<Rightarrow> (Exited 5, n, mk, out))
          | (((n, s), mk, out), Inr (Some code)) \<Rightarrow> (Exited code, n, mk, out)
          | (st, Inr None) \<Rightarrow>
              (case marker env opts [''DONE=true''] st of
                 ((n, s), mk, out) \<Rightarrow>
                   (if wo_hold opts then Held else Exited 0, n, mk, out @ line [''nf-worker '', std_to_string (wo_id opts), '' done''])))"

end
