(* ===== verification/Worker_App_Safety.thy ===== *)
theory Worker_App_Safety
  imports Worker_App
begin

text \<open>
  The worker process of \<open>apps/worker/main.cpp\<close> at work with a coordinator: what each of its calls does
  to the coordinator, what one round leaves in the reservation store, and that a whole run, also
  when its connection is lost at the end, leaves the reservations as they were.
\<close>

section \<open>The coordinator as peer\<close>

text \<open>One connection of a coordinator that serves nobody else meanwhile. \<open>clock k\<close> is the time of its
  \<open>k\<close>-th request and \<open>pieces\<close> the way the transport cuts a reply; an exception that leaves the handler
  ends the connection.\<close>

definition coordinator_peer :: "'b Backend \<Rightarrow> (nat \<Rightarrow> u64) \<Rightarrow> (byte list \<Rightarrow> byte list list) \<Rightarrow> u64 \<Rightarrow> ('b Coordinator \<times> nat) peer" where
  "coordinator_peer be clock pieces conn = (\<lambda>(c, k) bs.
     case decode_one bs of
       Inr (Some (f, _)) \<Rightarrow>
         (case handle_frame be (clock k) conn f c of
            (c, Inr rep) \<Rightarrow> ((c, Suc k), pieces rep)
          | (c, Inl _) \<Rightarrow> ((c, Suc k), []))
     | _ \<Rightarrow> ((c, k), []))"

definition coordinator_net :: "'b Backend \<Rightarrow> (nat \<Rightarrow> u64) \<Rightarrow> (byte list \<Rightarrow> byte list list) \<Rightarrow> u64 \<Rightarrow> 'b Coordinator \<times> nat \<Rightarrow> network" where
  "coordinator_net be clock pieces conn n = (\<lambda>bs. snd (coordinator_peer be clock pieces conn n bs))"

definition ready_session :: "WorkerSession \<Rightarrow> bool" where
  "ready_session s \<longleftrightarrow> ws_connected s \<and> ws_decoder s = []"

definition refusal :: "Frame option \<Rightarrow> bool" where
  "refusal fo \<longleftrightarrow> (\<forall>f. fo = Some f \<longrightarrow> frame_type f = msg_code MT_Error)"

lemma peer_frame:
  assumes "length p \<le> kMaxPayloadLength"
  shows "coordinator_peer be clock pieces conn (c, k) (frame_bytes (request ty p)) =
    (case handle_frame be (clock k) conn (request ty p) c of
       (c, Inr rep) \<Rightarrow> ((c, Suc k), pieces rep)
     | (c, Inl _) \<Rightarrow> ((c, Suc k), []))"
  using decode_frame_bytes [of "request ty p" "[]"] assms by (simp add: coordinator_peer_def)

lemma peer_after_frame:
  assumes "length p \<le> kMaxPayloadLength"
  shows "peer_after (coordinator_peer be clock pieces conn) ty p (c, k) = (fst (dispatch be (clock k) conn (request ty p) c), Suc k)"
proof -
  have "encode_frame (msg_code ty) p = Inr (frame_bytes (request ty p))" using encode_frame_bytes [of "request ty p"] assms by simp
  then show ?thesis
    by (simp add: peer_after_def peer_frame [OF assms] handle_frame_def del: msg_code.simps split: prod.split sum.split)
qed

lemma exchange_silent:
  assumes "ready_session s" and "length p \<le> kMaxPayloadLength" and "net (frame_bytes (request ty p)) = []"
  shows "exchange net ty p s = (s, Inr None)"
proof -
  have "encode_frame (msg_code ty) p = Inr (frame_bytes (request ty p))" using encode_frame_bytes [of "request ty p"] assms(2) by simp
  moreover have "push [] [] = ([], Inr None)" by (simp add: push_def try_extract_def decode_one_def kFrameHeaderSize_def)
  moreover have "s\<lparr>ws_decoder := []\<rparr> = s" using assms(1) by (simp add: ready_session_def)
  ultimately show ?thesis using assms(1,3) by (simp add: exchange_def recv_frame_def ready_session_def del: msg_code.simps)
qed

lemma call_answered:
  assumes "ready_session s" and "length p \<le> kMaxPayloadLength" and "\<And>bs. concat (pieces bs) = bs"
    and d: "dispatch be (clock k) conn (request ty p) c = (c', reply m q)" and "length q \<le> kMaxPayloadLength" and "m \<noteq> MT_Error"
  shows "exchange (coordinator_net be clock pieces conn (c, k)) ty p s = (s, Inr (Some (request m q)))"
proof -
  have "reply m q = Inr (frame_bytes (request m q))" using assms(5) by (simp add: reply_request)
  then have h: "handle_frame be (clock k) conn (request ty p) c = (c', Inr (frame_bytes (request m q)))" by (simp add: handle_frame_def d)
  have "received (request m q) s = s" using assms(6) by (cases m) (simp_all add: received_def)
  then show ?thesis
    using exchange_reply [of s p "request m q" "coordinator_net be clock pieces conn (c, k)" ty] assms(1-3,5) h
    by (simp add: peer_frame ready_session_def coordinator_net_def)
qed

lemma call_refused:
  assumes "ready_session s" and "length p \<le> kMaxPayloadLength" and pieces: "\<And>bs. concat (pieces bs) = bs"
    and d: "dispatch be (clock k) conn (request ty p) c = (c', r)" and r: "(\<exists>e. r = Inl e) \<or> (\<exists>msg av. r = error_reply msg av)"
  obtains s' fo where "exchange (coordinator_net be clock pieces conn (c, k)) ty p s = (s', Inr fo)"
    and "ready_session s'" and "refusal fo"
proof -
  let ?net = "coordinator_net be clock pieces conn (c, k)"
  have "\<exists>msg av. handle_frame be (clock k) conn (request ty p) c = (c', error_reply msg av)"
  proof (cases r)
    case (Inr bs)
    then have "handle_frame be (clock k) conn (request ty p) c = (c', r)" by (simp add: handle_frame_def d)
    with r Inr show ?thesis by auto
  qed (auto simp: handle_frame_def d)
  then obtain msg av where h: "handle_frame be (clock k) conn (request ty p) c = (c', error_reply msg av)" by blast
  show thesis
  proof (cases "error_reply msg av")
    case (Inl e)
    then have "?net (frame_bytes (request ty p)) = []" using h by (simp add: coordinator_net_def peer_frame [OF assms(2)])
    then show thesis using exchange_silent [OF assms(1,2), of ?net ty] assms(1) that by (simp add: refusal_def)
  next
    case (Inr bs)
    then have "concat (?net (frame_bytes (request ty p))) = bs" using h pieces by (simp add: coordinator_net_def peer_frame [OF assms(2)])
    from exchange_error [OF _ _ assms(2) Inr, of s ?net ty, OF _ _ this] assms(1) that show thesis
      by (simp add: ready_session_def refusal_def)
  qed
qed

lemma reply_refused:
  assumes "refusal fo"
  shows "reply_with True x rd (s, Inr fo) = (s, Inr x)"
  using assms by (cases fo) (simp_all add: reply_with_def refusal_def)

section \<open>The calls of a worker\<close>

lemma rd_placement_wire: "rd_placement (w_placement p) = Inr (p, [])"
  using r_w_flag [of "plw_revalidation p" "[]"]
  by (simp add: rd_placement_def w_placement_def rd_bind_def r_w_words r_w_id r_w_flag)

lemma length_w_placement [simp]: "length (w_placement p) = 64"
  by (simp add: w_placement_def w_bool_def)

lemma rd_candidates: "length ks < 2 ^ 32 \<Longrightarrow>
    rd_many rd_candidate (unat (of_nat (length ks) :: u32)) (concat (map w_candidate ks) @ rest)
      = Inr (map (\<lambda>k. (id_value (cc_node k), qty_value (cc_total k))) ks, rest)"
proof -
  have flag: "r_u8 (w_bool b @ rest) = Inr (if b then 1 else 0, rest)" for b rest by (simp add: w_bool_def r_w_words)
  have "rd_many rd_candidate (length ks) (concat (map w_candidate ks) @ rest)
      = Inr (map (\<lambda>k. (id_value (cc_node k), qty_value (cc_total k))) ks, rest)" for rest
    by (induction ks) (simp_all add: rd_bind_def rd_candidate_def w_candidate_def r_w_words flag)
  then show "length ks < 2 ^ 32 \<Longrightarrow> ?thesis" by (simp add: unat_of_nat_u32)
qed

definition placement_out :: "PlacementDecision \<Rightarrow> PlacementOut" where
  "placement_out d = \<lparr>po_ok = True, po_decision = decision_code (pd_kind d), po_out_node = id_value (pd_selected_node d),
     po_penalty = qty_value (pd_expected_penalty d), po_locality = locality_code (pd_expected_locality_class d),
     po_binding_constraint = pd_binding_constraint d, po_reason = pd_reason d, po_would_change = pd_would_change d,
     po_candidate_count = of_nat (length (pd_ranked_candidates d)),
     po_candidates = map (\<lambda>k. (id_value (cc_node k), qty_value (cc_total k))) (pd_ranked_candidates d)\<rparr>"

lemma rd_decision:
  assumes "length (w_decision d) \<le> kMaxPayloadLength"
  shows "\<exists>rest. rd_placement_out (w_decision d) = Inr (placement_out d, rest)"
proof -
  have "length ks \<le> length (concat (map w_candidate ks))" for ks by (induction ks) (simp_all add: w_candidate_def)
  from this [of "pd_ranked_candidates d"]
  have "length (pd_binding_constraint d) \<le> kMaxPayloadLength" "length (pd_reason d) \<le> kMaxPayloadLength"
    "length (pd_would_change d) \<le> kMaxPayloadLength" "length (pd_ranked_candidates d) \<le> kMaxPayloadLength"
    using assms by (simp_all add: w_decision_def w_str_def w_bytes_def)
  moreover have "n < 2 ^ 32" if "n \<le> kMaxPayloadLength" for n using that by (simp add: kMaxPayloadLength_def)
  ultimately have "length (pd_binding_constraint d) < 2 ^ 32" "length (pd_reason d) < 2 ^ 32" "length (pd_would_change d) < 2 ^ 32"
    "length (pd_ranked_candidates d) < 2 ^ 32" by blast+
  then show ?thesis
    by (simp add: rd_placement_out_def w_decision_def rd_bind_def r_w_words r_w_str rd_candidates placement_out_def)
qed

lemma authorized_cases: "authorized c i boot msg (c, x) = (c, x) \<or> (\<exists>av. authorized c i boot msg (c, x) = (c, error_reply msg av))"
  by (auto simp: authorized_def split: prod.splits bool.splits)

lemma placement_dispatch: "dispatch be now conn (request MT_PlacementRequest (w_placement p)) c =
    (if plw_epoch p \<noteq> gen_value (rt_epoch (co_runtime c)) then (c, error_reply ''stale coordinator epoch'' AV_StaleEpoch)
     else authorized c (plw_worker p) (plw_boot p) ''stale placement authority''
       (c, rbind (rt_plan be (wire_request (co_runtime c) p) (co_runtime c)) (\<lambda>d. reply MT_PlacementReply (w_decision d))))"
  by (simp add: dispatch_def handle_placement_def parsed_def rd_placement_wire del: msg_code.simps)

lemma planned_reply:
  obtains e where "rbind m (\<lambda>d. reply ty (w d)) = Inl e"
  | d where "rbind m (\<lambda>d. reply ty (w d)) = reply ty (w d)" "length (w d) \<le> kMaxPayloadLength"
proof (cases m)
  case (Inr d)
  show thesis
  proof (cases "length (w d) \<le> kMaxPayloadLength")
    case False
    then obtain e where "reply ty (w d) = Inl e" by (simp add: reply_def encode_frame_def)
    with Inr that(1) show thesis by simp
  qed (use Inr that(2) in simp)
qed (use that(1) in simp)

lemma authorized_valid: "validate_boot (registry_of c) i boot \<Longrightarrow> authorized c i boot msg k = k"
  by (simp add: authorized_def validate_authority_iff)

lemma placement_call:
  assumes "ready_session s" and "\<And>bs. concat (pieces bs) = bs"
  shows "(\<exists>s' place. send_placement (coordinator_net be clock pieces conn (c, k)) p s = (s', Inr place) \<and> ready_session s')
    \<and> fst (dispatch be (clock k) conn (request MT_PlacementRequest (w_placement p)) c) = c"
proof -
  let ?f = "request MT_PlacementRequest (w_placement p)" and ?s = "co_runtime c"
  have small: "length (w_placement p) \<le> kMaxPayloadLength" by (simp add: kMaxPayloadLength_def)
  obtain r where dr: "dispatch be (clock k) conn ?f c = (c, r)"
    and r: "(\<exists>msg av. r = error_reply msg av) \<or> r = rbind (rt_plan be (wire_request ?s p) ?s) (\<lambda>d. reply MT_PlacementReply (w_decision d))"
    using authorized_cases [of c "plw_worker p" "plw_boot p" "''stale placement authority''"] placement_dispatch [of be "clock k" conn p c] by (metis (no_types, lifting))
  consider "(\<exists>e. r = Inl e) \<or> (\<exists>msg av. r = error_reply msg av)"
    | d where "r = reply MT_PlacementReply (w_decision d)" "length (w_decision d) \<le> kMaxPayloadLength"
    using r planned_reply [of "rt_plan be (wire_request ?s p) ?s" MT_PlacementReply w_decision] by metis
  then show ?thesis
  proof cases
    case 1
    obtain s' fo where "exchange (coordinator_net be clock pieces conn (c, k)) MT_PlacementRequest (w_placement p) s = (s', Inr fo)"
      "ready_session s'" "refusal fo"
      using call_refused [where clock = clock and k = k, OF assms(1) small assms(2) dr 1] by metis
    with dr show ?thesis by (simp add: send_placement_def reply_refused)
  next
    case (2 d)
    have "exchange (coordinator_net be clock pieces conn (c, k)) MT_PlacementRequest (w_placement p) s
        = (s, Inr (Some (request MT_PlacementReply (w_decision d))))"
      using call_answered [where clock = clock and k = k, OF assms(1) small assms(2) dr [unfolded 2(1)] 2(2)] by simp
    with dr rd_decision [OF 2(2)] assms(1) show ?thesis by (auto simp: send_placement_def reply_with_def)
  qed
qed

text \<open>The runtime plans for a request of a worker, and the reply fits into a frame.\<close>

definition plan_answered :: "'b Backend \<Rightarrow> PlacementWire \<Rightarrow> 'b Coordinator \<Rightarrow> bool" where
  "plan_answered be p c \<longleftrightarrow>
     (case rt_plan be (wire_request (co_runtime c) p) (co_runtime c) of Inl _ \<Rightarrow> False | Inr d \<Rightarrow> length (w_decision d) \<le> kMaxPayloadLength)"

lemma placement_answered:
  assumes "ready_session s" and "\<And>bs. concat (pieces bs) = bs" and "plan_answered be p c"
    and "plw_epoch p = gen_value (rt_epoch (co_runtime c))" and "validate_boot (registry_of c) (plw_worker p) (plw_boot p)"
  shows "\<exists>place. send_placement (coordinator_net be clock pieces conn (c, k)) p s = (s, Inr place) \<and> po_ok place"
proof -
  have small: "length (w_placement p) \<le> kMaxPayloadLength" by (simp add: kMaxPayloadLength_def)
  obtain d where d: "rt_plan be (wire_request (co_runtime c) p) (co_runtime c) = Inr d" "length (w_decision d) \<le> kMaxPayloadLength"
    using assms(3) by (auto simp: plan_answered_def split: sum.splits)
  have "dispatch be (clock k) conn (request MT_PlacementRequest (w_placement p)) c = (c, reply MT_PlacementReply (w_decision d))"
    using assms(4) authorized_valid [OF assms(5)] d(1) by (simp add: placement_dispatch)
  from call_answered [where clock = clock and k = k, OF assms(1) small assms(2) this d(2)] rd_decision [OF d(2)] show ?thesis
    by (auto simp: send_placement_def reply_with_def placement_out_def)
qed

lemma on_runtime_eq: "on_runtime out c k = (c\<lparr>co_runtime := fst out\<rparr>, case snd out of Inl e \<Rightarrow> Inl e | Inr x \<Rightarrow> k x)"
  by (cases out) (simp add: on_runtime_def split: sum.split)

lemma reserve_call:
  assumes "ready_session s" and "\<And>bs. concat (pieces bs) = bs" and "validate_boot (registry_of c) i boot"
    and rr: "rr = \<lparr>rq_node = node, rq_bytes = Quantity bytes, rq_cpu_slots = cpu, rq_accelerator = accel,
           rq_accelerator_capacity = accel_cap, rq_owner = invalid_id, rq_worker = i, rq_expected_generation = None\<rparr>"
  shows "\<exists>s'. send_reserve (coordinator_net be clock pieces conn (c, k)) i boot node bytes cpu accel accel_cap s =
      (s', Inr (case snd (rt_reserve rr (co_runtime c)) of Inr r \<Rightarrow> (id_value (rs_id r), gen_value (rs_generation r)) | Inl e \<Rightarrow> (0, 0)))
    \<and> ready_session s'"
    and "fst (dispatch be (clock k) conn (request MT_ReserveRequest (w_reserve i boot node bytes cpu accel accel_cap)) c)
      = c\<lparr>co_runtime := fst (rt_reserve rr (co_runtime c))\<rparr>"
proof -
  let ?p = "w_reserve i boot node bytes cpu accel accel_cap" and ?out = "rt_reserve rr (co_runtime c)"
  have small: "length ?p \<le> kMaxPayloadLength" by (simp add: kMaxPayloadLength_def)
  have d: "dispatch be (clock k) conn (request MT_ReserveRequest ?p) c = on_runtime ?out c
      (\<lambda>r. reply MT_ReserveReply (w_u64 (id_value (rs_id r)) @ w_u64 (gen_value (rs_generation r))))"
    using authorized_valid [OF assms(3)]
    by (simp add: dispatch_def handle_reserve_def parsed_def rd_reserve_wire rr del: msg_code.simps)
  then show "fst (dispatch be (clock k) conn (request MT_ReserveRequest ?p) c) = c\<lparr>co_runtime := fst ?out\<rparr>"
    by (simp add: on_runtime_eq)
  show "\<exists>s'. send_reserve (coordinator_net be clock pieces conn (c, k)) i boot node bytes cpu accel accel_cap s =
      (s', Inr (case snd ?out of Inr r \<Rightarrow> (id_value (rs_id r), gen_value (rs_generation r)) | Inl e \<Rightarrow> (0, 0))) \<and> ready_session s'"
  proof (cases "snd ?out")
    case (Inl e)
    then have dr: "dispatch be (clock k) conn (request MT_ReserveRequest ?p) c = (c\<lparr>co_runtime := fst ?out\<rparr>, Inl e)"
      by (simp add: d on_runtime_eq)
    obtain s' fo where "exchange (coordinator_net be clock pieces conn (c, k)) MT_ReserveRequest ?p s = (s', Inr fo)" "ready_session s'" "refusal fo"
      using call_refused [where clock = clock and k = k, OF assms(1) small assms(2) dr] by (metis sum.inject)
    with Inl show ?thesis by (simp add: send_reserve_def reply_refused)
  next
    case (Inr r)
    let ?q = "w_u64 (id_value (rs_id r)) @ w_u64 (gen_value (rs_generation r))"
    have dr: "dispatch be (clock k) conn (request MT_ReserveRequest ?p) c = (c\<lparr>co_runtime := fst ?out\<rparr>, reply MT_ReserveReply ?q)"
      using Inr by (simp add: d on_runtime_eq)
    have "exchange (coordinator_net be clock pieces conn (c, k)) MT_ReserveRequest ?p s = (s, Inr (Some (request MT_ReserveReply ?q)))"
      using call_answered [where clock = clock and k = k, OF assms(1) small assms(2) dr] by (simp add: kMaxPayloadLength_def)
    moreover have "rd_pair ?q = Inr ((id_value (rs_id r), gen_value (rs_generation r)), [])"
      using r_w_words(4) [of "gen_value (rs_generation r)" "[]"] by (simp add: rd_pair_def rd_bind_def r_w_words)
    ultimately show ?thesis using Inr assms(1) by (simp add: send_reserve_def reply_with_def)
  qed
qed

lemma release_call:
  assumes "ready_session s" and "\<And>bs. concat (pieces bs) = bs" and "validate_boot (registry_of c) i boot"
  shows "\<exists>s' ok. send_release (coordinator_net be clock pieces conn (c, k)) i boot (Id res) s = (s', Inr ok) \<and> ready_session s'"
    and "fst (dispatch be (clock k) conn (request MT_ReleaseRequest (w_u64 (id_value i) @ w_u64 (id_value boot) @ w_u64 res)) c)
      = c\<lparr>co_runtime := fst (release_reservation (Id res) (co_runtime c))\<rparr>"
proof -
  let ?p = "w_u64 (id_value i) @ w_u64 (id_value boot) @ w_u64 res" and ?out = "release_reservation (Id res) (co_runtime c)"
  have small: "length ?p \<le> kMaxPayloadLength" by (simp add: kMaxPayloadLength_def)
  have d: "dispatch be (clock k) conn (request MT_ReleaseRequest ?p) c = on_runtime ?out c (\<lambda>_. reply MT_ReleaseReply (w_u8 1))"
    using authorized_valid [OF assms(3)] r_id_u64(2)
    by (simp add: dispatch_def handle_release_def parsed_def rd_bind_def r_w_id r_id_u64 del: msg_code.simps)
  then show "fst (dispatch be (clock k) conn (request MT_ReleaseRequest ?p) c) = c\<lparr>co_runtime := fst ?out\<rparr>"
    by (simp add: on_runtime_eq)
  show "\<exists>s' ok. send_release (coordinator_net be clock pieces conn (c, k)) i boot (Id res) s = (s', Inr ok) \<and> ready_session s'"
  proof (cases "snd ?out")
    case (Inl e)
    then have dr: "dispatch be (clock k) conn (request MT_ReleaseRequest ?p) c = (c\<lparr>co_runtime := fst ?out\<rparr>, Inl e)"
      by (simp add: d on_runtime_eq)
    obtain s' fo where "exchange (coordinator_net be clock pieces conn (c, k)) MT_ReleaseRequest ?p s = (s', Inr fo)" "ready_session s'" "refusal fo"
      using call_refused [where clock = clock and k = k, OF assms(1) small assms(2) dr] by (metis sum.inject)
    moreover from this have "send_release (coordinator_net be clock pieces conn (c, k)) i boot (Id res) s = (s', Inr False)"
      by (simp add: send_release_def reply_refused)
    ultimately show ?thesis by blast
  next
    case (Inr x)
    then have dr: "dispatch be (clock k) conn (request MT_ReleaseRequest ?p) c = (c\<lparr>co_runtime := fst ?out\<rparr>, reply MT_ReleaseReply (w_u8 1))"
      by (simp add: d on_runtime_eq)
    have "exchange (coordinator_net be clock pieces conn (c, k)) MT_ReleaseRequest ?p s = (s, Inr (Some (request MT_ReleaseReply (w_u8 1))))"
      using call_answered [where clock = clock and k = k, OF assms(1) small assms(2) dr] by (simp add: kMaxPayloadLength_def)
    then have "send_release (coordinator_net be clock pieces conn (c, k)) i boot (Id res) s = (s, Inr True)"
      by (simp add: send_release_def reply_with_def)
    with assms(1) show ?thesis by blast
  qed
qed

lemma discover_call:
  assumes "ready_session s" and "\<And>bs. concat (pieces bs) = bs"
  shows "\<exists>info. send_discover (coordinator_net be clock pieces conn (c, k)) s = (s, Inr info)"
    and "fst (dispatch be (clock k) conn (request MT_DiscoverRequest []) c) = c"
proof -
  let ?t = "rt_topo (co_runtime c)"
  let ?q = "w_u32 (of_nat (length (ht_nodes ?t))) @ w_u32 (of_nat (length (ht_groups ?t))) @ w_u32 (of_nat (length (ht_processors ?t)))
    @ w_u64 (semantic_digest ?t) @ w_bool (is_single_node ?t)"
  have dr: "dispatch be (clock k) conn (request MT_DiscoverRequest []) c = (c, reply MT_DiscoverReply ?q)"
    by (simp add: dispatch_def handle_discover_def Let_def del: msg_code.simps)
  then show "fst (dispatch be (clock k) conn (request MT_DiscoverRequest []) c) = c" by simp
  have "exchange (coordinator_net be clock pieces conn (c, k)) MT_DiscoverRequest [] s = (s, Inr (Some (request MT_DiscoverReply ?q)))"
    using call_answered [where clock = clock and k = k, OF assms(1) _ assms(2) dr] by (simp add: kMaxPayloadLength_def w_bool_def)
  moreover have "\<exists>x. rd_discover_info ?q = Inr (x, [])"
    using r_w_flag [of "is_single_node ?t" "[]"] by (simp add: rd_discover_info_def rd_bind_def r_w_words)
  ultimately show "\<exists>info. send_discover (coordinator_net be clock pieces conn (c, k)) s = (s, Inr info)"
    by (auto simp: send_discover_def reply_with_def)
qed

text \<open>A worker was admitted over a connection: it lives with the next boot, the connection is tied to
  it, and nothing else has changed.\<close>

definition admitted :: "u64 \<Rightarrow> WorkerId \<Rightarrow> 'b Coordinator \<Rightarrow> 'b Coordinator \<Rightarrow> bool" where
  "admitted conn i c c' \<longleftrightarrow>
     (let boot = Id (wr_next_boot (registry_of c)) in
      \<exists>g w. c' = c\<lparr>co_runtime := (co_runtime c)\<lparr>rt_registry := g\<rparr>,
                   co_conns := om_insert conn \<lparr>cs_worker_id = i, cs_boot = boot, cs_is_worker = True\<rparr> (co_conns c)\<rparr>
      \<and> om_find (wr_workers g) i = Some w \<and> wk_alive w \<and> wk_boot_id w = boot
      \<and> (\<forall>j. j \<noteq> i \<longrightarrow> om_find (wr_workers g) j = om_find (wr_workers (registry_of c)) j)
      \<and> wr_next_boot g = wr_next_boot (registry_of c) + 1
      \<and> (wr_next_boot (registry_of c) \<noteq> - 1 \<longrightarrow> registry_step (registry_of c) g))"

lemma registration_admits:
  assumes "id_valid i"
  obtains g w where "registration i pid s = (s\<lparr>rt_registry := g\<rparr>, Inr w)" and "wk_boot_id w = Id (wr_next_boot (rt_registry s))"
    and "wk_alive w" and "om_find (wr_workers g) i = Some w" and "\<And>j. j \<noteq> i \<Longrightarrow> om_find (wr_workers g) j = om_find (wr_workers (rt_registry s)) j"
    and "wr_next_boot g = wr_next_boot (rt_registry s) + 1" and "wr_next_boot (rt_registry s) \<noteq> - 1 \<Longrightarrow> registry_step (rt_registry s) g"
proof (cases "om_find (wr_workers (rt_registry s)) i")
  case None
  let ?out = "register_worker i pid (rt_registry s)"
  show thesis using None assms registry_step.register [of "rt_registry s" i pid]
    by (intro that [of "fst ?out" "projr (snd ?out)"])
      (simp_all add: registration_def rt_register_worker_def register_worker_def rt_worker_def find_worker_def Let_def)
next
  case (Some old)
  let ?out = "restart_worker i pid (rt_registry s)"
  show thesis using Some assms registry_step.restart [of "rt_registry s" i pid]
    by (intro that [of "fst ?out" "projr (snd ?out)"])
      (simp_all add: registration_def rt_restart_worker_def restart_worker_def rt_worker_def find_worker_def next_incarnation_def Let_def)
qed

lemma register_call:
  assumes "ready_session s" and "\<And>bs. concat (pieces bs) = bs" and "id_valid i"
  obtains info where "send_register (coordinator_net be clock pieces conn (c, k)) i pid s = (s, Inr info)"
    and "ri_boot info = Id (wr_next_boot (registry_of c))" and "ri_epoch info = gen_value (rt_epoch (co_runtime c))"
    and "admitted conn i c (fst (dispatch be (clock k) conn (request MT_Register (w_u64 (id_value i) @ w_u64 (id_value pid))) c))"
proof -
  obtain g w where reg: "registration i pid (co_runtime c) = ((co_runtime c)\<lparr>rt_registry := g\<rparr>, Inr w)"
    and w: "wk_boot_id w = Id (wr_next_boot (registry_of c))" "wk_alive w" "om_find (wr_workers g) i = Some w"
      "\<And>j. j \<noteq> i \<Longrightarrow> om_find (wr_workers g) j = om_find (wr_workers (registry_of c)) j" "wr_next_boot g = wr_next_boot (registry_of c) + 1"
      "wr_next_boot (registry_of c) \<noteq> - 1 \<Longrightarrow> registry_step (registry_of c) g"
    by (rule registration_admits [OF assms(3)]) blast
  let ?r = "(co_runtime c)\<lparr>rt_registry := g\<rparr>"
  let ?c = "c\<lparr>co_runtime := ?r, co_conns := om_insert conn \<lparr>cs_worker_id = i, cs_boot = wk_boot_id w, cs_is_worker = True\<rparr> (co_conns c)\<rparr>"
  let ?p = "w_u64 (id_value i) @ w_u64 (id_value pid)"
  have dr: "dispatch be (clock k) conn (request MT_Register ?p) c = (?c, reply MT_RegisterAck (register_ack w ?r))"
    using assms(3) reg by (simp add: dispatch_def handle_register_def parsed_def rd_bind_def r_id_u64 del: msg_code.simps)
  have ex: "exchange (coordinator_net be clock pieces conn (c, k)) MT_Register ?p s = (s, Inr (Some (request MT_RegisterAck (register_ack w ?r))))"
    using call_answered [where clock = clock and k = k, OF assms(1) _ assms(2) dr] by (simp add: kMaxPayloadLength_def register_ack_def)
  have "admitted conn i c ?c" using w by (auto simp: admitted_def Let_def)
  then show thesis
    using that ex dr w(1) by (simp add: send_register_def reply_with_def rd_register_ack)
qed

lemma admitted_boot: "admitted conn i c c' \<Longrightarrow> validate_boot (registry_of c') i (Id (wr_next_boot (registry_of c)))"
  by (auto simp: admitted_def Let_def validate_boot_def)

lemma admitted_rest:
  assumes "admitted conn i c c'"
  shows "rt_reservations (co_runtime c') = rt_reservations (co_runtime c)" and "rt_epoch (co_runtime c') = rt_epoch (co_runtime c)"
  using assms by (auto simp: admitted_def Let_def)

section \<open>What a run leaves behind\<close>

text \<open>The same reservations are active and the same amounts are charged.\<close>

definition same_reservations :: "ReservationStore \<Rightarrow> ReservationStore \<Rightarrow> bool" where
  "same_reservations st st' \<longleftrightarrow>
     om_bal (sto_node_mem st') = om_bal (sto_node_mem st) \<and> om_bal (sto_node_slots st') = om_bal (sto_node_slots st)
     \<and> om_bal (sto_accel_mem st') = om_bal (sto_accel_mem st)
     \<and> (\<forall>i r. rs_active r \<longrightarrow> (om_find (sto_reservations st') i = Some r \<longleftrightarrow> om_find (sto_reservations st) i = Some r))"

lemma same_reservations_refl [simp]: "same_reservations st st"
  by (simp add: same_reservations_def)

lemma same_reservations_trans: "same_reservations st st' \<Longrightarrow> same_reservations st' st'' \<Longrightarrow> same_reservations st st''"
  by (simp add: same_reservations_def)

text \<open>A coordinator in which nothing else has changed.\<close>

definition served :: "'b Coordinator \<Rightarrow> 'b Coordinator \<Rightarrow> bool" where
  "served c c' \<longleftrightarrow> (\<exists>st. c' = c\<lparr>co_runtime := (co_runtime c)\<lparr>rt_reservations := st\<rparr>\<rparr> \<and> same_reservations (rt_reservations (co_runtime c)) st)"

lemma served_refl [simp]: "served c c"
  by (auto simp: served_def intro: exI [of _ "rt_reservations (co_runtime c)"])

lemma served_trans:
  assumes "served c c'" and "served c' c''"
  shows "served c c''"
proof -
  obtain st st' where "c' = c\<lparr>co_runtime := (co_runtime c)\<lparr>rt_reservations := st\<rparr>\<rparr>" "same_reservations (rt_reservations (co_runtime c)) st"
    "c'' = c'\<lparr>co_runtime := (co_runtime c')\<lparr>rt_reservations := st'\<rparr>\<rparr>" "same_reservations (rt_reservations (co_runtime c')) st'"
    using assms unfolding served_def by blast
  then have "c'' = c\<lparr>co_runtime := (co_runtime c)\<lparr>rt_reservations := st'\<rparr>\<rparr>" "same_reservations (rt_reservations (co_runtime c)) st'"
    by (auto intro: same_reservations_trans)
  then show ?thesis unfolding served_def by blast
qed

lemma served_parts:
  assumes "served c c'"
  shows "same_reservations (rt_reservations (co_runtime c)) (rt_reservations (co_runtime c'))" and "registry_of c' = registry_of c"
    and "rt_epoch (co_runtime c') = rt_epoch (co_runtime c)" and "co_conns c' = co_conns c"
  using assms by (auto simp: served_def)

text \<open>A worker gets its placements, as long as nothing but its own rounds happens.\<close>

definition plans :: "'b Backend \<Rightarrow> WorkerOptions \<Rightarrow> 'b Coordinator \<Rightarrow> bool" where
  "plans be opts c \<longleftrightarrow> (\<forall>c' reg. served c c' \<longrightarrow> plan_answered be (worker_placement opts reg) c')"

lemma plans_served: "plans be opts c \<Longrightarrow> served c c' \<Longrightarrow> plans be opts c'"
  using served_trans unfolding plans_def by blast

text \<open>A store in which \<open>n\<close> more rounds of a worker with the given footprint do not wrap.\<close>

definition worker_room :: "u64 \<Rightarrow> nat \<Rightarrow> ReservationStore \<Rightarrow> bool" where
  "worker_room footprint n st \<longleftrightarrow> store_inv st \<and> om_find (sto_reservations st) (Id 0) = None \<and> sto_next_id st \<noteq> 0
     \<and> unat (sto_next_id st) + n < 2 ^ 64
     \<and> (\<forall>node. om_bal (sto_node_mem st) node + unat footprint < 2 ^ 64 \<and> om_bal (sto_node_slots st) node + 2 < 2 ^ 32)
     \<and> om_bal (sto_accel_mem st) (Id 0) + unat footprint < 2 ^ 64"

definition worker_reserve :: "WorkerId \<Rightarrow> NumaNodeId \<Rightarrow> u64 \<Rightarrow> ReserveRequest" where
  "worker_reserve i node bytes = \<lparr>rq_node = node, rq_bytes = Quantity bytes, rq_cpu_slots = 2, rq_accelerator = Id 0,
     rq_accelerator_capacity = False, rq_owner = invalid_id, rq_worker = i, rq_expected_generation = None\<rparr>"

lemma room_fits: "worker_room footprint n st \<Longrightarrow> reserve_fits (worker_reserve i node footprint) st"
  by (simp add: worker_room_def reserve_fits_def worker_reserve_def)

lemma next_id_steps:
  assumes "unat (w :: u64) + 1 < 2 ^ 64"
  shows "w \<noteq> - 1" and "w + 1 \<noteq> 0" and "unat (w + 1) = Suc (unat w)"
proof -
  show u: "unat (w + 1) = Suc (unat w)" using assms by (simp add: unat_word_ariths)
  show "w + 1 \<noteq> 0" using u by auto
  then show "w \<noteq> - 1" by auto
qed

lemma reserve_granted_released:
  assumes room: "worker_room footprint (Suc n) st" and a: "reserve cap (worker_reserve i node footprint) st = (st', Inr r)"
  shows "rs_id r = Id (sto_next_id st) \<and> same_reservations st (fst (release (rs_id r) None st')) \<and> worker_room footprint n (fst (release (rs_id r) None st'))"
proof -
  let ?req = "worker_reserve i node footprint"
  from reserve_accepted [OF a] obtain gen where r: "r = granted ?req st gen" and st': "st' = after_reserve ?req gen st" by metis
  have inv: "store_inv st" and "unat (sto_next_id st) + 1 < 2 ^ 64" using room by (simp_all add: worker_room_def)
  note next_id = next_id_steps [OF this(2)]
  have inv': "store_inv st'" unfolding st' by (rule store_inv_reserve [OF inv room_fits [OF room] next_id(1)])
  have find: "om_find (sto_reservations st') (rs_id r) = Some r" "rs_active r" by (simp_all add: r st' after_reserve_def granted_def Let_def)
  have rel: "release (rs_id r) None st' = (after_release (rs_id r) r st', Inr ())" by (rule release_active [OF inv' find]) simp
  have fresh: "om_find (sto_reservations st) (rs_id r) = None"
  proof (cases "om_find (sto_reservations st) (rs_id r)")
    case (Some a)
    with inv have "id_value (rs_id r) < sto_next_id st" unfolding store_inv_def by blast
    then show ?thesis by (simp add: r granted_def)
  qed
  have bal: "om_bal (sto_node_mem st) node + unat footprint < 2 ^ 64" "om_bal (sto_node_slots st) node + 2 < 2 ^ 32"
    using room by (simp_all add: worker_room_def)
  have same: "same_reservations st (after_release (rs_id r) r st')"
    unfolding same_reservations_def
  proof (intro conjI allI impI)
    show "om_bal (sto_node_mem (after_release (rs_id r) r st')) = om_bal (sto_node_mem st)"
      using bal(1) by (auto simp: after_release_def st' after_reserve_def r granted_def worker_reserve_def Let_def om_bal_add om_bal_sub_drop)
    show "om_bal (sto_node_slots (after_release (rs_id r) r st')) = om_bal (sto_node_slots st)"
      using bal(2) by (auto simp: after_release_def st' after_reserve_def r granted_def worker_reserve_def Let_def om_bal_add om_bal_sub_drop)
    show "om_bal (sto_accel_mem (after_release (rs_id r) r st')) = om_bal (sto_accel_mem st)"
      by (simp add: after_release_def st' after_reserve_def r granted_def worker_reserve_def Let_def charge_accel_def)
    show "om_find (sto_reservations (after_release (rs_id r) r st')) j = Some v \<longleftrightarrow> om_find (sto_reservations st) j = Some v" if "rs_active v" for j v
      using that fresh by (auto simp: after_release_def st' after_reserve_def r granted_def Let_def)
  qed
  have "worker_room footprint n (after_release (rs_id r) r st')"
    using room same store_inv_release(1) [OF inv' find] next_id
    by (auto simp: worker_room_def same_reservations_def after_release_def st' after_reserve_def r granted_def Let_def)
  with same rel show ?thesis by (simp add: r granted_def)
qed

lemma reserve_refused_released:
  assumes room: "worker_room footprint (Suc n) st" and a: "reserve cap (worker_reserve i node footprint) st = (st', Inl e)"
  shows "same_reservations st (fst (release (Id 0) None st')) \<and> worker_room footprint n (fst (release (Id 0) None st'))"
proof -
  note ref = reserve_refused [OF a]
  have "unat (sto_next_id st) + 1 < 2 ^ 64" "sto_next_id st \<noteq> 0" using room by (simp_all add: worker_room_def)
  then have le: "sto_next_id st \<le> sto_next_id st'" "sto_next_id st' \<noteq> 0" "unat (sto_next_id st') \<le> Suc (unat (sto_next_id st))"
    using ref next_id_steps [of "sto_next_id st"] by (auto simp: word_le_nat_alt)
  have "om_find (sto_reservations st') (Id 0) = None" using room ref by (simp add: worker_room_def)
  then have "release (Id 0) None st' = (st', Inl (ReservationError (''release of unknown reservation '' @ id_to_string (Id 0 :: ReservationId))))"
    by (simp add: release_def)
  moreover have "same_reservations st st'" using ref by (simp add: same_reservations_def)
  moreover have "worker_room footprint n st'"
    using room ref le store_inv_refused [of st st'] by (auto simp: worker_room_def)
  ultimately show ?thesis by simp
qed

definition marker_text :: "'n WorkerEnv \<Rightarrow> WorkerOptions \<Rightarrow> string list \<Rightarrow> string" where
  "marker_text env opts txt = (if wo_marker opts = '''' \<or> \<not> we_marker env then '''' else line txt)"

lemma marker_eq: "marker env opts txt (x, mk, out) = (x, mk @ marker_text env opts txt, out)"
  by (simp add: marker_def marker_text_def)

definition working :: "WorkerId \<Rightarrow> WorkerBootId \<Rightarrow> u64 \<Rightarrow> nat \<Rightarrow> 'b Coordinator \<Rightarrow> WorkerSession \<Rightarrow> bool" where
  "working i boot footprint n c s \<longleftrightarrow>
     validate_boot (registry_of c) i boot \<and> worker_room footprint n (rt_reservations (co_runtime c)) \<and> ready_session s"

lemma working_fewer: "working i boot footprint (Suc n) c s \<Longrightarrow> working i boot footprint n c s"
  by (simp add: working_def worker_room_def)

lemma call_peer:
  assumes "we_peer env = coordinator_peer be clock pieces conn" and "length p \<le> kMaxPayloadLength"
    and "call (coordinator_net be clock pieces conn (c, k)) s = (s', Inr x)"
  shows "wk_call env ty p call kont (((c, k), s), mk, out) = kont x (((fst (dispatch be (clock k) conn (request ty p) c), Suc k), s'), mk, out)"
  using assms peer_after_frame [OF assms(2), of be clock pieces conn ty c k]
  by (simp add: wk_call_def coordinator_net_def)

text \<open>What the store is after the worker reserved and released what it was told it got.\<close>

lemma reserve_release_round:
  fixes c :: "'b Coordinator"
  assumes "working i boot footprint (Suc n) c s" and "ready_session s'"
    and c1: "c1 = c\<lparr>co_runtime := fst (rt_reserve (worker_reserve i node footprint) (co_runtime c))\<rparr>"
    and res: "res = fst (case snd (rt_reserve (worker_reserve i node footprint) (co_runtime c)) of
        Inr r \<Rightarrow> (id_value (rs_id r), gen_value (rs_generation r)) | Inl e \<Rightarrow> (0, 0))"
    and c2: "c2 = c1\<lparr>co_runtime := fst (release_reservation (Id res) (co_runtime c1))\<rparr>"
  shows "validate_boot (registry_of c1) i boot" and "working i boot footprint n c2 s'"
    and "served c c2"
proof -
  let ?cap = "node_capacity_provider (co_runtime c)" and ?st = "rt_reservations (co_runtime c)"
  obtain st' r where r: "reserve ?cap (worker_reserve i node footprint) ?st = (st', r)" by fastforce
  have c1': "co_runtime c1 = (co_runtime c)\<lparr>rt_reservations := st'\<rparr>" using r by (simp add: c1 rt_reserve_def)
  have c2': "co_runtime c2 = (co_runtime c)\<lparr>rt_reservations := fst (release (Id res) None st')\<rparr>"
    by (simp add: c2 c1' release_reservation_def split: prod.split)
  have room: "worker_room footprint (Suc n) ?st" and boot: "validate_boot (registry_of c) i boot" using assms(1) by (simp_all add: working_def)
  have "same_reservations ?st (fst (release (Id res) None st')) \<and> worker_room footprint n (fst (release (Id res) None st'))"
  proof (cases r)
    case (Inl e)
    then have "res = 0" using r by (simp add: res rt_reserve_def)
    with reserve_refused_released [OF room r [unfolded Inl]] show ?thesis by simp
  next
    case (Inr x)
    from reserve_granted_released [OF room r [unfolded Inr]] have "res = id_value (rs_id x)" using r Inr by (simp add: res rt_reserve_def)
    then have "rs_id x = Id res" by (cases "rs_id x") simp
    with reserve_granted_released [OF room r [unfolded Inr]] show ?thesis by metis
  qed
  moreover have "c2 = c\<lparr>co_runtime := (co_runtime c)\<lparr>rt_reservations := fst (release (Id res) None st')\<rparr>\<rparr>"
    using c2' by (simp add: c2 c1)
  ultimately show "working i boot footprint n c2 s'" "served c c2"
    using boot assms(2) by (auto simp: working_def served_def)
  show "validate_boot (registry_of c1) i boot" using boot c1' by simp
qed

lemma reserve_work_served:
  fixes c :: "'b Coordinator"
  assumes peer: "we_peer env = coordinator_peer be clock pieces conn" and whole: "\<And>bs. concat (pieces bs) = bs"
    and "wo_release opts" and "we_alloc env (wo_footprint opts) = None"
    and w: "working (worker_id opts) (ri_boot reg) (wo_footprint opts) (Suc n) c s"
  shows "\<exists>c' k' s' t. wk_call env MT_ReserveRequest (w_reserve (worker_id opts) (ri_boot reg) node (wo_footprint opts) 2 (Id 0) False)
      (\<lambda>net. send_reserve net (worker_id opts) (ri_boot reg) node (wo_footprint opts) 2 (Id 0) False)
      (\<lambda>rr st. worker_work env opts reg j (fst rr) st) (((c, k), s), mk, out) = ((((c', k'), s'), mk @ t, out), Inr None)
    \<and> working (worker_id opts) (ri_boot reg) (wo_footprint opts) n c' s'
    \<and> served c c'"
proof -
  let ?i = "worker_id opts" and ?boot = "ri_boot reg" and ?fp = "wo_footprint opts"
  let ?rr = "worker_reserve ?i node ?fp" and ?pay = "w_reserve ?i ?boot node ?fp 2 (Id 0) False"
  have small: "length ?pay \<le> kMaxPayloadLength" "length (w_u64 a @ w_u64 b @ w_u64 d) \<le> kMaxPayloadLength" for a b d
    by (simp_all add: kMaxPayloadLength_def)
  have boot: "validate_boot (registry_of c) ?i ?boot" and ready: "ready_session s" using w by (simp_all add: working_def)
  define rr where "rr = (case snd (rt_reserve ?rr (co_runtime c)) of
      Inr r \<Rightarrow> (id_value (rs_id r), gen_value (rs_generation r)) | Inl e \<Rightarrow> (0, 0))"
  define res where "res = fst rr"
  define c1 where "c1 = c\<lparr>co_runtime := fst (rt_reserve ?rr (co_runtime c))\<rparr>"
  define c2 where "c2 = c1\<lparr>co_runtime := fst (release_reservation (Id res) (co_runtime c1))\<rparr>"
  note after = reserve_release_round [OF w _ c1_def res_def [unfolded rr_def] c2_def]
  obtain s2 where r: "send_reserve (coordinator_net be clock pieces conn (c, k)) ?i ?boot node ?fp 2 (Id 0) False s = (s2, Inr rr)" "ready_session s2"
    using reserve_call(1) [OF ready whole boot worker_reserve_def] unfolding rr_def by blast
  have r1: "fst (dispatch be (clock k) conn (request MT_ReserveRequest ?pay) c) = c1"
    unfolding c1_def by (rule reserve_call(2) [OF ready whole boot worker_reserve_def])
  obtain s3 ok where
    l: "send_release (coordinator_net be clock pieces conn (c1, Suc k)) ?i ?boot (Id res) s2 = (s3, Inr ok)" "ready_session s3"
    using release_call(1) [OF r(2) whole after(1) [OF r(2)]] by blast
  have l1: "fst (dispatch be (clock (Suc k)) conn (request MT_ReleaseRequest (w_u64 (id_value ?i) @ w_u64 (id_value ?boot) @ w_u64 res)) c1) = c2"
    unfolding c2_def by (rule release_call(2) [OF r(2) whole after(1) [OF r(2)]])
  have "\<exists>t. worker_work env opts reg j res (((c1, Suc k), s2), mk, out) = ((((c2, Suc (Suc k)), s3), mk @ t, out), Inr None)"
    using assms(3,4) l1
    by (simp add: worker_work_def worker_release_def marker_eq
        call_peer [OF peer small(2), where call = "\<lambda>net. send_release net ?i ?boot (Id res)" and c = c1 and k = "Suc k", OF l(1)])
  then show ?thesis
    using r1 res_def after(2,3) [OF l(2)]
    by (auto simp: call_peer [OF peer small(1), where call = "\<lambda>net. send_reserve net ?i ?boot node ?fp 2 (Id 0) False" and c = c and k = k, OF r(1)])
qed

lemma round_served:
  fixes c :: "'b Coordinator"
  assumes peer: "we_peer env = coordinator_peer be clock pieces conn" and whole: "\<And>bs. concat (pieces bs) = bs"
    and "wo_release opts" and "we_alloc env (wo_footprint opts) = None"
    and w: "working (worker_id opts) (ri_boot reg) (wo_footprint opts) (Suc n) c s"
  obtains c' k' s' t code where
    "worker_round env opts reg j (((c, k), s), mk, out) = ((((c', k'), s'), mk @ t, out), Inr code)" and "code = None \<or> code = Some 4"
    and "working (worker_id opts) (ri_boot reg) (wo_footprint opts) n c' s'"
    and "served c c'"
    and "plans be opts c \<Longrightarrow> ri_epoch reg = gen_value (rt_epoch (co_runtime c)) \<Longrightarrow> code = None"
proof -
  let ?p = "worker_placement opts reg" and ?i = "worker_id opts" and ?boot = "ri_boot reg" and ?fp = "wo_footprint opts"
  have small: "length (w_placement p) \<le> kMaxPayloadLength" for p by (simp add: kMaxPayloadLength_def)
  have rs: "ready_session s" using w by (simp add: working_def)
  from placement_call [OF rs whole, of be clock conn c k ?p] obtain s1 place where
    p: "send_placement (coordinator_net be clock pieces conn (c, k)) ?p s = (s1, Inr place)" "ready_session s1"
      "fst (dispatch be (clock k) conn (request MT_PlacementRequest (w_placement ?p)) c) = c" by blast
  let ?t1 = "marker_text env opts (placed_line j place)" and ?t2 = "marker_text env opts [''PLACE=failed '', ws_last_error_message s1]"
  let ?pay = "w_reserve ?i ?boot (Id (po_out_node place)) ?fp 2 (Id 0) False"
  have round: "worker_round env opts reg j (((c, k), s), mk, out) =
     (if \<not> po_ok place then ((((c, Suc k), s1), mk @ ?t1 @ ?t2, out), Inr (Some 4))
      else wk_call env MT_ReserveRequest ?pay (\<lambda>net. send_reserve net ?i ?boot (Id (po_out_node place)) ?fp 2 (Id 0) False)
         (\<lambda>rr st. worker_work env opts reg j (fst rr) st) (((c, Suc k), s1), mk @ ?t1, out))"
    unfolding worker_round_def
    using p(3)
    by (simp add: Let_def marker_eq call_peer [OF peer small, where call = "\<lambda>net. send_placement net ?p" and c = c and k = k, OF p(1)])
  have w1: "working ?i ?boot ?fp (Suc n) c s1" using w p(2) by (simp add: working_def)
  have boot: "validate_boot (registry_of c) ?i ?boot" using w by (simp add: working_def)
  have placed: "po_ok place" if "plans be opts c" "ri_epoch reg = gen_value (rt_epoch (co_runtime c))"
  proof -
    have "plan_answered be ?p c" using that(1) served_refl unfolding plans_def by blast
    then have "\<exists>place. send_placement (coordinator_net be clock pieces conn (c, k)) ?p s = (s, Inr place) \<and> po_ok place"
      by (rule placement_answered [OF rs whole]) (use that(2) boot in \<open>simp_all add: worker_placement_def\<close>)
    with p(1) show ?thesis by simp
  qed
  show thesis
  proof (cases "po_ok place")
    case False
    then show thesis using that [of c "Suc k" s1 "?t1 @ ?t2" "Some 4"] round placed working_fewer [OF w1] by auto
  next
    case True
    with round reserve_work_served [OF peer whole assms(3,4) w1, of "Id (po_out_node place)" j "Suc k" "mk @ ?t1" out] that show thesis
      by (metis append.assoc)
  qed
qed

lemma unat_of_u32: "unat (ucast (w :: u32) :: u64) = unat w"
  using unat_lt_2p32 [of w] by (simp add: unsigned_ucast_eq take_bit_nat_eq_self del: unat_lt_2p32)

lemma room_fewer: "worker_room footprint (m + n) st \<Longrightarrow> worker_room footprint m st"
  by (simp add: worker_room_def)

lemma rounds_served:
  fixes c :: "'b Coordinator"
  assumes "we_peer env = coordinator_peer be clock pieces conn" and "\<And>bs. concat (pieces bs) = bs"
    and "wo_release opts" and "we_alloc env (wo_footprint opts) = None"
    and "working (worker_id opts) (ri_boot reg) (wo_footprint opts) (m + n) c s"
  shows "\<exists>c' k' s' t code. worker_rounds env opts reg j n (((c, k), s), mk, out) = ((((c', k'), s'), mk @ t, out), Inr code)
    \<and> (code = None \<or> code = Some 4) \<and> worker_room (wo_footprint opts) m (rt_reservations (co_runtime c'))
    \<and> served c c'
    \<and> (plans be opts c \<longrightarrow> ri_epoch reg = gen_value (rt_epoch (co_runtime c)) \<longrightarrow> code = None)"
  using assms(5)
proof (induction n arbitrary: j c k s mk)
  case 0
  then show ?case by (auto simp: working_def)
next
  case (Suc n)
  obtain c' k' s' t code where r:
    "worker_round env opts reg j (((c, k), s), mk, out) = ((((c', k'), s'), mk @ t, out), Inr code)" "code = None \<or> code = Some 4"
    "working (worker_id opts) (ri_boot reg) (wo_footprint opts) (m + n) c' s'"
    "served c c'" "plans be opts c \<Longrightarrow> ri_epoch reg = gen_value (rt_epoch (co_runtime c)) \<Longrightarrow> code = None"
    using round_served [OF assms(1-4) Suc.prems [unfolded add_Suc_right]] by blast
  show ?case
  proof (cases code)
    case None
    from Suc.IH [OF r(3), of "Suc j" k' "mk @ t"] obtain c2 k2 s2 t2 code2 where
      "worker_rounds env opts reg (Suc j) n (((c', k'), s'), mk @ t, out) = ((((c2, k2), s2), (mk @ t) @ t2, out), Inr code2)"
      "code2 = None \<or> code2 = Some 4" "worker_room (wo_footprint opts) m (rt_reservations (co_runtime c2))" "served c' c2"
      "plans be opts c' \<Longrightarrow> ri_epoch reg = gen_value (rt_epoch (co_runtime c')) \<Longrightarrow> code2 = None" by blast
    with None r(1) served_trans [OF r(4)] plans_served [OF _ r(4)] served_parts(3) [OF r(4)] show ?thesis by fastforce
  next
    case (Some a)
    moreover have "worker_room (wo_footprint opts) m (rt_reservations (co_runtime c'))" using r(3) room_fewer by (auto simp: working_def)
    ultimately show ?thesis using r by fastforce
  qed
qed

lemma lose_keeps_reservations: "rt_reservations (co_runtime (lose_connection conn c)) = rt_reservations (co_runtime c)"
  by (simp add: lose_connection_def mark_worker_dead_def Let_def split: option.split)

definition marker_head :: "'n WorkerEnv \<Rightarrow> WorkerOptions \<Rightarrow> WorkerBootId \<Rightarrow> u64 \<Rightarrow> string" where
  "marker_head env opts boot epoch = marker_text env opts [''CONNECT=ok'']
     @ marker_text env opts [''BOOT='', id_to_string boot, '' epoch='', std_to_string epoch]"

lemma session_served:
  fixes c :: "'b Coordinator"
  assumes peer: "we_peer env = coordinator_peer be clock pieces conn" and whole: "\<And>bs. concat (pieces bs) = bs"
    and "wo_release opts" and "we_alloc env (wo_footprint opts) = None" and "wo_id opts \<noteq> 0"
    and boots: "wr_next_boot (registry_of c) \<noteq> 0" and conn: "ws_connect (we_connect env) new_session = (s, True)" "ready_session s"
    and room: "worker_room (wo_footprint opts) (m + nat (wo_iterations opts)) (rt_reservations (co_runtime c))"
  shows "\<exists>c1 c' k' s' t code. worker_session env opts (((c, k), new_session), mk, [])
      = ((((c', k'), s'), mk @ marker_head env opts (Id (wr_next_boot (registry_of c))) (gen_value (rt_epoch (co_runtime c))) @ t, []), Inr code)
    \<and> (code = None \<or> code = Some 4) \<and> admitted conn (worker_id opts) c c1 \<and> served c1 c'
    \<and> worker_room (wo_footprint opts) m (rt_reservations (co_runtime c')) \<and> (plans be opts c1 \<longrightarrow> code = None)"
proof -
  let ?i = "worker_id opts"
  let ?c = "fst (dispatch be (clock k) conn (request MT_Register (w_u64 (id_value ?i) @ w_u64 (id_value (we_pid env)))) c)"
  have "ucast (wo_id opts) \<noteq> (0 :: u64)" using assms(5) unat_of_u32 [of "wo_id opts"] by (metis unat_eq_zero)
  then have id: "id_valid ?i" by (simp add: worker_id_def id_valid_def)
  obtain reg where reg: "send_register (coordinator_net be clock pieces conn (c, k)) ?i (we_pid env) s = (s, Inr reg)"
    "ri_boot reg = Id (wr_next_boot (registry_of c))" "ri_epoch reg = gen_value (rt_epoch (co_runtime c))" "admitted conn ?i c ?c"
    by (rule register_call [OF conn(2) whole id])
  obtain disc where disc: "send_discover (coordinator_net be clock pieces conn (?c, Suc k)) s = (s, Inr disc)"
    using discover_call(1) [OF conn(2) whole] by blast
  let ?mk = "mk @ marker_head env opts (ri_boot reg) (ri_epoch reg) @ marker_text env opts (discovered_line disc)"
  have small: "length (w_u64 a @ w_u64 b) \<le> kMaxPayloadLength" "length ([] :: byte list) \<le> kMaxPayloadLength" for a b by (simp_all add: kMaxPayloadLength_def)
  have run: "worker_session env opts (((c, k), new_session), mk, []) =
      worker_rounds env opts reg 0 (nat (wo_iterations opts)) (((?c, Suc (Suc k)), s), ?mk, [])"
    unfolding worker_session_def using conn(1) boots reg(2)
    by (simp add: id_valid_def discover_call(2) [OF conn(2) whole] marker_eq marker_head_def
        call_peer [OF peer small(1), where call = "\<lambda>net. send_register net ?i (we_pid env)" and c = c and k = k, OF reg(1)]
        call_peer [OF peer small(2), where call = send_discover and c = ?c and k = "Suc k", OF disc])
  have "working ?i (ri_boot reg) (wo_footprint opts) (m + nat (wo_iterations opts)) ?c s"
    using room conn(2) admitted_boot [OF reg(4)] by (simp add: working_def reg(2) admitted_rest(1) [OF reg(4)])
  from rounds_served [OF peer whole assms(3,4) this, of 0 "Suc (Suc k)" ?mk "[]"] obtain c' k' s' t code where
    r: "worker_rounds env opts reg 0 (nat (wo_iterations opts)) (((?c, Suc (Suc k)), s), ?mk, []) = ((((c', k'), s'), ?mk @ t, []), Inr code)"
    "code = None \<or> code = Some 4" "worker_room (wo_footprint opts) m (rt_reservations (co_runtime c'))" "served ?c c'"
    "plans be opts ?c \<Longrightarrow> ri_epoch reg = gen_value (rt_epoch (co_runtime ?c)) \<Longrightarrow> code = None" by blast
  have "worker_session env opts (((c, k), new_session), mk, [])
      = ((((c', k'), s'), mk @ marker_head env opts (ri_boot reg) (ri_epoch reg) @ marker_text env opts (discovered_line disc) @ t, []), Inr code)"
    using run r(1) by simp
  with r(2-5) reg(4) show ?thesis unfolding reg(2,3) admitted_rest(2) [OF reg(4)] by blast
qed


definition sample_served :: "SyntheticBackend Coordinator" where
  "sample_served = (new_coordinator (new_synthetic sample_config))\<lparr>co_runtime :=
     fst (rt_discover make_synthetic_backend (new_runtime (new_synthetic sample_config)))\<rparr>"

definition sample_worker_env :: "(SyntheticBackend Coordinator \<times> nat) WorkerEnv" where
  "sample_worker_env = \<lparr>we_connect = \<lparr>ce_startup = True, ce_socket = True, ce_connect = True\<rparr>, we_pid = Id 77, we_marker = True,
     we_alloc = (\<lambda>_. None), we_peer = coordinator_peer make_synthetic_backend of_nat (\<lambda>bs. [take 5 bs, drop 5 bs]) 2\<rparr>"

lemma sample_served_fresh:
  "rt_reservations (co_runtime sample_served) = empty_store" "rt_registry (co_runtime sample_served) = empty_registry"
  by (simp_all add: sample_served_def new_coordinator_def rt_discover_def new_runtime_def split: sum.split)

lemma sample_served_room: "worker_room 33554432 2 (rt_reservations (co_runtime sample_served))"
  using empty_store_inv by (simp add: sample_served_fresh worker_room_def empty_store_def om_bal_def)


text \<open>An exception of the buffer, or the end of the process, between the reservation and its release
  leaves the reservation: the coordinator is not asked for anything more, and the loss of the
  connection ends only the worker (lemma \<open>lose_keeps_reservations\<close>).\<close>

lemma failed_buffer_keeps_peer:
  assumes "we_alloc env (wo_footprint opts) = Some e"
  shows "\<exists>t. worker_work env opts reg i res ((n, s), mk, out) = (((n, s), mk @ t, out), Inl e)"
  using assms by (simp add: worker_work_def marker_eq)

end
