(* ===== verification/Recovery.thy ===== *)
theory Recovery
  imports Runtime_Safety
begin

text \<open>
  \<open>Runtime::persist\<close> followed by \<open>Runtime::recover\<close> in a new process: which part of the
  logical state survives. The file system and its failures are those of theory
  \<open>Persistence\<close>; the host of the new process reports the same topology.
\<close>

section \<open>Workers\<close>

lemma restore_all_workers:
  assumes "distinct (map wk_id ws)"
    and "\<forall>w\<in>set ws. id_valid (wk_id w) \<and> id_valid (wk_boot_id w) \<and> id_value (wk_boot_id w) \<noteq> - 1 \<and> om_find (wr_workers g) (wk_id w) = None"
  shows "\<exists>g'. restore_all restore_worker ws g = (g', Inr ())
    \<and> wr_workers g' = fold (\<lambda>w. om_insert (wk_id w) w) ws (wr_workers g)
    \<and> wr_next_boot g \<le> wr_next_boot g' \<and> (\<forall>w\<in>set ws. id_value (wk_boot_id w) < wr_next_boot g')"
  using assms
proof (induction ws arbitrary: g)
  case (Cons w ws)
  let ?n = "if id_value (wk_boot_id w) \<ge> wr_next_boot g then id_value (wk_boot_id w) + 1 else wr_next_boot g"
  let ?g = "g\<lparr>wr_next_boot := ?n, wr_workers := om_insert (wk_id w) w (wr_workers g)\<rparr>"
  have lt: "id_value (wk_boot_id w) < ?n" "wr_next_boot g \<le> ?n"
    using word_less_succ [of "id_value (wk_boot_id w)"] Cons.prems(2) by auto
  have "restore_worker w g = (?g, Inr True)" using Cons.prems(2) by (simp add: restore_worker_def)
  moreover have "\<forall>v\<in>set ws. id_valid (wk_id v) \<and> id_valid (wk_boot_id v) \<and> id_value (wk_boot_id v) \<noteq> - 1
      \<and> om_find (wr_workers ?g) (wk_id v) = None"
    using Cons.prems by (auto simp: image_iff)
  then obtain g' where "restore_all restore_worker ws ?g = (g', Inr ())"
    "wr_workers g' = fold (\<lambda>w. om_insert (wk_id w) w) ws (wr_workers ?g)"
    "wr_next_boot ?g \<le> wr_next_boot g'" "\<forall>w\<in>set ws. id_value (wk_boot_id w) < wr_next_boot g'"
    using Cons.IH [of ?g] Cons.prems(1) by auto
  ultimately show ?case using lt by (auto intro: less_le_trans order_trans)
qed simp

lemma om_find_fold_values:
  assumes "\<And>k v. om_find m k = Some v \<Longrightarrow> f (g v) = k"
  shows "om_find (fold (\<lambda>v. om_insert (f v) v) (map g (filter P (om_values m))) om_empty) k
    = (case om_find m k of Some v \<Rightarrow> if P v then Some (g v) else None | None \<Rightarrow> None)"
proof -
  let ?vs = "map g (filter P (om_values m))"
  have key: "f (g (snd e)) = fst e" if "e \<in> set (om_entries m)" for e
    using that assms [of "fst e" "snd e"] om.entries_iff [of "fst e" "snd e" m] by simp
  have "map f ?vs = map (\<lambda>e. f (g (snd e))) (filter (\<lambda>e. P (snd e)) (om_entries m))"
    by (simp add: om_values_def filter_map comp_def)
  also have "\<dots> = map fst (filter (\<lambda>e. P (snd e)) (om_entries m))" using key by simp
  finally have keys: "distinct (map f ?vs)"
    using ascending_distinct [OF om_entries_ascending, of m] by (simp add: distinct_map_filter)
  show ?thesis
  proof (cases "\<exists>v. om_find m k = Some v \<and> P v")
    case True
    then obtain v where v: "om_find m k = Some v" "P v" by blast
    then have "g v \<in> set ?vs" using om_values_set [of v m] by auto
    from om_find_fold_insert_distinct [OF keys this, of "\<lambda>v. v" om_empty] v assms [OF v(1)] show ?thesis by simp
  next
    case False
    have "k \<notin> f ` set ?vs" using False assms by (auto simp: om_values_set)
    from om_find_fold_insert_other [OF this, of "\<lambda>v. v" om_empty] False show ?thesis by (auto split: option.splits)
  qed
qed

section \<open>Reservations\<close>

definition bytes_on :: "NumaNodeId \<Rightarrow> Reservation list \<Rightarrow> nat" where
  "bytes_on n rs = sum_list (map (\<lambda>r. unat (qty_value (rs_bytes r))) (filter (\<lambda>r. rs_node r = n) rs))"

lemma restore_accepted:
  assumes "id_valid (rs_id r)" and "om_find (sto_reservations s) (rs_id r) = None" and "rs_active r"
    and "om_bal (sto_node_mem s) (rs_node r) + unat (qty_value (rs_bytes r)) < 2 ^ 64"
    and "\<And>f. cap = Some f \<Longrightarrow> qty_value (f (rs_node r)) \<noteq> 0 \<Longrightarrow>
      om_bal (sto_node_mem s) (rs_node r) + unat (qty_value (rs_bytes r)) \<le> unat (qty_value (f (rs_node r)))"
  shows "\<exists>s'. restore cap r s = (s', Inr True) \<and> sto_reservations s' = om_insert (rs_id r) r (sto_reservations s)
    \<and> om_bal (sto_node_mem s') = (om_bal (sto_node_mem s))(rs_node r := om_bal (sto_node_mem s) (rs_node r) + unat (qty_value (rs_bytes r)))"
proof -
  have "unat (om_get0 (sto_node_mem s) (rs_node r) + qty_value (rs_bytes r))
      = om_bal (sto_node_mem s) (rs_node r) + unat (qty_value (rs_bytes r))"
    using assms(4) by (simp add: om_bal_def unat_add_no_wrap)
  then have "\<not> over_node_capacity cap (rs_node r) (om_get0 (sto_node_mem s) (rs_node r) + qty_value (rs_bytes r))"
    using assms(5) by (auto simp: over_node_capacity_def Let_def word_less_nat_alt not_less split: option.splits)
  with assms(1-4) show ?thesis by (simp add: restore_def Let_def om_bal_add)
qed

lemma restore_all_reservations:
  assumes "distinct (map rs_id rs)"
    and "\<forall>r\<in>set rs. id_valid (rs_id r) \<and> rs_active r \<and> om_find (sto_reservations s) (rs_id r) = None"
    and "\<forall>n. om_bal (sto_node_mem s) n + bytes_on n rs < 2 ^ 64"
    and "\<forall>f n. cap = Some f \<longrightarrow> qty_value (f n) \<noteq> 0 \<longrightarrow> om_bal (sto_node_mem s) n + bytes_on n rs \<le> unat (qty_value (f n))"
  shows "\<exists>s'. restore_all (restore cap) rs s = (s', Inr ())
    \<and> sto_reservations s' = fold (\<lambda>r. om_insert (rs_id r) r) rs (sto_reservations s)
    \<and> (\<forall>n. om_bal (sto_node_mem s') n = om_bal (sto_node_mem s) n + bytes_on n rs)"
  using assms
proof (induction rs arbitrary: s)
  case Nil
  then show ?case by (simp add: bytes_on_def)
next
  case (Cons r rs)
  have head: "bytes_on n (r # rs) = (if rs_node r = n then unat (qty_value (rs_bytes r)) else 0) + bytes_on n rs" for n
    by (simp add: bytes_on_def)
  have "\<exists>s1. restore cap r s = (s1, Inr True) \<and> sto_reservations s1 = om_insert (rs_id r) r (sto_reservations s)
    \<and> om_bal (sto_node_mem s1) = (om_bal (sto_node_mem s))(rs_node r := om_bal (sto_node_mem s) (rs_node r) + unat (qty_value (rs_bytes r)))"
  proof (rule restore_accepted)
    show "om_bal (sto_node_mem s) (rs_node r) + unat (qty_value (rs_bytes r)) < 2 ^ 64"
      using Cons.prems(3) [rule_format, of "rs_node r"] by (simp add: head)
    fix f assume "cap = Some f" and "qty_value (f (rs_node r)) \<noteq> 0"
    then show "om_bal (sto_node_mem s) (rs_node r) + unat (qty_value (rs_bytes r)) \<le> unat (qty_value (f (rs_node r)))"
      using Cons.prems(4) [rule_format, of f "rs_node r"] by (simp add: head)
  qed (use Cons.prems(2) in auto)
  then obtain s1 where s1: "restore cap r s = (s1, Inr True)" "sto_reservations s1 = om_insert (rs_id r) r (sto_reservations s)"
    "om_bal (sto_node_mem s1) = (om_bal (sto_node_mem s))(rs_node r := om_bal (sto_node_mem s) (rs_node r) + unat (qty_value (rs_bytes r)))"
    by blast
  have bal: "om_bal (sto_node_mem s1) n + bytes_on n rs = om_bal (sto_node_mem s) n + bytes_on n (r # rs)" for n
    by (simp add: s1(3) head)
  have "\<forall>v\<in>set rs. id_valid (rs_id v) \<and> rs_active v \<and> om_find (sto_reservations s1) (rs_id v) = None"
    using Cons.prems(1,2) by (auto simp: s1(2) image_iff)
  from Cons.IH [OF _ this] Cons.prems(1,3,4) show ?case by (simp add: s1(1,2) bal)
qed

lemma restore_all_map: "restore_all f (map g xs) s = restore_all (\<lambda>x. f (g x)) xs s"
  by (induction xs arbitrary: s) (auto split: prod.splits sum.splits)

section \<open>Persist and recover\<close>

definition kept :: "Reservation \<Rightarrow> Reservation" where
  "kept r = r\<lparr>rs_owner := invalid_id, rs_worker := invalid_id, rs_created_ms := 0\<rparr>"

lemma recovered_persisted: "recovered (persisted_reservation r) = kept r"
  by (cases r) (simp add: recovered_def persisted_reservation_def kept_def)

lemma bytes_on_kept: "bytes_on n (map kept (filter rs_active (all_reservations s)))
    = sum_list (map (\<lambda>r. unat (qty_value (rs_bytes r))) (active_on n s))"
  by (simp add: bytes_on_def active_on_def filter_map comp_def kept_def conj_commute)

lemma recover_workers:
  assumes "registry_inv g"
  obtains g' where "restore_all (\<lambda>w. restore_worker (recovered_worker (persisted_worker w))) (all_workers g) empty_registry = (g', Inr ())"
    and "registry_inv g'" and "\<And>i boot. validate_boot g' i boot \<longleftrightarrow> validate_boot g i boot"
proof -
  let ?f = "\<lambda>w. recovered_worker (persisted_worker w)" and ?ws = "all_workers g"
  have same [simp]: "wk_id (?f w) = wk_id w" "wk_boot_id (?f w) = wk_boot_id w" "wk_alive (?f w) = wk_alive w" for w
    by (simp_all add: recovered_worker_def persisted_worker_def)
  have inv: "id_valid i \<and> wk_id w = i \<and> id_valid (wk_boot_id w) \<and> id_value (wk_boot_id w) < wr_next_boot g"
    if "om_find (wr_workers g) i = Some w" for i w using assms that unfolding registry_inv_def by blast
  have "distinct (map wk_id ?ws)"
  proof -
    have "map wk_id ?ws = map fst (om_entries (wr_workers g))"
      using inv by (auto simp: all_workers_def om_values_def om.entries_iff)
    then show ?thesis using ascending_distinct [OF om_entries_ascending] by metis
  qed
  moreover have "id_valid (wk_id w) \<and> id_valid (wk_boot_id w) \<and> id_value (wk_boot_id w) \<noteq> - 1" if "w \<in> set ?ws" for w
    using that inv by (fastforce simp: all_workers_def om_values_set)
  ultimately obtain g' where g': "restore_all restore_worker (map ?f ?ws) empty_registry = (g', Inr ())"
    "wr_workers g' = fold (\<lambda>w. om_insert (wk_id w) w) (map ?f ?ws) (wr_workers empty_registry)"
    "wr_next_boot empty_registry \<le> wr_next_boot g'" "\<forall>w\<in>set (map ?f ?ws). id_value (wk_boot_id w) < wr_next_boot g'"
    using restore_all_workers [of "map ?f ?ws" empty_registry] by (auto simp: comp_def empty_registry_def)
  have find: "om_find (wr_workers g') i = map_option ?f (om_find (wr_workers g) i)" for i
    using om_find_fold_values [of "wr_workers g" wk_id ?f "\<lambda>_. True" i] inv
    by (simp add: g'(2) empty_registry_def all_workers_def split: option.splits)
  show thesis
  proof (rule that)
    have "id_value (wk_boot_id w) < wr_next_boot g'" if "om_find (wr_workers g) i = Some w" for i w
      using g'(4) that by (auto simp: all_workers_def om_values_set)
    moreover have "i = j" if "om_find (wr_workers g) i = Some w" "om_find (wr_workers g) j = Some v" "wk_boot_id w = wk_boot_id v" for i j w v
      using assms that unfolding registry_inv_def by blast
    moreover have "0 < wr_next_boot g'" using g'(3) by (auto simp: empty_registry_def intro: less_le_trans [of 0 "1 :: u64"])
    ultimately show "registry_inv g'" using inv unfolding registry_inv_def find by auto
  qed (use g'(1) in \<open>simp_all add: restore_all_map validate_boot_def find split: option.splits\<close>)
qed

lemma recover_reservations:
  assumes "store_inv s" and "\<forall>r\<in>set (all_reservations s). rs_active r \<longrightarrow> id_valid (rs_id r)"
    and "\<forall>f n. cap = Some f \<longrightarrow> qty_value (f n) \<noteq> 0 \<longrightarrow> node_reserved_memory s n \<le> qty_value (f n)"
  obtains s' where "restore_all (restore cap) (map kept (filter rs_active (all_reservations s))) empty_store = (s', Inr ())"
    and "\<And>n. node_reserved_memory s' n = node_reserved_memory s n"
    and "\<And>i. get_reservation s' i = (case get_reservation s i of Some r \<Rightarrow> if rs_active r then Some (kept r) else None | None \<Rightarrow> None)"
proof -
  let ?rs = "map kept (filter rs_active (all_reservations s))"
  have id: "rs_id (kept r) = i" if "om_find (sto_reservations s) i = Some r" for i r
    using assms(1) that by (simp add: store_inv_def kept_def)
  have bytes: "bytes_on n ?rs = unat (node_reserved_memory s n)" for n
    using store_inv_counters(1) [OF assms(1), of n] by (simp add: bytes_on_kept)
  have "map rs_id ?rs = map fst (filter (\<lambda>e. rs_active (snd e)) (om_entries (sto_reservations s)))"
    using id by (auto simp: all_reservations_def om_values_def om.entries_iff filter_map comp_def)
  then have ids: "distinct (map rs_id ?rs)"
    using ascending_distinct [OF om_entries_ascending] by (metis distinct_map_filter)
  have start: "om_bal (sto_node_mem empty_store) n = 0" "om_find (sto_reservations empty_store) i = None" for n i
    by (simp_all add: om_bal_def empty_store_def)
  have "\<forall>r\<in>set ?rs. id_valid (rs_id r) \<and> rs_active r \<and> om_find (sto_reservations empty_store) (rs_id r) = None"
    using assms(2) by (auto simp: kept_def start)
  moreover have "\<forall>n. om_bal (sto_node_mem empty_store) n + bytes_on n ?rs < 2 ^ 64"
    using unsigned_less [of "node_reserved_memory s n" for n] by (simp only: bytes start) simp
  moreover have "\<forall>f n. cap = Some f \<longrightarrow> qty_value (f n) \<noteq> 0 \<longrightarrow>
      om_bal (sto_node_mem empty_store) n + bytes_on n ?rs \<le> unat (qty_value (f n))"
    using assms(3) by (simp only: bytes start add_0 word_le_nat_alt)
  ultimately obtain s' where s': "restore_all (restore cap) ?rs empty_store = (s', Inr ())"
    "sto_reservations s' = fold (\<lambda>r. om_insert (rs_id r) r) ?rs (sto_reservations empty_store)"
    "\<forall>n. om_bal (sto_node_mem s') n = om_bal (sto_node_mem empty_store) n + bytes_on n ?rs"
    using restore_all_reservations [OF ids, of empty_store cap] by blast
  show thesis
  proof (rule that [OF s'(1)])
    show "node_reserved_memory s' n = node_reserved_memory s n" for n
      using s'(3) bytes [of n] start(1) [of n] by (simp add: om_bal_def node_reserved_memory_def word_unat_eq_iff)
    show "get_reservation s' i = (case get_reservation s i of Some r \<Rightarrow> if rs_active r then Some (kept r) else None | None \<Rightarrow> None)" for i
      using om_find_fold_values [of "sto_reservations s" rs_id kept rs_active i] id
      by (simp add: get_reservation_def s'(2) empty_store_def all_reservations_def)
  qed
qed

lemma persist_load:
  assumes "persistable (persisted_state s)" and "persist env path s fs = (fs', Inr ())"
  shows "load path fs' = Inr (persisted_state s)"
proof -
  obtain bs where bs: "serialize (persisted_state s) = Inr bs" using serialize_total [OF assms(1)] by blast
  show ?thesis
    using assms(2) container_loads [OF assms(1) bs]
    by (auto simp: persist_def save_def bs Let_def load_def tmp_path_def split: if_splits write_outcome.splits)
qed

text \<open>What a recovery does not touch.\<close>

lemma recover_state_keeps:
  assumes "recover_state now st s = (s', Inr ())"
  shows "rt_topo s' = rt_topo s" and "rt_accelerators s' = rt_accelerators s" and "rt_backend s' = rt_backend s"
    and "st_reservations st = [] \<Longrightarrow> rt_reservations s' = rt_reservations s"
  using assms by (auto simp: recover_state_def Let_def split: prod.splits sum.splits)

text \<open>Recovery into any runtime that is still empty and sees the same host.\<close>

lemma persisted_recovers:
  assumes "registry_inv (rt_registry s)" and "store_inv (rt_reservations s)" and "persistable (persisted_state s)"
    and "persist env path s fs = (fs', Inr ())"
    and "\<forall>n f. node_capacity_provider s = Some f \<longrightarrow> qty_value (f n) \<noteq> 0 \<longrightarrow> node_reserved s n \<le> qty_value (f n)"
    and s0: "rt_registry s0 = empty_registry" "rt_reservations s0 = empty_store" "rt_topo s0 = rt_topo s"
  shows "\<exists>s'. recover now path fs' s0 = (s', Inr ())
    \<and> rt_epoch s' = rt_epoch s \<and> rt_policy_generation s' = rt_policy_generation s \<and> registry_inv (rt_registry s')
    \<and> (\<forall>i boot. validate_boot (rt_registry s') i boot \<longleftrightarrow> validate_boot (rt_registry s) i boot)
    \<and> (\<forall>i. get_reservation (rt_reservations s') i
         = (case get_reservation (rt_reservations s) i of Some r \<Rightarrow> if rs_active r then Some (kept r) else None | None \<Rightarrow> None))
    \<and> (\<forall>n. node_reserved s' n = node_reserved s n)"
proof -
  have rec: "recover now path fs' s0 = recover_state now (persisted_state s) s0"
    using persist_load [OF assms(3,4)] by (simp add: recover_def)
  have ids: "\<forall>r\<in>set (all_reservations (rt_reservations s)). rs_active r \<longrightarrow> id_valid (rs_id r)"
    using assms(3) by (auto simp: persistable_def persisted_state_def persisted_reservation_def)
  have fits: "\<forall>f n. node_capacity_provider s = Some f \<longrightarrow> qty_value (f n) \<noteq> 0 \<longrightarrow>
      node_reserved_memory (rt_reservations s) n \<le> qty_value (f n)"
    using assms(5) by (simp add: node_reserved_def)
  obtain r where r: "restore_all (restore (node_capacity_provider s)) (map kept (filter rs_active (all_reservations (rt_reservations s)))) empty_store = (r, Inr ())"
    "\<And>n. node_reserved_memory r n = node_reserved_memory (rt_reservations s) n"
    "\<And>i. get_reservation r i = (case get_reservation (rt_reservations s) i of Some r \<Rightarrow> if rs_active r then Some (kept r) else None | None \<Rightarrow> None)"
    by (rule recover_reservations [OF assms(2) ids fits]) blast
  obtain g where g: "restore_all (\<lambda>w. restore_worker (recovered_worker (persisted_worker w))) (all_workers (rt_registry s)) empty_registry = (g, Inr ())"
    "registry_inv g" "\<And>i boot. validate_boot g i boot \<longleftrightarrow> validate_boot (rt_registry s) i boot"
    using recover_workers [OF assms(1)] by metis
  have "restore_all (\<lambda>pw. restore_worker (recovered_worker pw)) (map persisted_worker (all_workers (rt_registry s))) empty_registry = (g, Inr ())"
    using g(1) by (simp add: restore_all_map)
  moreover have "restore_all (\<lambda>pr. restore (node_capacity_provider s) (recovered pr))
      (map persisted_reservation (filter rs_active (all_reservations (rt_reservations s)))) empty_store = (r, Inr ())"
    using r(1) by (simp add: restore_all_map recovered_persisted comp_def)
  ultimately show ?thesis unfolding rec
    by (simp add: node_capacity_provider_def recover_state_def Let_def persisted_state_def s0 g(2,3) r(2,3) node_reserved_def)
qed


lemma sample_runtime_reserved: "node_reserved (sample_runtime 4) n = (if n = Id 1 then 1024 else 0)"
proof -
  have e: "om_entries (sto_node_mem (rt_reservations (sample_runtime 4))) = [(Id 1, 1024)]" by code_simp
  have "om_find (sto_node_mem (rt_reservations (sample_runtime 4))) n = (if n = Id 1 then Some 1024 else None)"
    unfolding om.find_entries e by simp
  then show ?thesis by (simp add: node_reserved_def node_reserved_memory_def om_get0_def)
qed

lemma sample_runtime_capacity:
  "node_capacity_provider (sample_runtime 4) = Some f \<Longrightarrow> qty_value (f n) \<noteq> 0 \<Longrightarrow> node_reserved (sample_runtime 4) n \<le> qty_value (f n)"
proof -
  have "map_option (\<lambda>n. qty_value (nn_memory_capacity n)) (find_node (rt_topo (sample_runtime 4)) (Id 1)) = Some 8192" by code_simp
  then show "node_capacity_provider (sample_runtime 4) = Some f \<Longrightarrow> qty_value (f n) \<noteq> 0 \<Longrightarrow> node_reserved (sample_runtime 4) n \<le> qty_value (f n)"
    by (auto simp: node_capacity_provider_def sample_runtime_reserved)
qed


end
