(* ===== verification/Nf_Cli.thy ===== *)
theory Nf_Cli
  imports Runtime_Report Windows_Backend Program_Args
begin

text \<open>
  \<open>apps/nf/main.cpp\<close>: the command line. A run parses its arguments, creates a runtime, discovers the
  host and executes one command. Its result is the text on the standard output and the exit code;
  the files and the clock are arguments.
\<close>

section \<open>Arguments\<close>

record NfOptions =
  nf_backend :: string
  nf_nodes :: u32
  nf_procs :: u32
  nf_json :: bool
  nf_command :: string
  nf_path :: string

definition default_options :: NfOptions where
  "default_options = \<lparr>nf_backend = ''windows'', nf_nodes = 2, nf_procs = 8, nf_json = False, nf_command = '''', nf_path = ''''\<rparr>"

text \<open>\<open>None\<close> is an exception of \<open>std::stoul\<close>, which \<open>main\<close> does not catch here.\<close>

fun nf_args :: "string list \<Rightarrow> NfOptions \<Rightarrow> NfOptions option" where
  "nf_args [] opts = Some opts"
| "nf_args (a # rest) opts =
     (if a = ''--backend'' \<and> rest \<noteq> [] then nf_args (tl rest) (opts\<lparr>nf_backend := hd rest\<rparr>)
      else if a = ''--nodes'' \<and> rest \<noteq> []
      then Option.bind (stoul32 (hd rest)) (\<lambda>n. nf_args (tl rest) (opts\<lparr>nf_nodes := n\<rparr>))
      else if a = ''--procs'' \<and> rest \<noteq> []
      then Option.bind (stoul32 (hd rest)) (\<lambda>n. nf_args (tl rest) (opts\<lparr>nf_procs := n\<rparr>))
      else if a = ''--json'' then nf_args rest (opts\<lparr>nf_json := True\<rparr>)
      else if nf_command opts = '''' then nf_args rest (opts\<lparr>nf_command := a\<rparr>)
      else if nf_path opts = '''' then nf_args rest (opts\<lparr>nf_path := a\<rparr>)
      else nf_args rest opts)"

definition nf_options :: "string list \<Rightarrow> NfOptions option" where
  "nf_options args = map_option (\<lambda>opts. if nf_command opts = '''' then opts\<lparr>nf_command := ''summary''\<rparr> else opts)
     (nf_args args default_options)"

section \<open>Commands\<close>

text \<open>
  A command works on the runtime and the files, and what it printed stays printed when it
  throws. \<open>ne_clock n\<close> is what the clock shows when it is read for the \<open>n\<close>-th time. \<open>None\<close> is a run
  without defined behaviour: \<open>nodes.front()\<close> on a host without a node.
\<close>

record NfEnv =
  ne_clock :: "nat \<Rightarrow> u64"
  ne_save :: SaveEnv

type_synonym 'b nf_state = "('b Runtime \<times> files) \<times> string"
type_synonym 'b nf_outcome = "('b nf_state, unit) outcome option"

definition flag :: "bool \<Rightarrow> string" where
  "flag b = (if b then ''1'' else ''0'')"

definition print :: "string \<Rightarrow> 'b nf_state \<Rightarrow> 'b nf_state" where
  "print txt st = (fst st, snd st @ txt)"

definition finish :: "string \<Rightarrow> 'b nf_state \<Rightarrow> 'b nf_outcome" where
  "finish txt st = Some (print txt st, Inr ())"

definition nf_runtime :: "'b nf_state \<Rightarrow> 'b Runtime" where
  "nf_runtime st = fst (fst st)"

definition nf_call :: "('b Runtime \<Rightarrow> ('b Runtime, 'a) outcome) \<Rightarrow> ('a \<Rightarrow> 'b nf_state \<Rightarrow> 'b nf_outcome) \<Rightarrow> 'b nf_state \<Rightarrow> 'b nf_outcome" where
  "nf_call act k = (\<lambda>((s, fs), out).
     case act s of
        (s, Inl e) \<Rightarrow> Some (((s, fs), out), Inl e)
      | (s, Inr x) \<Rightarrow> k x ((s, fs), out))"

definition with_front :: "(NumaNodeId \<Rightarrow> 'b nf_state \<Rightarrow> 'b nf_outcome) \<Rightarrow> 'b nf_state \<Rightarrow> 'b nf_outcome" where
  "with_front k st = (case ht_nodes (rt_topo (nf_runtime st)) of [] \<Rightarrow> None | n # _ \<Rightarrow> k (nn_id n) st)"

definition cmd_summary :: "'b Backend \<Rightarrow> NfOptions \<Rightarrow> 'b nf_state \<Rightarrow> 'b nf_outcome" where
  "cmd_summary be opts st =
     (let s = nf_runtime st;
          tail = (if nf_command opts = ''snapshot'' then line [''snapshot digest: '', digest_hex (rt_snapshot s)] else [])
      in if nf_json opts
         then (case summary_json be s of Inl e \<Rightarrow> Some (st, Inl e) | Inr t \<Rightarrow> finish (line [t] @ tail) st)
         else finish (summary_text be s @ tail) st)"

definition nf_node_line :: "NumaNode \<Rightarrow> string" where
  "nf_node_line n = line
     [''node '', id_to_string (nn_id n), '': processors='', dec_digits (length (nn_processors n)),
      '' capacity='', std_to_string (qty_value (nn_memory_capacity n)),
      (if nn_memory_info_available n then '' free='' @ std_to_string (qty_value (nn_free_memory n)) else []),
      '' provenance='', provenance_to_string (prov_source (nn_provenance n))]"

definition cmd_nodes :: "'b nf_state \<Rightarrow> 'b nf_outcome" where
  "cmd_nodes st = finish (concat (map nf_node_line (ht_nodes (rt_topo (nf_runtime st))))) st"

definition group_line :: "ProcessorGroupInfo \<Rightarrow> string" where
  "group_line g = line [''group '', id_to_string (pg_id g), '' (index='', std_to_string (qty_value (pg_index g)), ''): '',
     dec_digits (length (pg_processors g)), '' processors'']"

definition processor_line :: "Processor \<Rightarrow> string" where
  "processor_line p = line [''  processor '', id_to_string (pr_id p), '' group='', id_to_string (pr_group p),
     '' index='', std_to_string (qty_value (pr_index_in_group p)), '' node='', id_to_string (pr_node p), '' online='', flag (pr_online p)]"

definition cmd_processors :: "'b nf_state \<Rightarrow> 'b nf_outcome" where
  "cmd_processors st = (let t = rt_topo (nf_runtime st) in
     finish (concat (map group_line (ht_groups t)) @ concat (map processor_line (ht_processors t))) st)"

definition device_line :: "AcceleratorInfo \<Rightarrow> string" where
  "device_line a = line [''accelerator '', id_to_string (ai_id a), '': vendor='', dd_vendor (ai_device a), '' name='', dd_name (ai_device a),
     '' locality='', locality_class_to_string (al_locality (ai_locality a)), '' node='', id_to_string (al_local_node (ai_locality a)),
     '' certain='', flag (al_node_is_certain (ai_locality a)), '' cuda='', flag (is_cuda a)]"

definition cmd_devices :: "'b nf_state \<Rightarrow> 'b nf_outcome" where
  "cmd_devices st = (let accs = rt_accelerators (nf_runtime st) in
     finish (concat (map device_line accs) @ (if accs = [] then line [''no accelerators enumerated by the active backend''] else [])) st)"

definition region_line :: "MemoryRegion \<Rightarrow> string" where
  "region_line r = line [''allocated region '', id_to_string (mr_id r), '' bytes='', std_to_string (qty_value (mr_granted_bytes r)),
     '' kind='', allocation_kind_to_string (mr_kind r), '' actual_node='', id_to_string (mr_actual_node r),
     '' locality_known='', flag (mr_locality_known r), '' state='', lifecycle_state_to_string (mr_state r)]"

definition released_line :: "MemoryRegionId \<Rightarrow> 'b Runtime \<Rightarrow> string" where
  "released_line i s = line [''released region '', id_to_string i, ''; allocated_bytes='', std_to_string (allocated_bytes s),
     '' clean='', flag (memory_accounting_clean s)]"

definition cmd_allocations :: "'b Backend \<Rightarrow> NfEnv \<Rightarrow> 'b nf_state \<Rightarrow> 'b nf_outcome" where
  "cmd_allocations be env = with_front (\<lambda>node.
     nf_call (allocate_on_node be (ne_clock env 0) (Quantity (16 * 1024 * 1024)) node AK_Host) (\<lambda>r st.
     nf_call (rt_release be (ne_clock env 1) (mr_id r)) (\<lambda>_ st.
       finish (released_line (mr_id r) (nf_runtime st)) st)
     (print (region_line r) st)))"

definition cmd_workers :: "'b Backend \<Rightarrow> 'b nf_state \<Rightarrow> 'b nf_outcome" where
  "cmd_workers be =
     nf_call (rt_register_worker (Id 1) (Id 1234)) (\<lambda>w st.
     with_front (\<lambda>node.
     nf_call (bind_worker be (wk_id w) (wk_boot_id w) node False) (\<lambda>b st.
     nf_call (rt_restart_worker (wk_id w) (Id 1234)) (\<lambda>w' st.
       finish (line [''restart -> new boot='', id_to_string (wk_boot_id w')]) st)
     (print (line [''bound worker '', id_to_string (wk_id w), '' to node '', id_to_string node, '' binding='', id_to_string (br_binding_id b),
                   '' gen='', std_to_string (gen_value (br_generation b)), '' applied='', flag (br_applied b)]) st)))
     (print (line [''registered worker '', id_to_string (wk_id w), '' boot='', id_to_string (wk_boot_id w),
                   '' incarnation='', std_to_string (wk_incarnation w)]) st))"

definition cli_placement :: "'b Runtime \<Rightarrow> PlacementRequest" where
  "cli_placement s =
     (let req = default_request\<lparr>pq_memory_footprint := Quantity (64 * 1024 * 1024), pq_workload_id := ''nf-cli''\<rparr>;
          ns = ht_nodes (rt_topo s)
      in if length ns \<ge> 2 then req\<lparr>pq_preferred_node := nn_id (ns ! 1)\<rparr> else req)"

definition cmd_placements :: "'b Backend \<Rightarrow> 'b nf_state \<Rightarrow> 'b nf_outcome" where
  "cmd_placements be st = (let s = nf_runtime st in
     case rt_plan be (cli_placement s) s of Inl e \<Rightarrow> Some (st, Inl e) | Inr d \<Rightarrow> finish (explanation_text d) st)"

definition cli_reserve :: "NumaNodeId \<Rightarrow> ReserveRequest" where
  "cli_reserve node = \<lparr>rq_node = node, rq_bytes = Quantity (32 * 1024 * 1024), rq_cpu_slots = 2, rq_accelerator = invalid_id,
     rq_accelerator_capacity = False, rq_owner = invalid_id, rq_worker = invalid_id, rq_expected_generation = None\<rparr>"

definition reserved_line :: "NumaNodeId \<Rightarrow> Reservation \<Rightarrow> 'b Runtime \<Rightarrow> string" where
  "reserved_line node r s = line [''reserved '', std_to_string (qty_value (rq_bytes (cli_reserve node))), '' bytes node='', id_to_string node,
     '' id='', id_to_string (rs_id r), '' gen='', std_to_string (gen_value (rs_generation r)), '' total='', std_to_string (reserved_bytes s)]"

definition unreserved_line :: "'b Runtime \<Rightarrow> string" where
  "unreserved_line s = line [''released; reserved_bytes='', std_to_string (reserved_bytes s), '' clean='', flag (reservations_clean s)]"

definition cmd_reservations :: "'b nf_state \<Rightarrow> 'b nf_outcome" where
  "cmd_reservations = with_front (\<lambda>node.
     nf_call (rt_reserve (cli_reserve node)) (\<lambda>r st.
     nf_call (release_reservation (rs_id r)) (\<lambda>_ st.
       finish (unreserved_line (nf_runtime st)) st)
     (print (reserved_line node r (nf_runtime st)) st)))"

definition cmd_diff :: "'b nf_state \<Rightarrow> 'b nf_outcome" where
  "cmd_diff st = (let a = rt_snapshot (nf_runtime st); b = rt_snapshot (nf_runtime st) in
     finish (line [''snapshot a digest='', digest_hex a] @ line [''snapshot b digest='', digest_hex b]
       @ line [''identical='', flag (fingerprints_match a (ts_host b))]) st)"

definition state_path :: "NfOptions \<Rightarrow> string" where
  "state_path opts = (if nf_path opts = '''' then ''numafabric.state'' else nf_path opts)"

definition cmd_save :: "NfEnv \<Rightarrow> NfOptions \<Rightarrow> 'b nf_state \<Rightarrow> 'b nf_outcome" where
  "cmd_save env opts = (\<lambda>((s, fs), out).
     case persist (ne_save env) (state_path opts) s fs of
       (fs, Inl e) \<Rightarrow> Some (((s, fs), out), Inl e)
     | (fs, Inr _) \<Rightarrow> finish (line [''saved authoritative state to '', state_path opts]) ((s, fs), out))"

definition cmd_load :: "NfEnv \<Rightarrow> NfOptions \<Rightarrow> 'b nf_state \<Rightarrow> 'b nf_outcome" where
  "cmd_load env opts st =
     nf_call (recover (ne_clock env 0) (state_path opts) (snd (fst st))) (\<lambda>_ st.
       finish (line [''recovered from '', state_path opts, ''; locality is marked stale until revalidated'']) st) st"

definition cmd_validate :: "'b nf_state \<Rightarrow> 'b nf_outcome" where
  "cmd_validate st = (let t = rt_topo (nf_runtime st) in
     case validate_topology t of
       Inl e \<Rightarrow> Some (st, Inl e)
     | Inr _ \<Rightarrow> finish (line [''topology validated: '', dec_digits (length (ht_nodes t)), '' nodes, '', dec_digits (length (ht_groups t)), '' groups, '',
         dec_digits (length (ht_processors t)), '' processors'']) st)"

text \<open>The snapshots of the benchmark change nothing; \<open>%.0f\<close> rounds to the nearest integer, ties to even.\<close>

definition cmd_bench :: "NfEnv \<Rightarrow> 'b nf_state \<Rightarrow> 'b nf_outcome" where
  "cmd_bench env st = (let d = ne_clock env 1 - ne_clock env 0 in
     finish (line [''1000 snapshot creations in '', std_to_string d, '' ns ('', dec_digits (nat (round_half_even (dbl_div (double_of_u64 d) 1000))), '' ns/op)'']) st)"

definition cmd_mask :: "'b nf_state \<Rightarrow> 'b nf_outcome" where
  "cmd_mask st =
     (case add_processor (Id 1) 0 [] of
        (_, Inl e) \<Rightarrow> Some (st, Inl e)
      | (a, Inr _) \<Rightarrow>
          (case add_processor (Id 1) 1 a of
             (_, Inl e) \<Rightarrow> Some (st, Inl e)
           | (a, Inr _) \<Rightarrow> finish (line [''affinity set: '', aff_to_string a, '' (count='', dec_digits (aff_count a), '')'']) st))"

section \<open>The program\<close>

definition usage :: string where
  "usage = line [''nf - NUMA Fabric''] @ line [''usage: nf [--backend windows|synthetic] [--nodes N] [--procs M] [--json] <command>'']
     @ line [''commands:''] @ line [''  discover  nodes  processors  devices  summary  allocations'']
     @ line [''  workers  placements  reservations  snapshot  diff''] @ line [''  save <path>  load <path>  validate  bench  mask'']"

text \<open>The result of a command is whether its name is known: \<open>Inr False\<close> is the last branch.\<close>

definition known :: "'b nf_outcome \<Rightarrow> ('b nf_state, bool) outcome option" where
  "known = map_option (\<lambda>(st, r). (st, map_sum id (\<lambda>_. True) r))"

definition nf_execute :: "'b Backend \<Rightarrow> NfEnv \<Rightarrow> NfOptions \<Rightarrow> 'b nf_state \<Rightarrow> ('b nf_state, bool) outcome option" where
  "nf_execute be env opts st =
     (let c = nf_command opts in
      if c = ''discover'' \<or> c = ''summary'' \<or> c = ''snapshot'' then known (cmd_summary be opts st)
      else if c = ''nodes'' then known (cmd_nodes st)
      else if c = ''processors'' then known (cmd_processors st)
      else if c = ''devices'' then known (cmd_devices st)
      else if c = ''allocations'' then known (cmd_allocations be env st)
      else if c = ''workers'' then known (cmd_workers be st)
      else if c = ''placements'' then known (cmd_placements be st)
      else if c = ''reservations'' then known (cmd_reservations st)
      else if c = ''diff'' then known (cmd_diff st)
      else if c = ''save'' then known (cmd_save env opts st)
      else if c = ''load'' then known (cmd_load env opts st)
      else if c = ''validate'' then known (cmd_validate st)
      else if c = ''bench'' then known (cmd_bench env st)
      else if c = ''mask'' then known (cmd_mask st)
      else if c = ''cuda-proof'' then known (finish (line [''error: cuda-proof requires a CUDA-enabled build'']) st)
      else Some (print usage st, Inr False))"

text \<open>\<open>main\<close> ends with an exit code, the text it printed and the files it left, or without a
  result: an exception outside its handlers terminates the process.\<close>

datatype nf_result = Exit nat string files | Terminated | Undefined

definition error_line :: "exn \<Rightarrow> string" where
  "error_line e = line [''error: '', what e]"

definition nf_run :: "'b Backend \<Rightarrow> 'b \<Rightarrow> NfEnv \<Rightarrow> NfOptions \<Rightarrow> files \<Rightarrow> nf_result" where
  "nf_run be b env opts fs =
     (case rt_discover be (new_runtime b) of
        (_, Inl e) \<Rightarrow> Exit 2 (error_line e) fs
      | (s, Inr _) \<Rightarrow>
          (case nf_execute be env opts ((refresh_accelerators be s, fs), '''') of
             None \<Rightarrow> Undefined
           | Some (((_, fs), out), Inl e) \<Rightarrow> Exit 3 (out @ error_line e) fs
           | Some (((_, fs), out), Inr found) \<Rightarrow> Exit (if found then 0 else 1) out fs))"

definition cli_config :: "u32 \<Rightarrow> u32 \<Rightarrow> SyntheticConfig" where
  "cli_config nodes procs = \<lparr>sc_node_count = nodes, sc_processors_per_node = procs, sc_group_capacity = 64, sc_expose_memory = True,
     sc_node_capacities = [], sc_distances = [], sc_local_thread_node = 0, sc_accelerators = [], sc_name = ''synthetic''\<rparr>"

definition nf_main :: "'o Win32 \<Rightarrow> 'o \<Rightarrow> NfEnv \<Rightarrow> string list \<Rightarrow> files \<Rightarrow> nf_result" where
  "nf_main os o0 env args fs =
     (case nf_options args of
        None \<Rightarrow> Terminated
      | Some opts \<Rightarrow>
          if nf_backend opts = ''synthetic''
          then nf_run make_synthetic_backend (new_synthetic (cli_config (nf_nodes opts) (nf_procs opts))) env opts fs
          else nf_run (make_windows_backend os) o0 env opts fs)"

section \<open>Exit codes\<close>

definition nf_commands :: "string list" where
  "nf_commands = [''discover'', ''summary'', ''snapshot'', ''nodes'', ''processors'', ''devices'', ''allocations'', ''workers'', ''placements'',
     ''reservations'', ''diff'', ''save'', ''load'', ''validate'', ''bench'', ''mask'', ''cuda-proof'']"

text \<open>A command leaves files with \<open>Q\<close>; only under \<open>D\<close> it may have no defined result.\<close>

definition leaves :: "(files \<Rightarrow> bool) \<Rightarrow> bool \<Rightarrow> ('b nf_state, 'a) outcome option \<Rightarrow> bool" where
  "leaves Q D r \<longleftrightarrow> (case r of None \<Rightarrow> D | Some (((s, fs), out), x) \<Rightarrow> Q fs)"

named_theorems leaves_intros

lemma leaves_finish [leaves_intros]: "Q (snd (fst st)) \<Longrightarrow> leaves Q D (finish txt st)"
  by (cases st) (auto simp: leaves_def finish_def print_def)

lemma leaves_throw [leaves_intros]: "Q (snd (fst st)) \<Longrightarrow> leaves Q D (Some (st, x))"
  by (cases st) (auto simp: leaves_def)

lemma print_simps [simp]: "fst (print txt st) = fst st" "nf_runtime (print txt st) = nf_runtime st"
  by (simp_all add: print_def nf_runtime_def)

lemma leaves_call [leaves_intros]:
  assumes "Q (snd (fst st))" and "\<And>x s. (act (nf_runtime st)) = (s, Inr x) \<Longrightarrow> leaves Q D (k x ((s, snd (fst st)), snd st))"
  shows "leaves Q D (nf_call act k st)"
proof -
  obtain s fs out where st: "st = ((s, fs), out)" by (metis prod.collapse)
  show ?thesis
  proof (cases "act s")
    case (Pair s' r)
    then show ?thesis using assms st by (cases r) (auto simp: nf_call_def leaves_def nf_runtime_def)
  qed
qed

lemma leaves_front [leaves_intros]:
  "(\<And>n ns. ht_nodes (rt_topo (nf_runtime st)) = n # ns \<Longrightarrow> leaves Q D (k (nn_id n) st)) \<Longrightarrow>
    (ht_nodes (rt_topo (nf_runtime st)) = [] \<Longrightarrow> D) \<Longrightarrow> leaves Q D (with_front k st)"
  by (auto simp: with_front_def leaves_def split: list.split)

lemma leaves_known [leaves_intros]: "leaves Q D r \<Longrightarrow> leaves Q D (known r)"
  by (auto simp: leaves_def known_def split: option.splits)

lemma register_topo: "rt_register_worker i pid s = (s', r) \<Longrightarrow> rt_topo s' = rt_topo s"
  by (auto simp: rt_register_worker_def Let_def split: prod.splits)

definition hostless :: "'b nf_state \<Rightarrow> bool" where
  "hostless st \<longleftrightarrow> ht_nodes (rt_topo (nf_runtime st)) = []"

lemma leaves_commands [leaves_intros]:
  assumes "Q (snd (fst st))"
  shows "leaves Q D (cmd_summary be opts st)" "leaves Q D (cmd_nodes st)" "leaves Q D (cmd_processors st)" "leaves Q D (cmd_devices st)"
    "leaves Q D (cmd_placements be st)" "leaves Q D (cmd_diff st)" "leaves Q D (cmd_load env opts st)" "leaves Q D (cmd_validate st)"
    "leaves Q D (cmd_bench env st)" "leaves Q D (cmd_mask st)"
  using assms
  by (auto simp: cmd_summary_def cmd_nodes_def cmd_processors_def cmd_devices_def cmd_placements_def cmd_diff_def cmd_load_def
      cmd_validate_def cmd_bench_def cmd_mask_def Let_def intro!: leaves_intros split: sum.split prod.split)

lemma leaves_front_commands [leaves_intros]:
  assumes "Q (snd (fst st))" and "hostless st \<Longrightarrow> D"
  shows "leaves Q D (cmd_allocations be env st)" "leaves Q D (cmd_workers be st)" "leaves Q D (cmd_reservations st)"
  using assms register_topo [of "Id 1" "Id 1234" "nf_runtime st"]
  by (auto simp: cmd_allocations_def cmd_workers_def cmd_reservations_def hostless_def nf_runtime_def intro!: leaves_intros)


lemma leaves_save [leaves_intros]:
  assumes "\<And>fs'. (\<And>p. p \<noteq> state_path opts \<Longrightarrow> p \<noteq> tmp_path (state_path opts) \<Longrightarrow> fs' p = snd (fst st) p) \<Longrightarrow> Q fs'"
  shows "leaves Q D (cmd_save env opts st)"
proof -
  obtain s fs out where st: "st = ((s, fs), out)" by (metis prod.collapse)
  obtain fs' r where p: "persist (ne_save env) (state_path opts) s fs = (fs', r)" by fastforce
  then have "fs' q = fs q" if "q \<noteq> state_path opts" "q \<noteq> tmp_path (state_path opts)" for q
    using that by (auto simp: persist_def save_def Let_def split: sum.splits if_splits write_outcome.splits)
  then have "Q fs'" using assms st by simp
  then show ?thesis using p st by (cases r) (auto simp: cmd_save_def leaves_def finish_def print_def)
qed

lemma leaves_if: "(P \<Longrightarrow> leaves Q D a) \<Longrightarrow> (\<not> P \<Longrightarrow> leaves Q D b) \<Longrightarrow> leaves Q D (if P then a else b)"
  by simp

definition saves :: "NfOptions \<Rightarrow> files \<Rightarrow> files \<Rightarrow> bool" where
  "saves opts fs fs' \<longleftrightarrow> (\<forall>p. fs' p \<noteq> fs p \<longrightarrow> nf_command opts = ''save'' \<and> (p = state_path opts \<or> p = tmp_path (state_path opts)))"

lemma leaves_execute:
  "leaves (saves opts (snd (fst st))) (hostless st \<and> nf_command opts \<in> {''allocations'', ''workers'', ''reservations''}) (nf_execute be env opts st)"
  unfolding nf_execute_def Let_def by (intro leaves_if leaves_intros) (auto simp: saves_def)

definition answers :: "bool \<Rightarrow> ('b nf_state, bool) outcome option \<Rightarrow> bool" where
  "answers k r \<longleftrightarrow> (case r of None \<Rightarrow> True | Some (st, Inl e) \<Rightarrow> k | Some (st, Inr found) \<Rightarrow> found = k)"

lemma answers_execute: "answers (nf_command opts \<in> set nf_commands) (nf_execute be env opts st)"
proof -
  have "answers True (map_option (\<lambda>(st, r). (st, map_sum id (\<lambda>_. True) r)) (Some (st, x)))" for st :: "'a nf_state" and x :: "unit result"
    by (cases x) (simp_all add: answers_def)
  then have k: "answers True (known r)" for r :: "'a nf_outcome" by (cases r) (auto simp: known_def answers_def)
  have i: "answers b (if P then x else y)" if "P \<Longrightarrow> b \<and> answers True x" "\<not> P \<Longrightarrow> answers b y" for P b and x y :: "('a nf_state, bool) outcome option"
    using that by auto
  show ?thesis unfolding nf_execute_def Let_def
    by (intro i conjI k) (auto simp: nf_commands_def answers_def)
qed


section \<open>Accounts after a command\<close>

lemma om_single: "om_erase k (om_insert k v om_empty) = om_empty" "om_values (om_insert k v om_empty) = [v]"
  "om_add k (x :: 'l::len word) om_empty = om_insert k x om_empty" "om_insert k w (om_insert k v m) = om_insert k w m"
  "om_values om_empty = []"
  by (auto intro: om_eqI simp: om_values_def om_insert.rep_eq om_empty.rep_eq om_add_def om_is_empty_iff)

lemma reserve_empty:
  assumes "id_valid node"
  shows "\<not> over_node_capacity cap node 0x2000000 \<Longrightarrow> reserve cap (cli_reserve node) empty_store =
      (after_reserve (cli_reserve node) (Generation 1) empty_store, Inr (granted (cli_reserve node) empty_store (Generation 1)))"
    and "over_node_capacity cap node 0x2000000 \<Longrightarrow> snd (reserve cap (cli_reserve node) empty_store) =
      Inl (ReservationError (''memory capacity oversubscription on node '' @ id_to_string node))"
  using assms
  by (simp_all add: reserve_def cli_reserve_def empty_store_def after_reserve_def granted_def Let_def gen_next_def gen_initial_def charge_accel_def)

lemma release_granted_empty:
  assumes "id_valid node"
  shows "\<exists>st. release (Id 1) None (after_reserve (cli_reserve node) (Generation 1) empty_store) = (st, Inr ())
    \<and> total_reserved_memory st = 0 \<and> accounting_clean st"
  using assms
  by (simp add: release_def after_reserve_def granted_def cli_reserve_def empty_store_def charge_accel_def debit_account_def Let_def om_single
      total_reserved_memory_def accounting_clean_def)

lemma granted_empty [simp]:
  "rs_id (granted (cli_reserve node) empty_store (Generation 1)) = Id 1" "rs_generation (granted (cli_reserve node) empty_store (Generation 1)) = Generation 1"
  "total_reserved_memory (after_reserve (cli_reserve node) (Generation 1) empty_store) = 0x2000000"
  by (simp_all add: granted_def after_reserve_def cli_reserve_def empty_store_def Let_def om_single total_reserved_memory_def)

lemma front_capacity:
  assumes "ht_nodes (rt_topo s) = n # ns"
  shows "over_node_capacity (node_capacity_provider s) (nn_id n) w \<longleftrightarrow> qty_value (nn_memory_capacity n) \<noteq> 0 \<and> qty_value (nn_memory_capacity n) < w"
  using assms by (simp add: over_node_capacity_def node_capacity_provider_def find_node_def Let_def)

lemma cmd_reservations_fresh:
  assumes "rt_reservations s = empty_store" and "ht_nodes (rt_topo s) = n # ns" and "id_valid (nn_id n)"
  shows "\<exists>s'. cmd_reservations ((s, fs), out) =
    (if qty_value (nn_memory_capacity n) = 0 \<or> 0x2000000 \<le> qty_value (nn_memory_capacity n)
     then Some (((s', fs), out @ line [''reserved 33554432 bytes node='', id_to_string (nn_id n), '' id=1 gen=1 total=33554432'']
                                @ line [''released; reserved_bytes=0 clean=1'']), Inr ())
     else Some (((s', fs), out), Inl (ReservationError (''memory capacity oversubscription on node '' @ id_to_string (nn_id n)))))"
proof -
  obtain st where rel: "release (Id 1) None (after_reserve (cli_reserve (nn_id n)) (Generation 1) empty_store) = (st, Inr ())"
    "total_reserved_memory st = 0" "accounting_clean st" using release_granted_empty [OF assms(3)] by blast
  show ?thesis
  proof (cases "qty_value (nn_memory_capacity n) = 0 \<or> 0x2000000 \<le> qty_value (nn_memory_capacity n)")
    case True
    then have "\<not> over_node_capacity (node_capacity_provider s) (nn_id n) 0x2000000" by (auto simp: front_capacity [OF assms(2)] not_less)
    from reserve_empty(1) [OF assms(3) this] have "reserve (node_capacity_provider s) (cli_reserve (nn_id n)) empty_store =
        (after_reserve (cli_reserve (nn_id n)) (Generation 1) empty_store, Inr (granted (cli_reserve (nn_id n)) empty_store (Generation 1)))" .
    moreover have "qty_value (rq_bytes (cli_reserve (nn_id n))) = 0x2000000" by (simp add: cli_reserve_def)
    ultimately show ?thesis
      using True rel assms by (simp add: cmd_reservations_def with_front_def nf_runtime_def nf_call_def rt_reserve_def release_reservation_def
          reserved_line_def unreserved_line_def reserved_bytes_def reservations_clean_def finish_def print_def line_def flag_def printed_numbers id_to_string_def)
  next
    case False
    then have "over_node_capacity (node_capacity_provider s) (nn_id n) 0x2000000" by (auto simp: front_capacity [OF assms(2)] not_less)
    from reserve_empty(2) [OF assms(3) this] show ?thesis
      using False assms by (auto simp: cmd_reservations_def with_front_def nf_runtime_def nf_call_def rt_reserve_def split: prod.split)
  qed
qed

lemma printed_id: "id_to_string (Id 1) = ''1''"
  by (simp add: id_to_string_def printed_numbers)

definition cli_allocate :: "NumaNodeId \<Rightarrow> AllocateRequest" where
  "cli_allocate node = default_allocate\<lparr>aq_bytes := Quantity 0x1000000, aq_mode := PM_PreferredNode,
     aq_preferred_node := node, aq_intended_node := node, aq_kind := AK_Host, aq_touch := True, aq_alignment := Quantity (64 * 1024)\<rparr>"

definition cli_region_line :: "string \<Rightarrow> Bytes \<Rightarrow> AllocationKind \<Rightarrow> NumaNodeId \<Rightarrow> bool \<Rightarrow> string" where
  "cli_region_line state bytes kind node loc_known = line [''allocated region 1 bytes='', std_to_string (qty_value bytes),
     '' kind='', allocation_kind_to_string kind, '' actual_node='', id_to_string node,
     '' locality_known='', flag loc_known, '' state='', state]"

lemma record_release_empty:
  obtains m r where "record_allocation now req (Some res) empty_manager = (m, Inr r)" and "r = allocated_region req res (new_region req (Id 1) (Generation 1) now)"
    and "\<exists>m'. release_region now' (Id 1) None m = (m', Inr res) \<and> total_allocated m' = 0 \<and> mm_accounting_clean m'"
proof -
  let ?r = "allocated_region req res (new_region req (Id 1) (Generation 1) now)"
  obtain m where m: "record_allocation now req (Some res) empty_manager = (m, Inr ?r)"
    by (simp add: record_allocation_def empty_manager_def gen_next_def gen_initial_def Let_def)
  have "\<exists>m'. release_region now' (Id 1) None m = (m', Inr res) \<and> total_allocated m' = 0 \<and> mm_accounting_clean m'"
    using m
    by (auto simp: record_allocation_def empty_manager_def gen_next_def gen_initial_def Let_def release_region_def
       allocated_region_def new_region_def is_released_def released_state_def choose_observed_node_def add_node_usage_def sub_node_usage_def om_single
       total_allocated_def mm_accounting_clean_def is_live_def split: if_splits)
  with m that show thesis by blast
qed

lemma allocate_on_node_cli: "allocate_on_node be now (Quantity 0x1000000) node AK_Host = rt_allocate be now (cli_allocate node)"
  by (simp add: allocate_on_node_def cli_allocate_def)

lemma cmd_allocations_fresh:
  assumes "rt_memory s = empty_manager" and "ht_nodes (rt_topo s) = n # ns"
    and a: "be_allocate be (spec_of_request (cli_allocate (nn_id n))) (rt_backend s) = (b', result)"
  shows "\<exists>s'. cmd_allocations be env ((s, fs), out) =
    (case result of
       Inr res \<Rightarrow> Some (((s', fs), out @ cli_region_line ''ACTIVE'' (ar_granted_bytes res) (ar_kind res) (ar_observed_node res) (ar_locality_known res)
         @ line [''released region 1; allocated_bytes=0 clean=1'']), Inr ())
     | Inl (BackendError m) \<Rightarrow> Some (((s', fs), out @ cli_region_line ''FAILED'' qty_zero AK_Host invalid_id False),
         Inl (InvalidTransitionError ''double release of region 1''))
     | Inl e \<Rightarrow> Some (((s', fs), out), Inl e))"
proof -
  let ?q = "cli_allocate (nn_id n)" and ?now = "ne_clock env 0"
  note cmd = cmd_allocations_def with_front_def nf_runtime_def nf_call_def allocate_on_node_cli finish_def print_def
  note mem = rt_allocate_def rt_release_def on_memory_def mm_allocate_def mm_release_def
  have nz: "\<not> qty_is_zero (aq_bytes ?q)" by (simp add: cli_allocate_def qty_is_zero_def)
  show ?thesis
  proof (cases result)
    case (Inr res)
    obtain m r where m: "record_allocation ?now ?q (Some res) empty_manager = (m, Inr r)"
      and r: "r = allocated_region ?q res (new_region ?q (Id 1) (Generation 1) ?now)"
      and "\<exists>m'. release_region (ne_clock env 1) (Id 1) None m = (m', Inr res) \<and> total_allocated m' = 0 \<and> mm_accounting_clean m'"
      by (rule record_release_empty)
    then obtain m' where m': "release_region (ne_clock env 1) (Id 1) None m = (m', Inr res)" "total_allocated m' = 0" "mm_accounting_clean m'" by blast
    let ?s = "s\<lparr>rt_backend := b', rt_memory := m\<rparr>" and ?t = "s\<lparr>rt_backend := be_free be res b', rt_memory := m'\<rparr>"
    have rs: "mr_id r = Id 1" "mr_state r = LS_Active" "mr_granted_bytes r = ar_granted_bytes res" "mr_kind r = ar_kind res"
      "mr_actual_node r = ar_observed_node res" "mr_locality_known r = ar_locality_known res"
      by (simp_all add: r allocated_region_def new_region_def cli_allocate_def)
    have "rt_allocate be ?now ?q s = (?s, Inr r)" using assms Inr nz m by (simp add: mem)
    moreover have "rt_release be (ne_clock env 1) (Id 1) ?s = (?t, Inr ())" using m' by (simp add: mem)
    moreover have "region_line r = cli_region_line ''ACTIVE'' (ar_granted_bytes res) (ar_kind res) (ar_observed_node res) (ar_locality_known res)"
      by (simp add: region_line_def cli_region_line_def rs line_def printed_id)
    moreover have "released_line (Id 1) ?t = line [''released region 1; allocated_bytes=0 clean=1'']"
      using m' by (simp add: released_line_def allocated_bytes_def memory_accounting_clean_def flag_def line_def printed_id printed_numbers)
    ultimately have "cmd_allocations be env ((s, fs), out) = Some (((?t, fs),
        out @ cli_region_line ''ACTIVE'' (ar_granted_bytes res) (ar_kind res) (ar_observed_node res) (ar_locality_known res)
          @ line [''released region 1; allocated_bytes=0 clean=1'']), Inr ())"
      using assms(2) rs(1) by (simp add: cmd)
    with Inr rs show ?thesis by auto
  next
    case (Inl e)
    let ?r = "(new_region ?q (Id 1) (Generation 1) ?now)\<lparr>mr_state := LS_Failed, mr_locality_current := False\<rparr>"
    obtain m where m: "record_allocation ?now ?q None empty_manager = (m, Inr ?r)" "om_find (mm_regions m) (Id 1) = Some ?r"
      by (simp add: record_allocation_def empty_manager_def gen_next_def gen_initial_def Let_def)
    let ?s = "s\<lparr>rt_backend := b', rt_memory := m\<rparr>"
    have "rt_allocate be ?now ?q s = (if \<exists>msg. e = BackendError msg then (?s, Inr ?r) else (s\<lparr>rt_backend := b'\<rparr>, Inl e))"
      using assms Inl nz m(1) by (cases e) (simp_all add: mem)
    moreover have "rt_release be (ne_clock env 1) (Id 1) ?s = (?s, Inl (InvalidTransitionError ''double release of region 1''))"
      using m(2) by (simp add: mem release_region_def is_released_def released_state_def printed_id)
    moreover have "mr_id ?r = Id 1" "region_line ?r = cli_region_line ''FAILED'' qty_zero AK_Host invalid_id False"
      by (simp_all add: new_region_def cli_allocate_def region_line_def cli_region_line_def line_def printed_id)
    ultimately show ?thesis
      using assms(2) Inl by (cases e) (auto simp: cmd)
  qed
qed

lemma nf_run_discovered:
  assumes "be_discover_host be b = Inr h"
  shows "nf_run be b env opts fs = (case nf_execute be env opts ((refresh_accelerators be ((new_runtime b)\<lparr>rt_topo := h\<rparr>), fs), '''') of
      None \<Rightarrow> Undefined
    | Some (((_, fs), out), Inl e) \<Rightarrow> Exit 3 (out @ error_line e) fs
    | Some (((_, fs), out), Inr found) \<Rightarrow> Exit (if found then 0 else 1) out fs)"
  using assms by (simp add: nf_run_def rt_discover_def new_runtime_def)

lemma fresh_state [simp]:
  "rt_reservations (refresh_accelerators be ((new_runtime b)\<lparr>rt_topo := h\<rparr>)) = empty_store"
  "rt_memory (refresh_accelerators be ((new_runtime b)\<lparr>rt_topo := h\<rparr>)) = empty_manager"
  "rt_backend (refresh_accelerators be ((new_runtime b)\<lparr>rt_topo := h\<rparr>)) = b"
  "rt_topo (refresh_accelerators be ((new_runtime b)\<lparr>rt_topo := h\<rparr>)) = h"
  by (simp_all add: refresh_accelerators_def new_runtime_def)

text \<open>
  C16. The commands that allocate and reserve give back what they took, on every backend whose
  discovery reports a node. \<open>reservations\<close> reserves 32 MiB on the first node and reports an empty and
  clean account afterwards, or exits with code 3 when the node is too small. \<open>allocations\<close> reports what
  the backend granted and an empty and clean account after the release; when the backend
  refused, the region is reported as failed and its release as a double one, with code 3.
\<close>

theorem nf_closes_accounts:
  assumes "be_discover_host be b = Inr h" and "ht_nodes h = n # ns" and "id_valid (nn_id n)"
  shows "nf_run be b env (opts\<lparr>nf_command := ''reservations''\<rparr>) fs =
      (if qty_value (nn_memory_capacity n) = 0 \<or> 0x2000000 \<le> qty_value (nn_memory_capacity n)
       then Exit 0 (line [''reserved 33554432 bytes node='', id_to_string (nn_id n), '' id=1 gen=1 total=33554432'']
                    @ line [''released; reserved_bytes=0 clean=1'']) fs
       else Exit 3 (error_line (ReservationError (''memory capacity oversubscription on node '' @ id_to_string (nn_id n)))) fs)
    \<and> nf_run be b env (opts\<lparr>nf_command := ''allocations''\<rparr>) fs =
      (case snd (be_allocate be (spec_of_request (cli_allocate (nn_id n))) b) of
         Inr res \<Rightarrow> Exit 0 (cli_region_line ''ACTIVE'' (ar_granted_bytes res) (ar_kind res) (ar_observed_node res) (ar_locality_known res)
           @ line [''released region 1; allocated_bytes=0 clean=1'']) fs
       | Inl (BackendError m) \<Rightarrow> Exit 3 (cli_region_line ''FAILED'' qty_zero AK_Host invalid_id False
           @ error_line (InvalidTransitionError ''double release of region 1'')) fs
       | Inl e \<Rightarrow> Exit 3 (error_line e) fs)"
proof -
  let ?s = "refresh_accelerators be ((new_runtime b)\<lparr>rt_topo := h\<rparr>)"
  obtain b' result where a: "be_allocate be (spec_of_request (cli_allocate (nn_id n))) b = (b', result)" by fastforce
  obtain s where r: "cmd_reservations ((?s, fs), '''') =
    (if qty_value (nn_memory_capacity n) = 0 \<or> 0x2000000 \<le> qty_value (nn_memory_capacity n)
     then Some (((s, fs), [] @ line [''reserved 33554432 bytes node='', id_to_string (nn_id n), '' id=1 gen=1 total=33554432'']
                                @ line [''released; reserved_bytes=0 clean=1'']), Inr ())
     else Some (((s, fs), []), Inl (ReservationError (''memory capacity oversubscription on node '' @ id_to_string (nn_id n)))))"
    using cmd_reservations_fresh [of ?s n ns fs "[]"] assms(2,3) by auto
  show ?thesis
    using cmd_allocations_fresh [of ?s n ns be b' result env fs "[]"] r assms a
    by (auto simp: nf_run_discovered [OF assms(1)] nf_execute_def known_def split: sum.split exn.split)
qed

lemma discovered_cli: "\<exists>h n. be_discover_host make_synthetic_backend (new_synthetic (cli_config 1 1)) = Inr h \<and> ht_nodes h = [n]
   \<and> nn_id n = Id 1 \<and> nn_memory_capacity n = Quantity kDefaultNodeCapacity"
proof -
  have "map_sum id (\<lambda>h. map (\<lambda>n. (nn_id n, nn_memory_capacity n)) (ht_nodes h)) (discover_host (cli_config 1 1)) = Inr [(Id 1, Quantity kDefaultNodeCapacity)]"
    by code_simp
  then obtain h where "discover_host (cli_config 1 1) = Inr h" "map (\<lambda>n. (nn_id n, nn_memory_capacity n)) (ht_nodes h) = [(Id 1, Quantity kDefaultNodeCapacity)]"
    by (cases "discover_host (cli_config 1 1)") auto
  then show ?thesis by (auto simp: make_synthetic_backend_def new_synthetic_def)
qed

definition sample_nf_env :: NfEnv where
  "sample_nf_env = \<lparr>ne_clock = of_nat, ne_save = \<lparr>env_open = True, env_write = WriteOk, env_rename = True\<rparr>\<rparr>"

theorem nf_closes_accounts_witness:
  "nf_run make_synthetic_backend (new_synthetic (cli_config 1 1)) sample_nf_env (default_options\<lparr>nf_command := ''reservations''\<rparr>) (\<lambda>_. None)
    = Exit 0 (line [''reserved 33554432 bytes node=1 id=1 gen=1 total=33554432''] @ line [''released; reserved_bytes=0 clean=1'']) (\<lambda>_. None)"
proof -
  obtain h n where h: "be_discover_host make_synthetic_backend (new_synthetic (cli_config 1 1)) = Inr h" "ht_nodes h = [n]" "nn_id n = Id 1"
    "nn_memory_capacity n = Quantity kDefaultNodeCapacity" using discovered_cli by auto
  have "id_valid (nn_id n)" using h(3) by (simp add: id_valid_def)
  from nf_closes_accounts [OF h(1,2) this, of sample_nf_env default_options "\<lambda>_. None"] show ?thesis
    using h(3,4) by (simp add: kDefaultNodeCapacity_def line_def printed_id)
qed


text \<open>Two runs without a result: a command that takes the first node of a host without nodes, and a
  number that \<open>std::stoul\<close> does not accept.\<close>

lemma front_of_no_node: "nf_main os o0 env [''--backend'', ''synthetic'', ''--nodes'', ''0'', ''allocations''] fs = Undefined"
proof -
  have "scan_number ''0'' = Some (False, 0)" by code_simp
  then have zero: "stoul32 ''0'' = Some 0" by (simp add: stoul32_def scan_unsigned_def)
  have o: "nf_options [''--backend'', ''synthetic'', ''--nodes'', ''0'', ''allocations''] = Some (default_options\<lparr>nf_backend := ''synthetic'', nf_nodes := 0, nf_command := ''allocations''\<rparr>)"
    by (simp add: nf_options_def default_options_def zero)
  have "map_sum id ht_nodes (discover_host (cli_config 0 8)) = Inr []" by code_simp
  then obtain h where "discover_host (cli_config 0 8) = Inr h" "ht_nodes h = []" by (cases "discover_host (cli_config 0 8)") auto
  then have "be_discover_host make_synthetic_backend (new_synthetic (cli_config 0 8)) = Inr h" "ht_nodes h = []"
    by (simp_all add: make_synthetic_backend_def new_synthetic_def)
  then show ?thesis
    by (simp add: nf_main_def o nf_run_discovered default_options_def nf_execute_def cmd_allocations_def with_front_def nf_runtime_def known_def)
qed

lemma bad_number_terminates: "nf_main os o0 env [''--nodes'', ''many''] fs = Terminated"
proof -
  have "stoul32 ''many'' = None" by code_simp
  then have "nf_options [''--nodes'', ''many''] = None" by (simp add: nf_options_def)
  then show ?thesis by (simp add: nf_main_def)
qed

text \<open>What \<open>nf save\<close> writes, \<open>nf load\<close> accepts, in another process and on any host.\<close>

lemma nf_save_load:
  assumes "be_discover_host be b = Inr h" and "be_discover_host be' b' = Inr h'" and "state_path opts = state_path opts'"
    and "ne_save env = \<lparr>env_open = True, env_write = WriteOk, env_rename = True\<rparr>"
  shows "\<exists>fs'. nf_run be b env (opts\<lparr>nf_command := ''save''\<rparr>) fs = Exit 0 (line [''saved authoritative state to '', state_path opts]) fs'
    \<and> nf_run be' b' env' (opts'\<lparr>nf_command := ''load''\<rparr>) fs'
      = Exit 0 (line [''recovered from '', state_path opts, ''; locality is marked stale until revalidated'']) fs'"
proof -
  let ?s = "refresh_accelerators be ((new_runtime b)\<lparr>rt_topo := h\<rparr>)" and ?t = "refresh_accelerators be' ((new_runtime b')\<lparr>rt_topo := h'\<rparr>)"
  let ?p = "state_path opts" and ?st = "persisted_state ?s"
  have reg: "rt_registry ?s = empty_registry" "rt_registry ?t = empty_registry" by (simp_all add: refresh_accelerators_def new_runtime_def)
  have empty: "st_workers ?st = []" "st_reservations ?st = []"
    using reg by (simp_all add: persisted_state_def all_workers_def empty_registry_def all_reservations_def empty_store_def om_single)
  then have ok: "persistable ?st" by (simp add: persistable_def persisted_state_def)
  then obtain bs where bs: "serialize ?st = Inr bs" using serialize_total by blast
  let ?fs = "fs(?p \<mapsto> container_of bs, tmp_path ?p := None)"
  have "tmp_path ?p \<noteq> ?p" by (simp add: tmp_path_def)
  then have "load ?p ?fs = Inr ?st" using container_loads [OF ok bs] by (simp add: load_def)
  moreover have "persist (ne_save env) ?p ?s fs = (?fs, Inr ())" using assms(4) bs by (simp add: persist_def save_def Let_def)
  moreover have sp: "state_path (opts\<lparr>nf_command := c\<rparr>) = state_path opts" for c and opts :: NfOptions by (simp add: state_path_def)
  moreover obtain t where "recover_state (ne_clock env' 0) ?st ?t = (t, Inr ())" using empty by (simp add: recover_state_def Let_def)
  ultimately show ?thesis
    using assms(3) by (auto simp: nf_run_discovered [OF assms(1)] nf_run_discovered [OF assms(2)] nf_execute_def known_def cmd_save_def cmd_load_def
        nf_call_def recover_def finish_def print_def intro!: exI [of _ ?fs])
qed

end
