(* ===== verification/Coordinator_App.thy ===== *)
theory Coordinator_App
  imports Recovery Coordinator_Safety Nf_Cli
begin

text \<open>
  \<open>apps/coordinator/main.cpp\<close>: the coordinator process. It parses its arguments, discovers the host,
  recovers a saved state when it is told to, binds a port, writes it to the output and to a
  file, serves, and ends when its coordinator is no longer running. The lemmas say how it starts
  and that it never ends with a code.
\<close>

section \<open>Arguments\<close>

record CoordinatorOptions =
  cp_backend :: string
  cp_nodes :: u32
  cp_procs :: u32
  cp_port :: u16
  cp_recover :: string
  cp_port_file :: string

definition default_coordinator_options :: CoordinatorOptions where
  "default_coordinator_options = \<lparr>cp_backend = ''synthetic'', cp_nodes = 2, cp_procs = 8, cp_port = 0, cp_recover = '''', cp_port_file = ''''\<rparr>"

text \<open>\<open>None\<close> is an exception of \<open>std::stoul\<close>; \<open>main\<close> has no handler.\<close>

fun coordinator_args :: "string list \<Rightarrow> CoordinatorOptions \<Rightarrow> CoordinatorOptions option" where
  "coordinator_args [] opts = Some opts"
| "coordinator_args (a # rest) opts =
     (if a = ''--backend'' \<and> rest \<noteq> [] then coordinator_args (tl rest) (opts\<lparr>cp_backend := hd rest\<rparr>)
      else if a = ''--nodes'' \<and> rest \<noteq> []
      then Option.bind (stoul32 (hd rest)) (\<lambda>n. coordinator_args (tl rest) (opts\<lparr>cp_nodes := n\<rparr>))
      else if a = ''--procs'' \<and> rest \<noteq> []
      then Option.bind (stoul32 (hd rest)) (\<lambda>n. coordinator_args (tl rest) (opts\<lparr>cp_procs := n\<rparr>))
      else if a = ''--port'' \<and> rest \<noteq> []
      then Option.bind (stoul32 (hd rest)) (\<lambda>n. coordinator_args (tl rest) (opts\<lparr>cp_port := ucast n\<rparr>))
      else if a = ''--recover'' \<and> rest \<noteq> [] then coordinator_args (tl rest) (opts\<lparr>cp_recover := hd rest\<rparr>)
      else if a = ''--port-file'' \<and> rest \<noteq> [] then coordinator_args (tl rest) (opts\<lparr>cp_port_file := hd rest\<rparr>)
      else coordinator_args rest opts)"

section \<open>Start and end\<close>

text \<open>
  The environment: the time of the recovery, the results of the socket calls for a requested
  port, and whether the port file can be opened. A process that has started serves with its
  coordinator, the text of the port file if one was written, and its output; an exception
  before that terminates it with the output so far.
\<close>

record CoordinatorEnv =
  cv_now :: u64
  cv_bind :: "u16 \<Rightarrow> BindEnv"
  cv_port_file :: bool

datatype 'b coordinator_run = Serving "'b Coordinator" "string option" string | Killed string

definition co_recover :: "u64 \<Rightarrow> string \<Rightarrow> files \<Rightarrow> 'b Coordinator \<Rightarrow> ('b Coordinator, unit) outcome" where
  "co_recover now path fs c = (case recover now path fs (co_runtime c) of (s, r) \<Rightarrow> (c\<lparr>co_runtime := s\<rparr>, r))"

definition coordinator_listen :: "CoordinatorEnv \<Rightarrow> CoordinatorOptions \<Rightarrow> 'b Coordinator \<Rightarrow> string \<Rightarrow> 'b coordinator_run" where
  "coordinator_listen env opts c out =
     (case co_bind (cv_bind env (cp_port opts)) c of
        (c, Inl e) \<Rightarrow> Killed out
      | (c, Inr port) \<Rightarrow>
          Serving c (if cp_port_file opts \<noteq> '''' \<and> cv_port_file env then Some (line [std_to_string port]) else None)
            (out @ line [''LISTENING '', std_to_string port]))"

definition coordinator_start :: "'b Backend \<Rightarrow> 'b \<Rightarrow> CoordinatorEnv \<Rightarrow> CoordinatorOptions \<Rightarrow> files \<Rightarrow> 'b coordinator_run" where
  "coordinator_start be b env opts fs =
     (let c = new_coordinator b in
      case rt_discover be (co_runtime c) of
        (s, Inl e) \<Rightarrow> Killed ''''
      | (s, Inr _) \<Rightarrow>
          let c = c\<lparr>co_runtime := refresh_accelerators be s\<rparr> in
          if cp_recover opts \<noteq> ''''
          then (case co_recover (cv_now env) (cp_recover opts) fs c of
                  (c, Inl e) \<Rightarrow> Killed ''''
                | (c, Inr _) \<Rightarrow> coordinator_listen env opts c (line [''RECOVERED='', cp_recover opts]))
          else coordinator_listen env opts c '''')"

text \<open>The two kinds of backend have states of their own; \<open>None\<close> is a number that does not parse.\<close>

definition coordinator_main :: "'o Win32 \<Rightarrow> 'o \<Rightarrow> CoordinatorEnv \<Rightarrow> string list \<Rightarrow> files \<Rightarrow> (SyntheticBackend coordinator_run + 'o coordinator_run) option" where
  "coordinator_main os o0 env args fs = map_option (\<lambda>opts.
     if cp_backend opts = ''synthetic''
     then Inl (coordinator_start make_synthetic_backend (new_synthetic (cli_config (cp_nodes opts) (cp_procs opts))) env opts fs)
     else Inr (coordinator_start (make_windows_backend os) o0 env opts fs))
     (coordinator_args args default_coordinator_options)"

text \<open>The end: the loop of \<open>main\<close> is left once the coordinator is not running. Then \<open>shutdown\<close> is
  called, and the destructor of a thread that was not joined terminates the process.\<close>

datatype coordinator_end = StillServing | Ended nat string | TerminatedAfter string

definition coordinator_stop :: "'b Coordinator \<Rightarrow> string \<Rightarrow> coordinator_end" where
  "coordinator_stop c out =
     (if co_running c then StillServing
      else let out = out @ line [''STOPPED''] in if co_accepting (co_shutdown c) then TerminatedAfter out else Ended 0 out)"

section \<open>A coordinator process has no clean end\<close>

lemma dispatch_keeps_thread: "co_accepting (fst (dispatch be now conn f c)) = co_accepting c"
proof -
  have "co_accepting (fst (parsed rd f c k)) = co_accepting c" if "\<And>x. co_accepting (fst (k x)) = co_accepting c" for rd k
    using that by (simp add: parsed_def split: sum.split)
  note keep = this
  have "co_accepting (fst (on_runtime out c k)) = co_accepting c" for out k
    by (simp add: on_runtime_def split: prod.split sum.split)
  note keep = keep this
  have "co_accepting (fst (authorized c i boot msg k)) = co_accepting c" if "co_accepting (fst k) = co_accepting c" for i boot msg k
    using that by (simp add: authorized_def split: prod.split bool.split)
  note keep = keep this
  show ?thesis
    by (simp add: dispatch_def handle_register_def handle_placement_def handle_reserve_def handle_release_def handle_bind_def
        handle_migrate_def handle_observe_def handle_discover_def handle_revalidate_def keep Let_def
        split: option.split MsgType.split prod.split sum.split if_split)
qed

lemma step_keeps_thread: "co_step be ready c c' \<Longrightarrow> co_accepting c' = co_accepting c"
proof (induction rule: co_step.induct)
  case (co_request c now conn f c' r)
  then show ?case using dispatch_keeps_thread [of be now conn f c] by (auto simp: handle_frame_def split: prod.splits sum.splits)
qed (auto simp: lose_connection_def accept_connection_def open_controller_def close_controller_def Let_def split: option.splits)

lemma steps_keep_thread: "(co_step be ready)\<^sup>*\<^sup>* c c' \<Longrightarrow> co_accepting c' = co_accepting c"
  by (induction rule: rtranclp_induct) (simp_all add: step_keeps_thread)

lemma listen_serves: "coordinator_listen env opts c out = Serving c' ports out' \<Longrightarrow> co_accepting c'"
  by (auto simp: coordinator_listen_def co_bind_def split: if_splits)

lemma start_serves: "coordinator_start be b env opts fs = Serving c ports out \<Longrightarrow> co_accepting c"
  using listen_serves by (fastforce simp: coordinator_start_def Let_def split: prod.splits sum.splits if_splits)

text \<open>
  Whatever a coordinator process that started goes through, it serves on, or, after a \<open>Shutdown\<close>
  request, it is terminated after the line \<open>STOPPED\<close>: its thread was never joined.
\<close>

lemma coordinator_never_ends_cleanly:
  assumes "coordinator_start be b env opts fs = Serving c ports out" and "(co_step be ready)\<^sup>*\<^sup>* c c'"
  shows "coordinator_stop c' out = (if co_running c' then StillServing else TerminatedAfter (out @ line [''STOPPED'']))"
  using start_serves [OF assms(1)] steps_keep_thread [OF assms(2)] by (simp add: coordinator_stop_def co_shutdown_def)

section \<open>A start with recovery\<close>

lemma start_recovers:
  assumes "registry_inv (rt_registry s)" and "store_inv (rt_reservations s)" and "persistable (persisted_state s)"
    and "persist sv (cp_recover opts) s fs = (fs', Inr ())"
    and "\<forall>n f. node_capacity_provider s = Some f \<longrightarrow> qty_value (f n) \<noteq> 0 \<longrightarrow> node_reserved s n \<le> qty_value (f n)"
    and "be_discover_host be b = Inr (rt_topo s)" and "cp_recover opts \<noteq> ''''"
    and "cv_bind env (cp_port opts) = \<lparr>be_startup = True, be_socket = True, be_bind = True, be_listen = True, be_port = port\<rparr>"
  shows "\<exists>c. coordinator_start be b env opts fs' =
      Serving c (if cp_port_file opts \<noteq> '''' \<and> cv_port_file env then Some (line [std_to_string port]) else None)
        (line [''RECOVERED='', cp_recover opts] @ line [''LISTENING '', std_to_string port])
    \<and> co_port c = port \<and> co_running c \<and> rt_epoch (co_runtime c) = rt_epoch s \<and> registry_inv (registry_of c)
    \<and> (\<forall>i boot. validate_boot (registry_of c) i boot \<longleftrightarrow> validate_boot (rt_registry s) i boot)
    \<and> (\<forall>n. node_reserved (co_runtime c) n = node_reserved s n)
    \<and> rt_policy_generation (co_runtime c) = rt_policy_generation s \<and> rt_topo (co_runtime c) = rt_topo s
    \<and> rt_accelerators (co_runtime c) = be_enumerate_accelerators be b
    \<and> (st_reservations (persisted_state s) = [] \<longrightarrow> rt_reservations (co_runtime c) = empty_store)"
proof -
  let ?s0 = "refresh_accelerators be ((new_runtime b)\<lparr>rt_topo := rt_topo s\<rparr>)"
  have s0: "rt_registry ?s0 = empty_registry" "rt_reservations ?s0 = empty_store" "rt_topo ?s0 = rt_topo s"
    "rt_accelerators ?s0 = be_enumerate_accelerators be b" by (simp_all add: refresh_accelerators_def new_runtime_def)
  from persisted_recovers [OF assms(1-5) s0(1-3)] obtain s' where s': "recover (cv_now env) (cp_recover opts) fs' ?s0 = (s', Inr ())"
    "rt_epoch s' = rt_epoch s" "rt_policy_generation s' = rt_policy_generation s" "registry_inv (rt_registry s')"
    "\<forall>i boot. validate_boot (rt_registry s') i boot \<longleftrightarrow> validate_boot (rt_registry s) i boot" "\<forall>n. node_reserved s' n = node_reserved s n"
    by blast
  have rec: "recover_state (cv_now env) (persisted_state s) ?s0 = (s', Inr ())"
    using s'(1) persist_load [OF assms(3,4)] by (simp add: recover_def)
  note keeps = recover_state_keeps [OF rec, unfolded s0]
  have "rt_discover be (new_runtime b) = ((new_runtime b)\<lparr>rt_topo := rt_topo s\<rparr>, Inr (rt_topo s))"
    using assms(6) by (simp add: rt_discover_def new_runtime_def)
  with s' keeps show ?thesis using assms(7,8)
    by (simp add: coordinator_start_def new_coordinator_def co_recover_def coordinator_listen_def co_bind_def)
qed

end
