(* ===== verification/Nf_Proof.thy ===== *)
theory Nf_Proof
  imports Worker_App_Safety Coordinator_App
begin

text \<open>
  \<open>apps/proof/main.cpp\<close>: the program that plays a kill, restart and replay scenario with real worker
  processes. Modelled are the command lines it starts the processes with, how it reads the
  marker files of the workers, the probes by which it replays old authority, and the whole
  scenario in one schedule of its processes. The theorems say that a started worker
  understands its command line, that the boot read from a marker file is the one the
  coordinator holds, that the probes tell exactly a stale epoch and a stale boot, and that
  the coordinator that is started last has the saved state. \<open>Proof_Run\<close> runs the scenario.
\<close>

section \<open>Marker files\<close>

text \<open>\<open>s.find(key)\<close>, and what follows the first occurrence.\<close>

fun after_key :: "string \<Rightarrow> string \<Rightarrow> string option" where
  "after_key key [] = (if key = [] then Some [] else None)"
| "after_key key (c # s) =
     (if take (length key) (c # s) = key then Some (drop (length key) (c # s)) else after_key key s)"

definition extract_value :: "string \<Rightarrow> string \<Rightarrow> string" where
  "extract_value s key =
     (case after_key key s of
        None \<Rightarrow> ''''
      | Some val \<Rightarrow> takeWhile (\<lambda>c. c \<noteq> CHR '' '' \<and> c \<noteq> CHR 0x0D) (takeWhile (\<lambda>c. c \<noteq> CHR 0x0A) val))"

definition marker_has :: "string \<Rightarrow> string \<Rightarrow> bool" where
  "marker_has s needle = str_contains needle s"

section \<open>Command lines\<close>

definition worker_cmd :: "u32 \<Rightarrow> u16 \<Rightarrow> string \<Rightarrow> string" where
  "worker_cmd i port mk = ''nf-worker --id '' @ std_to_string i @ '' --host 127.0.0.1 --port '' @ std_to_string port
     @ '' --footprint 33554432 --iterations 1 --hold --marker '' @ mk"

definition coord_cmd :: "string \<Rightarrow> string \<Rightarrow> string" where
  "coord_cmd port_file recover_path =
     ''nf-coordinator --backend synthetic --nodes 2 --procs 8 --port 0 --port-file '' @ port_file
     @ (if recover_path \<noteq> '''' then '' --recover '' @ recover_path else '''')"

text \<open>How a process finds its arguments in a command line without quotation marks: words between
  blanks; the first one is the program.\<close>

definition blank :: "char \<Rightarrow> bool" where
  "blank c \<longleftrightarrow> c = CHR '' '' \<or> c = CHR 0x09"

function argv_of :: "string \<Rightarrow> string list" where
  "argv_of s = (let s = dropWhile blank s in
     if s = [] then [] else takeWhile (\<lambda>c. \<not> blank c) s # argv_of (dropWhile (\<lambda>c. \<not> blank c) s))"
  by auto
termination
proof (relation "measure length", simp)
  fix s t :: string
  assume t: "t = dropWhile blank s" "t \<noteq> []"
  then have "\<not> blank (hd t)" using hd_dropWhile by metis
  then have "length (dropWhile (\<lambda>c. \<not> blank c) t) < length t" using t(2) by (cases t) (simp_all add: le_imp_less_Suc length_dropWhile_le)
  also have "\<dots> \<le> length s" unfolding t(1) by (rule length_dropWhile_le)
  finally show "(dropWhile (\<lambda>c. \<not> blank c) t, s) \<in> measure length" by simp
qed

declare argv_of.simps [simp del]

text \<open>What \<open>spawn_process\<close> passes on: a command line without a backslash gets the directory of the
  program in front.\<close>

definition spawn_line :: "string \<Rightarrow> string \<Rightarrow> string" where
  "spawn_line exe_dir cmdline = (if CHR 0x5C \<notin> set cmdline \<and> cmdline \<noteq> '''' then exe_dir @ CHR 0x5C # cmdline else cmdline)"

definition spawned_args :: "string \<Rightarrow> string \<Rightarrow> string list" where
  "spawned_args exe_dir cmdline = tl (argv_of (spawn_line exe_dir cmdline))"

section \<open>Probes\<close>

definition stale_wire :: "WorkerId \<Rightarrow> WorkerBootId \<Rightarrow> u64 \<Rightarrow> PlacementWire" where
  "stale_wire i boot epoch = \<lparr>plw_worker = i, plw_boot = boot, plw_epoch = epoch, plw_footprint = 1048576, plw_pref = Id 0,
     plw_required = Id 0, plw_has_required = False, plw_require_accel = False, plw_accel = Id 0, plw_cpu = 0,
     plw_allow_fallback = True, plw_revalidation = False\<rparr>"

definition probe :: "network \<Rightarrow> WorkerId \<Rightarrow> WorkerBootId \<Rightarrow> u64 \<Rightarrow> (WorkerSession, PlacementOut) outcome" where
  "probe net i boot epoch = send_placement net (stale_wire i boot epoch)
     (fst (ws_connect \<lparr>ce_startup = True, ce_socket = True, ce_connect = True\<rparr> new_session))"

definition rejected_as :: "AuthorityVerification \<Rightarrow> WorkerSession \<Rightarrow> bool" where
  "rejected_as av s \<longleftrightarrow> \<not> (\<not> ws_last_error s \<or> ws_last_error_code s \<noteq> authority_code av)"

section \<open>The scenario\<close>

text \<open>
  \<open>main\<close> with its coordinator in its own process, in the schedule in which a started worker runs
  until it holds or ends before the program looks at its marker file again. A process that
  ends or is killed loses its connection, and the coordinator observes this at once. The program
  runs in its own directory, where its processes run too, so that they share the names of the
  marker files. A wait whose condition never comes true is the end
  \<open>Waiting\<close>, an exception is \<open>Uncaught\<close>; the lines that report progress are left out.
\<close>

datatype proof_end = Passed | Failure string | Waiting | Uncaught

record ProofEnv =
  pv_self :: string
  pv_args :: "string list"
  pv_bind :: BindEnv
  pv_clock :: "nat \<Rightarrow> u64"
  pv_pieces :: "byte list \<Rightarrow> byte list list"
  pv_pid :: "string \<Rightarrow> ProcessId"
  pv_alloc :: "u64 \<Rightarrow> exn option"
  pv_save :: SaveEnv
  pv_coordinator :: CoordinatorEnv

type_synonym proof_state = "SyntheticBackend Coordinator \<times> nat"
type_synonym 'a proof_step = "proof_end + 'a"

definition proof_state_path :: "string list \<Rightarrow> string" where
  "proof_state_path args = (case args of [] \<Rightarrow> ''numafabric_proof.state'' | path # _ \<Rightarrow> path)"

definition exe_dir :: "string \<Rightarrow> string" where
  "exe_dir self = (case dropWhile (\<lambda>c. c \<noteq> CHR 0x5C) (rev self) of [] \<Rightarrow> ''.'' | _ # dir \<Rightarrow> rev dir)"

definition worker_env :: "ProofEnv \<Rightarrow> string \<Rightarrow> u64 \<Rightarrow> proof_state WorkerEnv" where
  "worker_env pv mk conn = \<lparr>we_connect = \<lparr>ce_startup = True, ce_socket = True, ce_connect = True\<rparr>, we_pid = pv_pid pv mk, we_marker = True,
     we_alloc = pv_alloc pv, we_peer = coordinator_peer make_synthetic_backend (pv_clock pv) (pv_pieces pv) conn\<rparr>"

definition spawn_worker :: "ProofEnv \<Rightarrow> u16 \<Rightarrow> u32 \<Rightarrow> string \<Rightarrow> proof_state \<Rightarrow> proof_state \<times> u64 \<times> string" where
  "spawn_worker pv port i mk = (\<lambda>(c, k).
     case accept_connection c of (c, conn) \<Rightarrow>
     case worker_main (worker_env pv mk conn) (spawned_args (exe_dir (pv_self pv)) (worker_cmd i port mk)) (c, k) '''' of
       (how, (c, k), out, _) \<Rightarrow> ((if how = Held then c else lose_connection conn c, k), conn, out))"

definition kill_process :: "u64 \<Rightarrow> proof_state \<Rightarrow> proof_state" where
  "kill_process conn = (\<lambda>(c, k). (lose_connection conn c, k))"

definition wait_marker :: "string \<Rightarrow> string \<Rightarrow> 'a proof_step \<Rightarrow> 'a proof_step" where
  "wait_marker s needle next = (if marker_has s needle then next else Inl Waiting)"

definition read_boot :: "string \<Rightarrow> (WorkerBootId \<Rightarrow> 'a proof_step) \<Rightarrow> 'a proof_step" where
  "read_boot s next = (case stoull (extract_value s ''BOOT='') of None \<Rightarrow> Inl Uncaught | Some b \<Rightarrow> next (Id b))"

definition demand :: "bool \<Rightarrow> string \<Rightarrow> 'a proof_step \<Rightarrow> 'a proof_step" where
  "demand ok msg next = (if ok then next else Inl (Failure msg))"

definition holds_authority :: "proof_state \<Rightarrow> WorkerId \<Rightarrow> WorkerBootId \<Rightarrow> bool" where
  "holds_authority st i boot \<longleftrightarrow> \<not> (\<not> worker_alive (fst st) i \<or> worker_boot (fst st) i \<noteq> Some boot)"

text \<open>A replay opens a connection of its own, which is closed after the verdict.\<close>

definition replay :: "ProofEnv \<Rightarrow> WorkerId \<Rightarrow> WorkerBootId \<Rightarrow> u64 \<Rightarrow> (WorkerSession \<Rightarrow> proof_state \<Rightarrow> 'a proof_step) \<Rightarrow> proof_state \<Rightarrow> 'a proof_step" where
  "replay pv i boot epoch next = (\<lambda>(c, k).
     case accept_connection c of (c, conn) \<Rightarrow>
     let be = make_synthetic_backend; clock = pv_clock pv; pieces = pv_pieces pv in
     case probe (coordinator_net be clock pieces conn (c, k)) i boot epoch of
       (s, Inl e) \<Rightarrow> Inl Uncaught
     | (s, Inr _) \<Rightarrow>
         (case peer_after (coordinator_peer be clock pieces conn) MT_PlacementRequest (w_placement (stale_wire i boot epoch)) (c, k) of
            (c, k) \<Rightarrow> next s (lose_connection conn c, k)))"

definition start_workers :: "ProofEnv \<Rightarrow> u16 \<Rightarrow> proof_state \<Rightarrow> (WorkerBootId \<times> u64 \<times> WorkerBootId \<times> u64 \<times> proof_state) proof_step" where
  "start_workers pv port st =
     (case spawn_worker pv port 10 ''proof_a.marker'' st of (st, connA, fileA) \<Rightarrow>
      wait_marker fileA ''BOOT='' (read_boot fileA (\<lambda>a.
      case spawn_worker pv port 20 ''proof_b.marker'' st of (st, connB, fileB) \<Rightarrow>
      wait_marker fileB ''BOOT='' (read_boot fileB (\<lambda>b.
      wait_marker fileA ''DONE=true'' (wait_marker fileB ''DONE=true'' (
      demand (a \<noteq> b) ''distinct boots not issued'' (
      demand (holds_authority st (Id 10) a) ''A pre-restart authority inconsistent'' (Inr (a, connA, b, connB, st))))))))))"

definition lose_first :: "u64 \<Rightarrow> WorkerBootId \<Rightarrow> proof_state \<Rightarrow> proof_state proof_step" where
  "lose_first connA b st =
     (let st = kill_process connA st in
      if worker_alive (fst st) (Id 10) then Inl Waiting
      else demand (holds_authority st (Id 20) b) ''worker B became invalid after A death'' (Inr st))"

definition replay_stale :: "ProofEnv \<Rightarrow> WorkerBootId \<Rightarrow> WorkerBootId \<Rightarrow> proof_state \<Rightarrow> (u64 \<times> proof_state) proof_step" where
  "replay_stale pv a b = (\<lambda>(c, k).
     let before = gen_value (rt_epoch (co_runtime c)) in
     case advance_epoch (co_runtime c) of
       (_, Inl e) \<Rightarrow> Inl Uncaught
     | (s, Inr _) \<Rightarrow>
         let after = gen_value (rt_epoch s) in
         replay pv (Id 20) b before (\<lambda>s st.
         demand (rejected_as AV_StaleEpoch s) ''stale CoordinatorEpoch not rejected'' (
         replay pv (Id 10) a after (\<lambda>s st.
         demand (rejected_as AV_StaleBoot s) ''stale WorkerBootId not rejected'' (Inr (after, st))) st)) (c\<lparr>co_runtime := s\<rparr>, k))"

definition restart_first :: "ProofEnv \<Rightarrow> u16 \<Rightarrow> WorkerBootId \<Rightarrow> u64 \<Rightarrow> proof_state \<Rightarrow> (u64 \<times> proof_state) proof_step" where
  "restart_first pv port a after st =
     (case spawn_worker pv port 10 ''proof_a2.marker'' st of (st, conn, file) \<Rightarrow>
      wait_marker file ''BOOT='' (read_boot file (\<lambda>a2.
      demand (a2 \<noteq> a) ''restarted A got the same boot id'' (wait_marker file ''DONE=true'' (
      replay pv (Id 10) a after (\<lambda>s st. demand (ws_last_error s) ''stale pre-restart authority fenced'' (Inr (conn, st))) st)))))"

definition second_coordinator :: "'o Win32 \<Rightarrow> 'o \<Rightarrow> ProofEnv \<Rightarrow> files \<Rightarrow> SyntheticBackend Coordinator \<Rightarrow> proof_end" where
  "second_coordinator os o0 pv fs c =
     (let path = proof_state_path (pv_args pv) in
      case persist (pv_save pv) path (co_runtime c) fs of
        (_, Inl e) \<Rightarrow> Uncaught
      | (fs, Inr _) \<Rightarrow>
          (case coordinator_main os o0 (pv_coordinator pv) (spawned_args (exe_dir (pv_self pv)) (coord_cmd ''coord2.portfile'' path)) fs of
             Some (Inl (Serving c (Some file) _)) \<Rightarrow>
               (case stoul32 file of
                  None \<Rightarrow> Uncaught
                | Some port \<Rightarrow>
                    (case spawn_worker pv (ucast port) 10 ''proof_a3.marker'' (c, 0) of
                       (_, _, file) \<Rightarrow> if marker_has file ''DONE=true'' then Passed else Waiting))
           | _ \<Rightarrow> Waiting))"

fun finally_end :: "proof_end proof_step \<Rightarrow> proof_end" where
  "finally_end (Inl e) = e"
| "finally_end (Inr e) = e"

definition pbind :: "'a proof_step \<Rightarrow> ('a \<Rightarrow> 'c proof_step) \<Rightarrow> 'c proof_step" where
  "pbind m f = (case m of Inl e \<Rightarrow> Inl e | Inr x \<Rightarrow> f x)"

definition proof_scenario :: "'o Win32 \<Rightarrow> 'o \<Rightarrow> ProofEnv \<Rightarrow> files \<Rightarrow> u16 \<Rightarrow> proof_state \<Rightarrow> proof_end" where
  "proof_scenario os o0 pv fs port st = finally_end (
     pbind (start_workers pv port st) (\<lambda>(a, connA, b, connB, st).
     pbind (lose_first connA b st) (\<lambda>st.
     pbind (replay_stale pv a b st) (\<lambda>(after, st).
     pbind (restart_first pv port a after st) (\<lambda>(connA2, st).
     Inr (second_coordinator os o0 pv fs (fst (kill_process connA2 (kill_process connB st)))))))))"

definition proof_main :: "'o Win32 \<Rightarrow> 'o \<Rightarrow> ProofEnv \<Rightarrow> files \<Rightarrow> proof_end" where
  "proof_main os o0 pv fs =
     (let c = new_coordinator (new_synthetic (cli_config 2 8)) in
      case rt_discover make_synthetic_backend (co_runtime c) of
        (_, Inl e) \<Rightarrow> Uncaught
      | (s, Inr _) \<Rightarrow>
          (case co_bind (pv_bind pv) (c\<lparr>co_runtime := refresh_accelerators make_synthetic_backend s\<rparr>) of
             (_, Inl e) \<Rightarrow> Uncaught
           | (c, Inr port) \<Rightarrow> proof_scenario os o0 pv fs port (c, 0)))"

section \<open>A worker understands its command line\<close>

lemma argv_word:
  assumes "w \<noteq> []" and "\<forall>c\<in>set w. \<not> blank c"
  shows "argv_of w = [w]" and "argv_of (w @ CHR '' '' # s) = w # argv_of s"
proof -
  have d: "dropWhile blank (w @ r) = w @ r" for r using assms by (cases w) simp_all
  have b: "blank (CHR '' '')" by (simp add: blank_def)
  have "argv_of (CHR '' '' # s) = argv_of s" by (subst (1 2) argv_of.simps) (simp add: b)
  moreover have "takeWhile (\<lambda>c. \<not> blank c) (w @ CHR '' '' # s) = w" "dropWhile (\<lambda>c. \<not> blank c) (w @ CHR '' '' # s) = CHR '' '' # s"
    using assms b by (simp_all add: takeWhile_append2 dropWhile_append2)
  ultimately show "argv_of (w @ CHR '' '' # s) = w # argv_of s" using assms(1) d(1) [of "CHR '' '' # s"] by (subst argv_of.simps) (simp add: Let_def)
  have w: "takeWhile (\<lambda>c. \<not> blank c) w = w" "dropWhile (\<lambda>c. \<not> blank c) w = []" using assms(2) by (simp_all add: takeWhile_eq_all_conv dropWhile_eq_Nil_conv)
  have "argv_of [] = []" by (subst argv_of.simps) simp
  then show "argv_of w = [w]" using assms(1) d [of "[]"] by (subst argv_of.simps) (simp add: Let_def w)
qed

lemma argv_words: "list_all (\<lambda>w. w \<noteq> [] \<and> (\<forall>c\<in>set w. \<not> blank c)) (w # vs) \<Longrightarrow>
    argv_of (w @ concat (map (\<lambda>v. '' '' @ v) vs)) = w # vs"
  by (induction vs arbitrary: w) (simp_all add: argv_word)

lemma spawned_words:
  assumes "\<forall>c\<in>set dir. \<not> blank c" and "list_all (\<lambda>w. w \<noteq> [] \<and> (\<forall>c\<in>set w. \<not> blank c)) (w # vs)"
  shows "spawned_args dir (w @ concat (map (\<lambda>v. '' '' @ v) vs)) = vs"
proof -
  have "list_all (\<lambda>w. w \<noteq> [] \<and> (\<forall>c\<in>set w. \<not> blank c)) ((dir @ CHR 0x5C # w) # vs)"
    using assms by (auto simp: blank_def)
  from argv_words [OF this] argv_words [OF assms(2)] show ?thesis
    by (auto simp: spawned_args_def spawn_line_def)
qed

lemma digits_no_blank: "std_to_string w \<noteq> [] \<and> (\<forall>c\<in>set (std_to_string w). \<not> blank c)"
  using dec_digits_are_digits [of _ "unat w"] digit_no_space by (auto simp: std_to_string_def blank_def is_space_def)

lemma stoul_port:
  assumes "rest = [] \<or> \<not> is_digit (hd rest)"
  shows "stoul32 (std_to_string (port :: u16) @ rest) = Some (ucast port)"
  using scan_unsigned_dec [OF assms, of "ucast port :: u32"] unsigned_less [of port, where ?'a = nat]
  by (simp add: stoul32_def std_to_string_def unsigned_ucast_eq take_bit_nat_eq_self)

lemma port_read: "stoul32 (line [std_to_string port]) = Some (ucast (port :: u16))"
proof -
  have "\<not> is_digit (CHR 0x0A)" by (simp add: is_digit_def)
  then show ?thesis using stoul_port [of "[CHR 0x0A]" port] by (simp add: line_def)
qed

lemma port_of_u32: "ucast (ucast (port :: u16) :: u32) = port"
  by transfer simp

lemma worker_cmd_words: "worker_cmd i port mk = ''nf-worker'' @ concat (map (\<lambda>v. '' '' @ v)
    [''--id'', std_to_string i, ''--host'', ''127.0.0.1'', ''--port'', std_to_string port, ''--footprint'', ''33554432'',
     ''--iterations'', ''1'', ''--hold'', ''--marker'', mk])"
  by (simp add: worker_cmd_def)

lemma coord_cmd_words: "path \<noteq> '''' \<Longrightarrow> coord_cmd port_file path = ''nf-coordinator'' @ concat (map (\<lambda>v. '' '' @ v)
    [''--backend'', ''synthetic'', ''--nodes'', ''2'', ''--procs'', ''8'', ''--port'', ''0'', ''--port-file'', port_file, ''--recover'', path])"
  by (simp add: coord_cmd_def)

text \<open>The processes get from their command lines what the program meant, for every directory and
  every name of a file without blanks.\<close>

lemma worker_cmd_understood:
  assumes "mk \<noteq> ''''" and "\<forall>c\<in>set mk. \<not> blank c" and "\<forall>c\<in>set dir. \<not> blank c"
  shows "worker_args (spawned_args dir (worker_cmd i port mk)) default_worker_options =
    Some \<lparr>wo_id = i, wo_host = ''127.0.0.1'', wo_port = port, wo_footprint = 33554432, wo_iterations = 1, wo_hold = True, wo_release = True, wo_marker = mk\<rparr>"
proof -
  have "spawned_args dir (worker_cmd i port mk) = [''--id'', std_to_string i, ''--host'', ''127.0.0.1'', ''--port'', std_to_string port,
      ''--footprint'', ''33554432'', ''--iterations'', ''1'', ''--hold'', ''--marker'', mk]"
    unfolding worker_cmd_words
    by (rule spawned_words [OF assms(3)]) (use assms(1,2) digits_no_blank [of i] digits_no_blank [of port] in \<open>simp add: blank_def\<close>)
  moreover have "stoul32 (std_to_string i) = Some i" using scan_unsigned_dec [of "[]" i] by (simp add: stoul32_def)
  moreover have "stoul32 (std_to_string port) = Some (ucast port)" using stoul_port [of "[]" port] by simp
  moreover have "stoull ''33554432'' = Some 33554432" "stoi ''1'' = Some 1"
    using scan_unsigned_dec [of "[]" "0x2000000 :: u64"] stoi_dec [of 1] by (simp_all add: stoull_def printed_numbers dec_digits.simps digit_chars)
  moreover have "ucast (ucast port :: u32) = port" by (rule port_of_u32)
  ultimately show ?thesis by (simp add: default_worker_options_def)
qed

lemma coord_cmd_understood:
  assumes "path \<noteq> ''''" and "\<forall>c\<in>set path. \<not> blank c" and "pf \<noteq> ''''" and "\<forall>c\<in>set pf. \<not> blank c" and "\<forall>c\<in>set dir. \<not> blank c"
  shows "coordinator_args (spawned_args dir (coord_cmd pf path)) default_coordinator_options =
    Some \<lparr>cp_backend = ''synthetic'', cp_nodes = 2, cp_procs = 8, cp_port = 0, cp_recover = path, cp_port_file = pf\<rparr>"
proof -
  have "spawned_args dir (coord_cmd pf path) = [''--backend'', ''synthetic'', ''--nodes'', ''2'', ''--procs'', ''8'', ''--port'', ''0'',
      ''--port-file'', pf, ''--recover'', path]"
    unfolding coord_cmd_words [OF assms(1)] by (rule spawned_words [OF assms(5)]) (use assms in \<open>simp add: blank_def\<close>)
  moreover have "scan_number ''2'' = Some (False, 2)" "scan_number ''8'' = Some (False, 8)" "scan_number ''0'' = Some (False, 0)" by code_simp+
  then have "stoul32 ''2'' = Some 2" "stoul32 ''8'' = Some 8" "stoul32 ''0'' = Some 0" by (simp_all add: stoul32_def scan_unsigned_def)
  ultimately show ?thesis by (simp add: default_coordinator_options_def)
qed

section \<open>The boot in the marker file\<close>

lemma has_part: "marker_has (u @ needle @ v) needle"
proof -
  have "is_prefix_of needle (needle @ v)" by (induction needle) simp_all
  then have "str_contains needle (needle @ v)" by (cases "needle @ v") auto
  then show ?thesis unfolding marker_has_def by (induction u) simp_all
qed

lemma after_key_skip:
  assumes "hd key \<notin> set s" and "key \<noteq> []"
  shows "after_key key (s @ key @ r) = Some r"
  using assms(1)
proof (induction s)
  case Nil
  then show ?case using assms(2) by (cases key) simp_all
next
  case (Cons c s)
  have "take (length key) (c # s @ key @ r) \<noteq> key" using Cons.prems assms(2) by (cases key) auto
  with Cons show ?case by simp
qed

lemma extract_digits:
  assumes "d = CHR '' '' \<or> d = CHR 0x0A"
  shows "after_key key s = Some (std_to_string w @ d # r) \<Longrightarrow> extract_value s key = std_to_string w"
proof -
  have digits: "\<forall>c\<in>set (std_to_string w). c \<noteq> CHR 0x0A \<and> c \<noteq> CHR '' '' \<and> c \<noteq> CHR 0x0D"
    using dec_digits_are_digits [of _ "unat w"] digit_no_space by (auto simp: std_to_string_def is_space_def)
  then have "takeWhile (\<lambda>c. c \<noteq> CHR '' '' \<and> c \<noteq> CHR 0x0D) (takeWhile (\<lambda>c. c \<noteq> CHR 0x0A) (std_to_string w @ d # r)) = std_to_string w"
    using assms by (auto simp: takeWhile_append2 takeWhile_eq_all_conv)
  then show "after_key key s = Some (std_to_string w @ d # r) \<Longrightarrow> ?thesis" by (simp add: extract_value_def)
qed

lemma extract_boot: "stoull (extract_value (line [''CONNECT=ok''] @ line [''BOOT='', id_to_string boot, '' epoch='', e] @ r) ''BOOT='') = Some (id_value boot)"
proof -
  have "after_key ''BOOT='' (line [''CONNECT=ok''] @ ''BOOT='' @ id_to_string boot @ CHR '' '' # ''epoch='' @ e @ CHR 0x0A # r)
      = Some (id_to_string boot @ CHR '' '' # ''epoch='' @ e @ CHR 0x0A # r)"
    by (rule after_key_skip) (simp_all add: line_def)
  from extract_digits [OF _ this [unfolded id_to_string_def]]
  have "extract_value (line [''CONNECT=ok''] @ line [''BOOT='', id_to_string boot, '' epoch='', e] @ r) ''BOOT='' = std_to_string (id_value boot)"
    by (simp add: line_def id_to_string_def)
  then show ?thesis using scan_unsigned_dec [of "[]" "id_value boot"] by (simp add: stoull_def)
qed

lemma has_boot: "marker_has (line [''CONNECT=ok''] @ line [''BOOT='', boot, '' epoch='', e] @ r) ''BOOT=''"
  using has_part [of "line [''CONNECT=ok'']" "''BOOT=''" "boot @ '' epoch='' @ e @ CHR 0x0A # r"] by (simp add: line_def)

text \<open>What the program sees of a worker that it started, and what the worker leaves in the coordinator.\<close>

definition proof_options :: "u32 \<Rightarrow> u16 \<Rightarrow> string \<Rightarrow> WorkerOptions" where
  "proof_options i port mk = \<lparr>wo_id = i, wo_host = ''127.0.0.1'', wo_port = port, wo_footprint = 33554432, wo_iterations = 1, wo_hold = True,
     wo_release = True, wo_marker = mk\<rparr>"

lemma started_worker:
  fixes c :: "'b Coordinator"
  assumes "mk \<noteq> ''''" and "\<forall>ch\<in>set mk. \<not> blank ch" and "\<forall>ch\<in>set dir. \<not> blank ch" and "i \<noteq> 0" and "port \<noteq> 0" and "we_marker env"
    and "we_connect env = \<lparr>ce_startup = True, ce_socket = True, ce_connect = True\<rparr>" and "we_alloc env 33554432 = None"
    and "we_peer env = coordinator_peer be clock pieces conn" and "\<forall>bs. concat (pieces bs) = bs"
    and "wr_next_boot (registry_of c) \<noteq> 0" and "worker_room 33554432 (Suc m) (rt_reservations (co_runtime c))"
  obtains how c1 c' k' tx out where
    "worker_main env (spawned_args dir (worker_cmd i port mk)) (c, k) '''' = (how, (c', k'), tx, out)"
    and "admitted conn (Id (ucast i)) c c1" and "served c1 c'" and "worker_room 33554432 m (rt_reservations (co_runtime c'))"
    and "how = Held \<and> marker_has tx ''DONE=true'' \<or> how = Exited 4 \<and> \<not> plans be (proof_options i port mk) c1"
    and "marker_has tx ''BOOT=''" and "stoull (extract_value tx ''BOOT='') = Some (wr_next_boot (registry_of c))"
proof -
  let ?opts = "proof_options i port mk" and ?boot = "Id (wr_next_boot (registry_of c)) :: WorkerBootId" and ?e = "gen_value (rt_epoch (co_runtime c))"
  have whole: "concat (pieces bs) = bs" for bs using assms(10) by blast
  obtain s where s: "ws_connect (we_connect env) new_session = (s, True)" "ready_session s"
    using assms(7) by (simp add: ready_session_def ws_connect_def new_session_def reset_def)
  have "\<exists>c1 c' k' s' t code. worker_session env ?opts (((c, k), new_session), [], [])
      = ((((c', k'), s'), marker_head env ?opts ?boot ?e @ t, []), Inr code)
    \<and> (code = None \<or> code = Some 4) \<and> admitted conn (worker_id ?opts) c c1 \<and> served c1 c'
    \<and> worker_room 33554432 m (rt_reservations (co_runtime c')) \<and> (plans be ?opts c1 \<longrightarrow> code = None)"
    using session_served [OF assms(9) whole _ _ _ assms(11) s, of ?opts m k "[]"] assms(4,8,12) by (simp add: proof_options_def)
  then obtain c1 c' k' s' t code where
    r: "worker_session env ?opts (((c, k), new_session), [], []) = ((((c', k'), s'), marker_head env ?opts ?boot ?e @ t, []), Inr code)"
      "code = None \<or> code = Some 4" "admitted conn (worker_id ?opts) c c1" "served c1 c'"
      "worker_room 33554432 m (rt_reservations (co_runtime c'))" "plans be ?opts c1 \<Longrightarrow> code = None" by blast
  have "marker_head env ?opts ?boot ?e = line [''CONNECT=ok''] @ line [''BOOT='', id_to_string ?boot, '' epoch='', std_to_string ?e]"
    using assms(1,6) by (simp add: marker_head_def marker_text_def proof_options_def)
  then have b: "marker_has (marker_head env ?opts ?boot ?e @ v) ''BOOT=''"
    "stoull (extract_value (marker_head env ?opts ?boot ?e @ v) ''BOOT='') = Some (id_value ?boot)" for v
    using has_boot [of "id_to_string ?boot" "std_to_string ?e" v] extract_boot [of ?boot "std_to_string ?e" v] by simp_all
  have args: "worker_args (spawned_args dir (worker_cmd i port mk)) default_worker_options = Some ?opts"
    using worker_cmd_understood [OF assms(1-3)] by (simp add: proof_options_def)
  have id: "worker_id ?opts = Id (ucast i)" "wo_port ?opts = port" "wo_hold ?opts" by (simp_all add: worker_id_def proof_options_def)
  note main = worker_main_def args id(2,3) assms(5) r(1) marker_eq
  show thesis
  proof (cases code)
    case None
    have "marker_text env ?opts [''DONE=true''] = ''DONE=true'' @ [CHR 0x0A]"
      using assms(1,6) by (simp add: marker_text_def line_def proof_options_def)
    then have "marker_has (marker_head env ?opts ?boot ?e @ t @ marker_text env ?opts [''DONE=true'']) ''DONE=true''"
      using has_part [of "marker_head env ?opts ?boot ?e @ t" "''DONE=true''" "[CHR 0x0A]"] by simp
    moreover have "worker_main env (spawned_args dir (worker_cmd i port mk)) (c, k) '''' = (Held, (c', k'),
        marker_head env ?opts ?boot ?e @ t @ marker_text env ?opts [''DONE=true''], line [''nf-worker '', std_to_string (wo_id ?opts), '' done''])"
      using None by (simp add: main)
    ultimately show thesis using that [OF _ r(3) [unfolded id] r(4,5)] b [of "t @ marker_text env ?opts [''DONE=true'']"] by simp
  next
    case (Some a)
    with r(2) have "worker_main env (spawned_args dir (worker_cmd i port mk)) (c, k) '''' = (Exited 4, (c', k'), marker_head env ?opts ?boot ?e @ t, '''')"
      by (simp add: main)
    then show thesis using that [OF _ r(3) [unfolded id] r(4,5)] b [of t] r(6) Some by auto
  qed
qed

text \<open>
  The boot that the proof program reads from the marker file is the one that the
  coordinator holds: a worker started with the command line of the program, served by a
  coordinator, ends in its holding loop (or with code 4 after a refused placement), so that both
  waits of the program for its marker file end, and the number after the first \<open>BOOT=\<close> of that
  file is the boot of a living worker there, under the identifier of the command line.
\<close>

theorem proof_reads_current_boot:
  fixes c :: "'b Coordinator"
  assumes "mk \<noteq> ''''" and "\<forall>ch\<in>set mk. \<not> blank ch" and "\<forall>ch\<in>set dir. \<not> blank ch" and "i \<noteq> 0" and "port \<noteq> 0" and "we_marker env"
    and "we_connect env = \<lparr>ce_startup = True, ce_socket = True, ce_connect = True\<rparr>" and "we_alloc env 33554432 = None"
    and "we_peer env = coordinator_peer be clock pieces conn" and "\<forall>bs. concat (pieces bs) = bs"
    and "wr_next_boot (registry_of c) \<noteq> 0" and "worker_room 33554432 1 (rt_reservations (co_runtime c))"
  shows "\<exists>how c' k' txt out b. worker_main env (spawned_args dir (worker_cmd i port mk)) (c, k) '''' = (how, (c', k'), txt, out)
    \<and> (how = Held \<and> marker_has txt ''DONE=true'' \<or> how = Exited 4) \<and> marker_has txt ''BOOT='' \<and> stoull (extract_value txt ''BOOT='') = Some b
    \<and> worker_boot c' (Id (ucast i)) = Some (Id b) \<and> worker_alive c' (Id (ucast i))"
proof -
  obtain how c1 c' k' tx out where
    r: "worker_main env (spawned_args dir (worker_cmd i port mk)) (c, k) '''' = (how, (c', k'), tx, out)"
      "admitted conn (Id (ucast i)) c c1" "served c1 c'" "how = Held \<and> marker_has tx ''DONE=true'' \<or> how = Exited 4"
      "marker_has tx ''BOOT=''" "stoull (extract_value tx ''BOOT='') = Some (wr_next_boot (registry_of c))"
    by (rule started_worker [where m = 0 and k = k, OF assms(1-11)]) (use assms(12) in auto)
  have "validate_boot (registry_of c') (Id (ucast i)) (Id (wr_next_boot (registry_of c)))"
    using admitted_boot [OF r(2)] served_parts(2) [OF r(3)] by simp
  then have "worker_boot c' (Id (ucast i)) = Some (Id (wr_next_boot (registry_of c))) \<and> worker_alive c' (Id (ucast i))"
    by (auto simp: validate_boot_def worker_boot_def worker_alive_def rt_worker_def find_worker_def split: option.splits)
  with r(1,4-6) show ?thesis by blast
qed

theorem proof_reads_current_boot_witness:
  "\<exists>how c' k' txt out b. worker_main sample_worker_env (spawned_args ''bin'' (worker_cmd 10 7000 ''proof_a.marker'')) (sample_served, 0) ''''
      = (how, (c', k'), txt, out)
    \<and> stoull (extract_value txt ''BOOT='') = Some b \<and> worker_boot c' (Id 10) = Some (Id b) \<and> worker_alive c' (Id 10)"
proof -
  have "worker_room 33554432 1 (rt_reservations (co_runtime sample_served))"
    using sample_served_room by (simp add: worker_room_def)
  then show ?thesis
    using proof_reads_current_boot [where mk = "''proof_a.marker''" and dir = "''bin''" and i = 10 and port = 7000 and env = sample_worker_env
      and be = make_synthetic_backend and clock = of_nat and pieces = "\<lambda>bs. [take 5 bs, drop 5 bs]" and conn = 2 and c = sample_served and k = 0]
    by (auto simp: blank_def sample_worker_env_def sample_served_fresh empty_registry_def)
qed

section \<open>What the probes tell\<close>

lemma authority_codes: "authority_code av = authority_code av' \<longleftrightarrow> av = av'"
  by (cases av; cases av') simp_all

lemma probe_error:
  assumes whole: "\<And>bs. concat (pieces bs) = bs"
    and d: "dispatch be (clock k) conn (request MT_PlacementRequest (w_placement (stale_wire i boot epoch))) c = (c', error_reply msg av)"
    and "length msg \<le> 30"
  shows "ws_last_error (fst (probe (coordinator_net be clock pieces conn (c, k)) i boot epoch))
    \<and> ws_last_error_code (fst (probe (coordinator_net be clock pieces conn (c, k)) i boot epoch)) = authority_code av"
proof -
  let ?net = "coordinator_net be clock pieces conn (c, k)" and ?q = "w_placement (stale_wire i boot epoch)"
  let ?s = "fst (ws_connect \<lparr>ce_startup = True, ce_socket = True, ce_connect = True\<rparr> new_session)"
  have small: "length ?q \<le> kMaxPayloadLength" by (simp add: kMaxPayloadLength_def)
  obtain bs where bs: "error_reply msg av = Inr bs" using error_reply_ok [of msg av] assms(3) by (auto simp: kMaxPayloadLength_def)
  then have "handle_frame be (clock k) conn (request MT_PlacementRequest ?q) c = (c', Inr bs)" by (simp add: handle_frame_def d)
  then have "concat (?net (frame_bytes (request MT_PlacementRequest ?q))) = bs" using whole by (simp add: coordinator_net_def peer_frame [OF small])
  from exchange_error [where net = ?net and s = ?s, OF _ _ small bs this] show ?thesis
    by (simp add: probe_def send_placement_def reply_with_def ws_connect_def new_session_def reset_def del: authority_code.simps)
qed

lemma probe_planned:
  assumes whole: "\<And>bs. concat (pieces bs) = bs" and "epoch = gen_value (rt_epoch (co_runtime c))" and "validate_boot (registry_of c) i boot"
    and "av \<noteq> AV_RejectedUnknown"
  shows "\<not> rejected_as av (fst (probe (coordinator_net be clock pieces conn (c, k)) i boot epoch))"
proof -
  let ?net = "coordinator_net be clock pieces conn (c, k)" and ?p = "stale_wire i boot epoch"
  let ?s = "fst (ws_connect \<lparr>ce_startup = True, ce_socket = True, ce_connect = True\<rparr> new_session)"
  let ?r = "rbind (rt_plan be (wire_request (co_runtime c) ?p) (co_runtime c)) (\<lambda>d. reply MT_PlacementReply (w_decision d))"
  have small: "length (w_placement ?p) \<le> kMaxPayloadLength" by (simp add: kMaxPayloadLength_def)
  have s: "ready_session ?s" "\<not> ws_last_error ?s" by (simp_all add: ready_session_def ws_connect_def new_session_def reset_def)
  have d: "dispatch be (clock k) conn (request MT_PlacementRequest (w_placement ?p)) c = (c, ?r)"
    using assms(2) authorized_valid [OF assms(3)] by (simp add: placement_dispatch stale_wire_def)
  consider e where "?r = Inl e" | q where "?r = reply MT_PlacementReply (w_decision q)" "length (w_decision q) \<le> kMaxPayloadLength"
    by (rule planned_reply)
  then show ?thesis
  proof cases
    case (1 e)
    then have h: "handle_frame be (clock k) conn (request MT_PlacementRequest (w_placement ?p)) c = (c, error_reply (what e) AV_RejectedUnknown)"
      by (simp add: handle_frame_def d)
    show ?thesis
    proof (cases "error_reply (what e) AV_RejectedUnknown")
      case (Inl e')
      then have "?net (frame_bytes (request MT_PlacementRequest (w_placement ?p))) = []" using h by (simp add: coordinator_net_def peer_frame [OF small])
      from exchange_silent [where net = ?net, OF s(1) small this] s(2) show ?thesis
        by (simp add: probe_def send_placement_def reply_with_def rejected_as_def)
    next
      case (Inr bs)
      then have "concat (?net (frame_bytes (request MT_PlacementRequest (w_placement ?p)))) = bs" using h whole by (simp add: coordinator_net_def peer_frame [OF small])
      from exchange_error [where net = ?net and s = ?s, OF _ _ small Inr this] s(1) assms(4) show ?thesis
        by (simp add: probe_def send_placement_def reply_with_def rejected_as_def ready_session_def authority_codes del: authority_code.simps)
    qed
  next
    case (2 q)
    have "exchange ?net MT_PlacementRequest (w_placement ?p) ?s = (?s, Inr (Some (request MT_PlacementReply (w_decision q))))"
      using call_answered [where clock = clock and k = k, OF s(1) small whole d [unfolded 2(1)] 2(2)] by simp
    with rd_decision [OF 2(2)] s(2) show ?thesis by (auto simp: probe_def send_placement_def reply_with_def rejected_as_def)
  qed
qed

lemma probe_exact:
  fixes c :: "'b Coordinator"
  assumes whole: "\<And>bs. concat (pieces bs) = bs"
  shows "(rejected_as AV_StaleEpoch (fst (probe (coordinator_net be clock pieces conn (c, k)) i boot epoch))
      \<longleftrightarrow> epoch \<noteq> gen_value (rt_epoch (co_runtime c)))
    \<and> (rejected_as AV_StaleBoot (fst (probe (coordinator_net be clock pieces conn (c, k)) i boot epoch))
      \<longleftrightarrow> epoch = gen_value (rt_epoch (co_runtime c)) \<and> \<not> validate_boot (registry_of c) i boot)"
proof -
  let ?net = "coordinator_net be clock pieces conn (c, k)" and ?p = "stale_wire i boot epoch" and ?rt = "co_runtime c"
  let ?s = "fst (ws_connect \<lparr>ce_startup = True, ce_socket = True, ce_connect = True\<rparr> new_session)"
  have s: "ready_session ?s" "\<not> ws_last_error ?s" by (simp_all add: ready_session_def ws_connect_def new_session_def reset_def)
  consider (epoch) "epoch \<noteq> gen_value (rt_epoch ?rt)" | (boot) "epoch = gen_value (rt_epoch ?rt)" "\<not> validate_boot (registry_of c) i boot"
    | (plan) "epoch = gen_value (rt_epoch ?rt)" "validate_boot (registry_of c) i boot" by blast
  then show ?thesis
  proof cases
    case epoch
    then have d: "dispatch be (clock k) conn (request MT_PlacementRequest (w_placement ?p)) c = (c, error_reply ''stale coordinator epoch'' AV_StaleEpoch)"
      by (simp add: placement_dispatch stale_wire_def)
    have "rejected_as AV_StaleEpoch (fst (probe ?net i boot epoch))" "\<not> rejected_as AV_StaleBoot (fst (probe ?net i boot epoch))"
      using probe_error [where clock = clock and k = k, OF whole d] by (simp_all add: rejected_as_def)
    with epoch show ?thesis by simp
  next
    case boot
    then have d: "dispatch be (clock k) conn (request MT_PlacementRequest (w_placement ?p)) c = (c, error_reply ''stale placement authority'' AV_StaleBoot)"
      by (simp add: placement_dispatch stale_wire_def authorized_def validate_authority_iff)
    have "rejected_as AV_StaleBoot (fst (probe ?net i boot epoch))" "\<not> rejected_as AV_StaleEpoch (fst (probe ?net i boot epoch))"
      using probe_error [where clock = clock and k = k, OF whole d] by (simp_all add: rejected_as_def)
    with boot show ?thesis by simp
  next
    case plan
    have "\<not> rejected_as av (fst (probe ?net i boot epoch))" if "av \<noteq> AV_RejectedUnknown" for av
      using probe_planned [OF whole plan that] .
    with plan show ?thesis by simp
  qed
qed

text \<open>
  C13. The probes of the proof program are exact: over any connection to a coordinator, the
  program sees a refused epoch exactly when the epoch it replays is not the current one, and
  a refused boot exactly when the epoch is current but the boot is not that of a living
  incarnation of the worker.
\<close>

theorem stale_probes_exact:
  fixes c :: "'b Coordinator"
  assumes "\<forall>bs. concat (pieces bs) = bs"
  shows "(rejected_as AV_StaleEpoch (fst (probe (coordinator_net be clock pieces conn (c, k)) i boot epoch))
      \<longleftrightarrow> epoch \<noteq> gen_value (rt_epoch (co_runtime c)))
    \<and> (rejected_as AV_StaleBoot (fst (probe (coordinator_net be clock pieces conn (c, k)) i boot epoch))
      \<longleftrightarrow> epoch = gen_value (rt_epoch (co_runtime c)) \<and> \<not> validate_boot (registry_of c) i boot)"
  using assms by (intro probe_exact) blast

theorem stale_probes_exact_witness:
  "rejected_as AV_StaleEpoch (fst (probe (coordinator_net make_synthetic_backend of_nat (\<lambda>bs. [bs]) 3 (sample_coordinator, 0)) (Id 1) (Id 1) 9))
   \<and> rejected_as AV_StaleBoot (fst (probe (coordinator_net make_synthetic_backend of_nat (\<lambda>bs. [bs]) 3 (sample_coordinator, 0)) (Id 1) (Id 2)
        (gen_value (rt_epoch (co_runtime sample_coordinator)))))"
proof -
  have "gen_value (rt_epoch (co_runtime sample_coordinator)) \<noteq> 9" "\<not> validate_boot (registry_of sample_coordinator) (Id 1) (Id 2)" by code_simp+
  then show ?thesis
    using stale_probes_exact [where pieces = "\<lambda>bs. [bs]" and be = make_synthetic_backend and clock = of_nat and conn = 3 and c = sample_coordinator
      and k = 0 and i = "Id 1"] by simp
qed


section \<open>The restarted coordinator\<close>


definition sample_saved :: "HostTopology \<Rightarrow> SyntheticBackend Runtime" where
  "sample_saved h = fst (rt_register_worker (Id 10) (Id 7) ((new_runtime (new_synthetic (cli_config 2 8)))\<lparr>rt_topo := h\<rparr>))"

lemma sample_saved_parts: "rt_topo (sample_saved h) = h" "rt_reservations (sample_saved h) = empty_store"
  "rt_registry (sample_saved h) = fst (register_worker (Id 10) (Id 7) empty_registry)"
  by (simp_all add: sample_saved_def rt_register_worker_def new_runtime_def split: prod.split sum.split)

lemma sample_saved_registry: "registry_inv (fst (register_worker (Id 10) (Id 7) empty_registry))"
   "map wk_id (all_workers (fst (register_worker (Id 10) (Id 7) empty_registry))) = [Id 10]"
   "validate_boot (fst (register_worker (Id 10) (Id 7) empty_registry)) (Id 10) (Id 1)"
proof -
  have "wr_next_boot empty_registry \<noteq> - 1" by (simp add: empty_registry_def)
  then have "registry_step empty_registry (fst (register_worker (Id 10) (Id 7) empty_registry))" using registry_step.register prod.collapse by metis
  then show "registry_inv (fst (register_worker (Id 10) (Id 7) empty_registry))" using boot_ids.step_inv empty_registry_inv by blast
qed code_simp+

lemma sample_saved_persistable: "persistable (persisted_state (sample_saved h))"
  using sample_saved_registry(2)
  by (auto simp: sample_saved_parts persistable_def persisted_state_def persisted_worker_def all_reservations_def empty_store_def om_single map_eq_Cons_conv kMaxPersistedRecords_def)


end
