(* ===== verification/Proof_Run.thy ===== *)
theory Proof_Run
  imports Nf_Proof
begin

text \<open>
  The whole run of \<open>apps/proof/main.cpp\<close>: what each stage of the scenario does to the coordinator,
  and that the program passes, through two coordinators and four worker processes.
\<close>

section \<open>Placements on the host of the scenario\<close>

definition proof_request :: PlacementRequest where
  "proof_request = default_request\<lparr>pq_workload_id := ''coordinated'', pq_memory_footprint := Quantity 33554432,
     pq_preferred_node := Id 0, pq_required_node := Id 0, pq_has_required_node := False, pq_require_accelerator_locality := False,
     pq_preferred_accelerator := Id 0, pq_required_cpu_count := 0, pq_allow_fallback := True, pq_policy_generation := Generation 2,
     pq_revalidation_pending := False\<rparr>"

definition proof_plan :: "PlacementDecision result" where
  "proof_plan = rbind (discover_host (cli_config 2 8)) (\<lambda>h.
     rt_plan make_synthetic_backend proof_request ((new_runtime (new_synthetic (cli_config 2 8)))\<lparr>rt_topo := h\<rparr>))"

lemma proof_plan_small: "case proof_plan of Inl _ \<Rightarrow> False | Inr d \<Rightarrow> length (w_decision d) \<le> 1000"
  by code_simp

definition quiet :: "HostTopology \<Rightarrow> 'b Coordinator \<Rightarrow> bool" where
  "quiet h c \<longleftrightarrow> rt_topo (co_runtime c) = h \<and> rt_accelerators (co_runtime c) = [] \<and> rt_policy_generation (co_runtime c) = 1
     \<and> (\<forall>i r. om_find (sto_reservations (rt_reservations (co_runtime c))) i = Some r \<longrightarrow> \<not> rs_active r)"

lemma reserved_by_inactive: "\<forall>r\<in>set rs. \<not> rs_active r \<Longrightarrow> reserved_by rs m = Inr m"
  by (induction rs) simp_all

lemma none_active:
  assumes "\<forall>i r. om_find (sto_reservations st) i = Some r \<longrightarrow> \<not> rs_active r"
  shows "\<forall>r\<in>set (all_reservations st). \<not> rs_active r"
  using assms by (auto simp: all_reservations_def om_values_set)

lemma small_payload: "(1000 :: nat) \<le> kMaxPayloadLength"
  by (simp add: kMaxPayloadLength_def)

lemma quiet_plan_answered:
  assumes h: "discover_host (cli_config 2 8) = Inr h" and "quiet h c"
  shows "plan_answered make_synthetic_backend (worker_placement (proof_options i port mk) reg) c"
proof -
  let ?fresh = "(new_runtime (new_synthetic (cli_config 2 8)))\<lparr>rt_topo := h\<rparr>" and ?s = "co_runtime c"
  have "wire_request ?s (worker_placement (proof_options i port mk) reg) = proof_request"
    using assms(2) by (simp add: quiet_def wire_request_def worker_placement_def proof_options_def proof_request_def)
  moreover have "reserved_by (all_reservations (rt_reservations ?s)) om_empty = Inr om_empty"
    using assms(2) by (intro reserved_by_inactive none_active) (simp add: quiet_def)
  moreover have "all_reservations (rt_reservations ?fresh) = []" by (simp add: new_runtime_def all_reservations_def empty_store_def om_single)
  ultimately have "rt_plan make_synthetic_backend (wire_request ?s (worker_placement (proof_options i port mk) reg)) ?s = proof_plan"
    using assms by (simp add: rt_plan_def build_placement_model_def quiet_def proof_plan_def new_runtime_def rbind_def)
  moreover obtain d where "proof_plan = Inr d" "length (w_decision d) \<le> 1000" using proof_plan_small by (auto split: sum.splits)
  ultimately show ?thesis by (metis (mono_tags, lifting) plan_answered_def small_payload le_trans sum.case(2))
qed

lemma quiet_served: "quiet h c \<Longrightarrow> served c c' \<Longrightarrow> quiet h c'"
  by (auto simp: quiet_def served_def same_reservations_def)

lemma quiet_plans: "discover_host (cli_config 2 8) = Inr h \<Longrightarrow> quiet h c \<Longrightarrow> plans make_synthetic_backend (proof_options i port mk) c"
  unfolding plans_def using quiet_plan_answered quiet_served by blast

section \<open>The steps of the scenario\<close>

lemma accepted:
  assumes "accept_connection c = (c', conn)"
  shows "conn = co_next_conn c + 1" and "co_next_conn c' = co_next_conn c + 1" and "co_runtime c' = co_runtime c"
    and "co_conns c' = om_insert conn fresh_conn (co_conns c)"
  using assms by (auto simp: accept_connection_def Let_def)

lemma fresh_lost: "om_find (co_conns c) conn = Some fresh_conn \<Longrightarrow> lose_connection conn c = c\<lparr>co_conns := om_erase conn (co_conns c)\<rparr>"
  by (simp add: lose_connection_def fresh_conn_def)

text \<open>A worker that was started: the program reads the next boot, the worker lives with it over a
  connection of its own, and all else is as before.\<close>

definition started :: "WorkerId \<Rightarrow> u64 \<Rightarrow> 'b Coordinator \<Rightarrow> 'b Coordinator \<Rightarrow> bool" where
  "started i conn c c' \<longleftrightarrow>
     (let boot = Id (wr_next_boot (registry_of c)) in
      conn = co_next_conn c + 1 \<and> co_next_conn c' = co_next_conn c + 1
      \<and> (\<exists>w. om_find (wr_workers (registry_of c')) i = Some w \<and> wk_alive w \<and> wk_boot_id w = boot)
      \<and> (\<forall>j. j \<noteq> i \<longrightarrow> om_find (wr_workers (registry_of c')) j = om_find (wr_workers (registry_of c)) j)
      \<and> wr_next_boot (registry_of c') = wr_next_boot (registry_of c) + 1
      \<and> (wr_next_boot (registry_of c) \<noteq> - 1 \<longrightarrow> registry_step (registry_of c) (registry_of c'))
      \<and> (\<forall>j. om_find (co_conns c') j = (if j = conn then Some \<lparr>cs_worker_id = i, cs_boot = boot, cs_is_worker = True\<rparr> else om_find (co_conns c) j))
      \<and> rt_epoch (co_runtime c') = rt_epoch (co_runtime c))"

lemma quiet_admitted: "quiet h c \<Longrightarrow> admitted conn i c c' \<Longrightarrow> quiet h c'"
  by (auto simp: quiet_def admitted_def Let_def)

lemma spawn_started:
  fixes c :: "SyntheticBackend Coordinator"
  assumes h: "discover_host (cli_config 2 8) = Inr h" and "quiet h c" and "worker_room 33554432 (Suc m) (rt_reservations (co_runtime c))"
    and "wr_next_boot (registry_of c) \<noteq> 0" and mk: "mk \<noteq> ''''" "\<forall>ch\<in>set mk. \<not> blank ch" and "i \<noteq> 0" and "port \<noteq> 0"
    and pv: "\<forall>ch\<in>set (exe_dir (pv_self pv)). \<not> blank ch" "pv_alloc pv 33554432 = None" "\<forall>bs. concat (pv_pieces pv bs) = bs"
  obtains c' k' conn content where "spawn_worker pv port i mk (c, k) = ((c', k'), conn, content)"
    and "marker_has content ''BOOT=''" and "marker_has content ''DONE=true''" and "stoull (extract_value content ''BOOT='') = Some (wr_next_boot (registry_of c))"
    and "started (Id (ucast i)) conn c c'" and "quiet h c'" and "worker_room 33554432 m (rt_reservations (co_runtime c'))"
proof -
  obtain a conn where acc: "accept_connection c = (a, conn)" by fastforce
  note a = accepted [OF acc]
  let ?env = "worker_env pv mk conn"
  obtain how c1 c' k' content out where
    w: "worker_main ?env (spawned_args (exe_dir (pv_self pv)) (worker_cmd i port mk)) (a, k) '''' = (how, (c', k'), content, out)"
      "admitted conn (Id (ucast i)) a c1" "served c1 c'" "worker_room 33554432 m (rt_reservations (co_runtime c'))"
      "how = Held \<and> marker_has content ''DONE=true'' \<or> how = Exited 4 \<and> \<not> plans make_synthetic_backend (proof_options i port mk) c1"
      "marker_has content ''BOOT=''" "stoull (extract_value content ''BOOT='') = Some (wr_next_boot (registry_of a))"
    by (rule started_worker [where env = ?env and be = make_synthetic_backend and clock = "pv_clock pv" and pieces = "pv_pieces pv" and conn = conn
          and c = a and k = k and m = m, OF mk pv(1) assms(7,8)])
      (use assms(3,4) pv(2,3) a(3) in \<open>auto simp: worker_env_def\<close>)
  have q: "quiet h a" using assms(2) a(3) by (simp add: quiet_def)
  have "how = Held" "marker_has content ''DONE=true''" using w(5) quiet_plans [OF h quiet_admitted [OF q w(2)]] by auto
  moreover have "started (Id (ucast i)) conn c c'"
    using w(2) served_parts(2-4) [OF w(3)] w(3) a by (auto simp: started_def admitted_def Let_def served_def)
  moreover have "quiet h c'" by (rule quiet_served [OF quiet_admitted [OF q w(2)] w(3)])
  ultimately show thesis using that w(1,4,6,7) a(3) acc by (simp add: spawn_worker_def)
qed

text \<open>What stays fixed: the host, room for \<open>m\<close> more workers, the next boot \<open>nb\<close>, the last connection \<open>nc\<close>
  and the epoch \<open>e\<close>. And a worker that lives over a connection.\<close>

definition scene :: "HostTopology \<Rightarrow> nat \<Rightarrow> u64 \<Rightarrow> u64 \<Rightarrow> u64 \<Rightarrow> 'b Coordinator \<Rightarrow> bool" where
  "scene h m nb nc e c \<longleftrightarrow> quiet h c \<and> worker_room 33554432 m (rt_reservations (co_runtime c)) \<and> registry_inv (registry_of c)
     \<and> wr_next_boot (registry_of c) = nb \<and> co_next_conn c = nc \<and> rt_epoch (co_runtime c) = Generation e
     \<and> (\<forall>j. j \<noteq> Id 10 \<longrightarrow> j \<noteq> Id 20 \<longrightarrow> om_find (wr_workers (registry_of c)) j = None)"

definition lives :: "WorkerId \<Rightarrow> u64 \<Rightarrow> u64 \<Rightarrow> 'b Coordinator \<Rightarrow> bool" where
  "lives i b conn c \<longleftrightarrow> (\<exists>w. om_find (wr_workers (registry_of c)) i = Some w \<and> wk_alive w \<and> wk_boot_id w = Id b)
     \<and> om_find (co_conns c) conn = Some \<lparr>cs_worker_id = i, cs_boot = Id b, cs_is_worker = True\<rparr>"

lemma lives_holds: "lives i b conn c \<Longrightarrow> worker_alive c i \<and> worker_boot c i = Some (Id b)"
  by (auto simp: lives_def worker_alive_def worker_boot_def rt_worker_def find_worker_def)

lemma lives_boot: "lives i b conn c \<Longrightarrow> validate_boot (registry_of c) i (Id b') \<longleftrightarrow> b' = b"
  by (auto simp: lives_def validate_boot_def)

definition proof_ready :: "ProofEnv \<Rightarrow> bool" where
  "proof_ready pv \<longleftrightarrow> (\<forall>ch\<in>set (exe_dir (pv_self pv)). \<not> blank ch) \<and> pv_alloc pv 33554432 = None \<and> (\<forall>bs. concat (pv_pieces pv bs) = bs)"

lemma spawn_scene:
  fixes c :: "SyntheticBackend Coordinator"
  assumes "discover_host (cli_config 2 8) = Inr h" and "proof_ready pv" and s: "scene h (Suc m) nb nc e c" and "nb \<noteq> 0" "nb \<noteq> - 1"
    and "mk \<noteq> ''''" "\<forall>ch\<in>set mk. \<not> blank ch" and i: "i = 10 \<or> i = 20" and "port \<noteq> 0"
  obtains c' k' content where "spawn_worker pv port i mk (c, k) = ((c', k'), nc + 1, content)"
    and "marker_has content ''BOOT=''" and "marker_has content ''DONE=true''" and "stoull (extract_value content ''BOOT='') = Some nb"
    and "scene h m (nb + 1) (nc + 1) e c'" and "lives (Id (ucast i)) nb (nc + 1) c'"
    and "\<And>j b conn. j \<noteq> Id (ucast i) \<Longrightarrow> conn \<noteq> nc + 1 \<Longrightarrow> lives j b conn c \<Longrightarrow> lives j b conn c'"
proof -
  from s have q: "quiet h c" "worker_room 33554432 (Suc m) (rt_reservations (co_runtime c))" "wr_next_boot (registry_of c) \<noteq> 0"
    using assms(4) by (simp_all add: scene_def)
  have "i \<noteq> 0" using i by auto
  obtain c' k' conn content where w: "spawn_worker pv port i mk (c, k) = ((c', k'), conn, content)"
    "marker_has content ''BOOT=''" "marker_has content ''DONE=true''" "stoull (extract_value content ''BOOT='') = Some (wr_next_boot (registry_of c))"
    "started (Id (ucast i)) conn c c'" "quiet h c'" "worker_room 33554432 m (rt_reservations (co_runtime c'))"
    by (rule spawn_started [OF assms(1) q assms(6,7) \<open>i \<noteq> 0\<close> assms(9), where k = k and pv = pv]) (use assms(2) in \<open>auto simp: proof_ready_def\<close>)
  have "registry_inv (registry_of c')"
    using w(5) s assms(5) boot_ids.step_inv by (auto simp: started_def scene_def Let_def)
  moreover have id: "Id (ucast i) = (Id 10 :: WorkerId) \<or> Id (ucast i) = (Id 20 :: WorkerId)" using i by auto
  ultimately have "scene h m (nb + 1) (nc + 1) e c'" using w(5-7) s by (auto simp: scene_def started_def Let_def)
  moreover have "lives (Id (ucast i)) nb (nc + 1) c'" using w(5) s by (auto simp: scene_def started_def lives_def Let_def)
  moreover have "lives j b cn c'" if "j \<noteq> Id (ucast i)" "cn \<noteq> nc + 1" "lives j b cn c" for j b cn
    using that w(5) s by (auto simp: scene_def started_def lives_def Let_def)
  moreover have "conn = nc + 1" "wr_next_boot (registry_of c) = nb" using w(5) s by (auto simp: scene_def started_def Let_def)
  ultimately show thesis using that w(1-4) by blast
qed

lemma kill_scene:
  assumes s: "scene h m nb nc e c" and l: "lives i b conn c" and i: "i = Id 10 \<or> i = Id 20"
  shows "scene h m nb nc e (lose_connection conn c)" and "\<not> worker_alive (lose_connection conn c) i"
    and "\<And>b'. \<not> validate_boot (registry_of (lose_connection conn c)) i b'"
    and "\<And>j b' cn. j \<noteq> i \<Longrightarrow> cn \<noteq> conn \<Longrightarrow> lives j b' cn c \<Longrightarrow> lives j b' cn (lose_connection conn c)"
proof -
  obtain w where w: "om_find (wr_workers (registry_of c)) i = Some w" "wk_boot_id w = Id b" using l by (auto simp: lives_def)
  have "id_valid i" using i by (auto simp: id_valid_def)
  then have c': "lose_connection conn c = c\<lparr>co_runtime := mark_worker_dead i (Id b) (co_runtime c), co_conns := om_erase conn (co_conns c)\<rparr>"
    using l by (simp add: lose_connection_def lives_def)
  have g: "registry_of (lose_connection conn c) = mark_dead i (Id b) (registry_of c)" by (simp add: c' mark_worker_dead_def)
  have f: "om_find (wr_workers (mark_dead i (Id b) (registry_of c))) j
      = (if j = i then Some (w\<lparr>wk_alive := False\<rparr>) else om_find (wr_workers (registry_of c)) j)" for j
    using w by (simp add: mark_dead_def)
  have "registry_inv (mark_dead i (Id b) (registry_of c))" using s boot_ids.step_inv [OF registry_step.dead] by (simp add: scene_def)
  moreover have "wr_next_boot (mark_dead i (Id b) (registry_of c)) = wr_next_boot (registry_of c)" using w by (simp add: mark_dead_def)
  ultimately show "scene h m nb nc e (lose_connection conn c)"
    using s i unfolding scene_def g by (auto simp: quiet_def c' mark_worker_dead_def f)
  show "\<not> worker_alive (lose_connection conn c) i" by (simp add: worker_alive_def rt_worker_def find_worker_def g f)
  show "\<not> validate_boot (registry_of (lose_connection conn c)) i b'" for b' by (simp add: validate_boot_def g f)
  show "lives j b' cn (lose_connection conn c)" if "j \<noteq> i" "cn \<noteq> conn" "lives j b' cn c" for j b' cn
    using that unfolding lives_def g by (simp add: f c')
qed

lemma replay_scene:
  assumes "proof_ready pv" and s: "scene h m nb nc e c"
  obtains v c' k' where "\<forall>nxt. replay pv i boot epoch nxt (c, k) = nxt v (c', k')"
    and "scene h m nb (nc + 1) e c'" and "co_runtime c' = co_runtime c" and "\<forall>j b cn. cn \<noteq> nc + 1 \<longrightarrow> lives j b cn c \<longrightarrow> lives j b cn c'"
    and "rejected_as AV_StaleEpoch v \<longleftrightarrow> epoch \<noteq> e" and "rejected_as AV_StaleBoot v \<longleftrightarrow> epoch = e \<and> \<not> validate_boot (registry_of c) i boot"
proof -
  let ?be = make_synthetic_backend and ?wire = "stale_wire i boot epoch"
  have whole: "concat (pv_pieces pv bs) = bs" for bs using assms(1) by (simp add: proof_ready_def)
  obtain a conn where acc: "accept_connection c = (a, conn)" by fastforce
  note a = accepted [OF acc]
  let ?s = "fst (ws_connect \<lparr>ce_startup = True, ce_socket = True, ce_connect = True\<rparr> new_session)"
  let ?net = "coordinator_net ?be (pv_clock pv) (pv_pieces pv) conn (a, k)"
  have ready: "ready_session ?s" by (simp add: ready_session_def ws_connect_def new_session_def reset_def)
  have small: "length (w_placement ?wire) \<le> kMaxPayloadLength" by (simp add: kMaxPayloadLength_def)
  from placement_call [OF ready whole, of ?be "pv_clock pv" conn a k ?wire] obtain v place where
    v: "probe ?net i boot epoch = (v, Inr place)"
    and "fst (dispatch ?be (pv_clock pv k) conn (request MT_PlacementRequest (w_placement ?wire)) a) = a" by (auto simp: probe_def)
  then have after: "peer_after (coordinator_peer ?be (pv_clock pv) (pv_pieces pv) conn) MT_PlacementRequest (w_placement ?wire) (a, k) = (a, Suc k)"
    by (simp add: peer_after_frame [OF small])
  let ?c = "a\<lparr>co_conns := om_erase conn (co_conns a)\<rparr>"
  have lost: "lose_connection conn a = ?c" by (rule fresh_lost) (simp add: a(4))
  have run: "replay pv i boot epoch nxt (c, k) = nxt v (?c, Suc k)" for nxt
    by (simp add: replay_def acc Let_def v after lost)
  have verdict: "(rejected_as AV_StaleEpoch v \<longleftrightarrow> epoch \<noteq> e) \<and> (rejected_as AV_StaleBoot v \<longleftrightarrow> epoch = e \<and> \<not> validate_boot (registry_of c) i boot)"
    using probe_exact [OF whole, of ?be "pv_clock pv" conn a k i boot epoch, unfolded v] s a(3) by (simp add: scene_def)
  show thesis
  proof (rule that [of v ?c "Suc k"])
    show "\<forall>nxt. replay pv i boot epoch nxt (c, k) = nxt v (?c, Suc k)" using run by blast
    show "scene h m nb (nc + 1) e ?c" using s a by (auto simp: scene_def quiet_def)
    show "\<forall>j b cn. cn \<noteq> nc + 1 \<longrightarrow> lives j b cn c \<longrightarrow> lives j b cn ?c" using s a by (auto simp: lives_def scene_def)
  qed (use verdict a(3) in auto)
qed

section \<open>The stages\<close>

lemma stage_workers:
  fixes c :: "SyntheticBackend Coordinator"
  assumes h: "discover_host (cli_config 2 8) = Inr h" and pv: "proof_ready pv" and s: "scene h (Suc (Suc m)) 1 nc e c" and "port \<noteq> 0"
  obtains c' k' where "start_workers pv port (c, k) = Inr (Id 1, nc + 1, Id 2, nc + 2, (c', k'))"
    and "scene h m 3 (nc + 2) e c'" and "lives (Id 10) 1 (nc + 1) c'" and "lives (Id 20) 2 (nc + 2) c'"
proof -
  obtain ca ka fa where a: "spawn_worker pv port 10 ''proof_a.marker'' (c, k) = ((ca, ka), nc + 1, fa)" "marker_has fa ''BOOT=''" "marker_has fa ''DONE=true''"
    "stoull (extract_value fa ''BOOT='') = Some 1" "scene h (Suc m) 2 (nc + 1) e ca" "lives (Id 10) 1 (nc + 1) ca"
    by (rule spawn_scene [OF h pv s, of "''proof_a.marker''" 10 port k]) (use assms(4) in \<open>simp_all add: blank_def\<close>)
  obtain cb kb fb where b: "spawn_worker pv port 20 ''proof_b.marker'' (ca, ka) = ((cb, kb), nc + 1 + 1, fb)" "marker_has fb ''BOOT=''" "marker_has fb ''DONE=true''"
    "stoull (extract_value fb ''BOOT='') = Some 2" "scene h m 3 (nc + 1 + 1) e cb" "lives (Id 20) 2 (nc + 1 + 1) cb"
    "\<And>j b conn. j \<noteq> Id 20 \<Longrightarrow> conn \<noteq> nc + 1 + 1 \<Longrightarrow> lives j b conn ca \<Longrightarrow> lives j b conn cb"
    by (rule spawn_scene [OF h pv a(5), of "''proof_b.marker''" 20 port ka]) (use assms(4) in \<open>simp_all add: blank_def\<close>)
  have "lives (Id 10) 1 (nc + 1) cb" using b(7) [OF _ _ a(6)] by simp
  with a b lives_holds [OF this] show thesis
    by (intro that [of cb kb]) (simp_all add: start_workers_def wait_marker_def read_boot_def demand_def holds_authority_def add.assoc)
qed

lemma stage_loss:
  assumes "scene h m nb nc e c" and "lives (Id 10) a connA c" and "lives (Id 20) b connB c" and "connB \<noteq> connA"
  obtains c' where "lose_first connA (Id b) (c, k) = Inr (c', k)" and "scene h m nb nc e c'" and "lives (Id 20) b connB c'"
    and "\<And>boot. \<not> validate_boot (registry_of c') (Id 10) boot"
proof -
  note kill = kill_scene [OF assms(1,2)]
  have "lives (Id 20) b connB (lose_connection connA c)" using kill(4) assms(3,4) by simp
  with kill(1-3) lives_holds [OF this] show thesis
    by (intro that [of "lose_connection connA c"]) (simp_all add: lose_first_def kill_process_def demand_def holds_authority_def)
qed

lemma stage_stale:
  assumes pv: "proof_ready pv" and s: "scene h m nb nc e c" and "e \<noteq> - 1" and "lives (Id 20) b connB c" and "connB \<noteq> nc + 1" "connB \<noteq> nc + 2"
    and dead: "\<not> validate_boot (registry_of c) (Id 10) a"
  obtains c' k' where "replay_stale pv a (Id b) (c, k) = Inr (e + 1, (c', k'))" and "scene h m nb (nc + 2) (e + 1) c'"
    and "lives (Id 20) b connB c'"
proof -
  let ?c = "c\<lparr>co_runtime := (co_runtime c)\<lparr>rt_epoch := Generation (e + 1)\<rparr>\<rparr>"
  have adv: "advance_epoch (co_runtime c) = (co_runtime ?c, Inr ())" "gen_value (rt_epoch (co_runtime c)) = e"
    using s assms(3) by (simp_all add: scene_def advance_epoch_def gen_next_def)
  have "scene h m nb nc (e + 1) ?c" using s by (simp add: scene_def quiet_def)
  then obtain v1 c1 k1 where r1: "\<forall>nxt :: WorkerSession \<Rightarrow> proof_state \<Rightarrow> (u64 \<times> proof_state) proof_step. replay pv (Id 20) (Id b) e nxt (?c, k) = nxt v1 (c1, k1)" "scene h m nb (nc + 1) (e + 1) c1"
    "co_runtime c1 = co_runtime ?c" "\<forall>j b cn. cn \<noteq> nc + 1 \<longrightarrow> lives j b cn ?c \<longrightarrow> lives j b cn c1" "rejected_as AV_StaleEpoch v1 \<longleftrightarrow> e \<noteq> e + 1"
    "rejected_as AV_StaleBoot v1 \<longleftrightarrow> e = e + 1 \<and> \<not> validate_boot (registry_of ?c) (Id 20) (Id b)"
    by (rule replay_scene [OF pv, where i = "Id 20" and boot = "Id b" and epoch = e and k = k])
  obtain v2 c2 k2 where r2: "\<forall>nxt :: WorkerSession \<Rightarrow> proof_state \<Rightarrow> (u64 \<times> proof_state) proof_step. replay pv (Id 10) a (e + 1) nxt (c1, k1) = nxt v2 (c2, k2)" "scene h m nb (nc + 1 + 1) (e + 1) c2"
    "co_runtime c2 = co_runtime c1" "\<forall>j b cn. cn \<noteq> nc + 1 + 1 \<longrightarrow> lives j b cn c1 \<longrightarrow> lives j b cn c2" "rejected_as AV_StaleEpoch v2 \<longleftrightarrow> e + 1 \<noteq> e + 1"
    "rejected_as AV_StaleBoot v2 \<longleftrightarrow> e + 1 = e + 1 \<and> \<not> validate_boot (registry_of c1) (Id 10) a"
    by (rule replay_scene [OF pv r1(2), where i = "Id 10" and boot = a and epoch = "e + 1" and k = k1])
  have "lives (Id 20) b connB ?c" using assms(4) by (simp add: lives_def)
  then have "lives (Id 20) b connB c2" using r1(4) r2(4) assms(5,6) by (simp add: add.assoc)
  moreover have "replay_stale pv a (Id b) (c, k) = Inr (e + 1, (c2, k2))"
    using r1(3,5) r2(6) dead by (simp add: replay_stale_def adv r1(1) r2(1) demand_def)
  ultimately show thesis using that r2(2) by (simp add: add.assoc)
qed

lemma stage_restart:
  fixes c :: "SyntheticBackend Coordinator"
  assumes h: "discover_host (cli_config 2 8) = Inr h" and pv: "proof_ready pv" and s: "scene h (Suc m) nb nc e c" and "nb \<noteq> 0" "nb \<noteq> - 1"
    and "port \<noteq> 0" and "a \<noteq> nb" and "lives (Id 20) b connB c" and "connB \<noteq> nc + 1" "connB \<noteq> nc + 2"
  obtains c' k' where "restart_first pv port (Id a) e (c, k) = Inr (nc + 1, (c', k'))" and "scene h m (nb + 1) (nc + 2) e c'"
    and "lives (Id 10) nb (nc + 1) c'" and "lives (Id 20) b connB c'"
proof -
  obtain c1 k1 f where w: "spawn_worker pv port 10 ''proof_a2.marker'' (c, k) = ((c1, k1), nc + 1, f)" "marker_has f ''BOOT=''" "marker_has f ''DONE=true''"
    "stoull (extract_value f ''BOOT='') = Some nb" "scene h m (nb + 1) (nc + 1) e c1" "lives (Id 10) nb (nc + 1) c1" "lives (Id 20) b connB c1"
    by (rule spawn_scene [OF h pv s assms(4,5), of "''proof_a2.marker''" 10 port k]) (use assms(6,8,9) in \<open>simp_all add: blank_def\<close>)
  obtain v c2 k2 where r: "\<forall>nxt :: WorkerSession \<Rightarrow> proof_state \<Rightarrow> (u64 \<times> proof_state) proof_step. replay pv (Id 10) (Id a) e nxt (c1, k1) = nxt v (c2, k2)"
    "scene h m (nb + 1) (nc + 1 + 1) e c2" "co_runtime c2 = co_runtime c1" "\<forall>j b cn. cn \<noteq> nc + 1 + 1 \<longrightarrow> lives j b cn c1 \<longrightarrow> lives j b cn c2"
    "rejected_as AV_StaleEpoch v \<longleftrightarrow> e \<noteq> e" "rejected_as AV_StaleBoot v \<longleftrightarrow> e = e \<and> \<not> validate_boot (registry_of c1) (Id 10) (Id a)"
    by (rule replay_scene [OF pv w(5), where i = "Id 10" and boot = "Id a" and epoch = e and k = k1])
  have "rejected_as AV_StaleBoot v" using r(6) lives_boot [OF w(6)] assms(7) by simp
  then have "ws_last_error v" by (simp add: rejected_as_def)
  then have "restart_first pv port (Id a) e (c, k) = Inr (nc + 1, (c2, k2))"
    using w(1-4) r(1) assms(7) by (simp add: restart_first_def wait_marker_def read_boot_def demand_def)
  then show thesis using that r(2,4) w(6,7) assms(9,10) by (simp add: add.assoc)
qed

lemma quiet_persisted:
  assumes "scene h m nb nc e c"
  shows "persistable (persisted_state (co_runtime c))" and "st_reservations (persisted_state (co_runtime c)) = []"
    and "node_reserved (co_runtime c) n = 0"
proof -
  let ?st = "rt_reservations (co_runtime c)" and ?g = "registry_of c"
  have none: "filter rs_active (all_reservations ?st) = []" using none_active [of ?st] assms by (auto simp: scene_def quiet_def filter_empty_conv)
  then show res: "st_reservations (persisted_state (co_runtime c)) = []" by (simp add: persisted_state_def)
  have "store_inv ?st" using assms by (simp add: scene_def worker_room_def)
  from store_inv_counters(1) [OF this, of n] none have "unat (node_reserved_memory ?st n) = 0"
    by (simp add: active_on_def all_reservations_def filter_empty_conv)
  then show "node_reserved (co_runtime c) n = 0" by (simp add: node_reserved_def unat_eq_zero)
  let ?keys = "map fst (om_entries (wr_workers ?g))"
  have "set ?keys \<subseteq> {Id 10, Id 20}" using assms by (force simp: scene_def om.entries_iff)
  then have "card (set ?keys) \<le> card {Id 10, Id 20 :: WorkerId}" by (intro card_mono) simp_all
  then have "length (all_workers ?g) \<le> 2"
    using distinct_card [OF ascending_distinct [OF om_entries_ascending, of "wr_workers ?g"]] by (simp add: all_workers_def om_values_def)
  moreover have "id_valid (wk_id w)" if "w \<in> set (all_workers ?g)" for w
    using that assms by (auto simp: scene_def registry_inv_iff entry_ok_def all_workers_def om_values_set)
  ultimately show "persistable (persisted_state (co_runtime c))"
    using res by (auto simp: persistable_def persisted_state_def persisted_worker_def kMaxPersistedRecords_def)
qed

lemma no_devices: "be_enumerate_accelerators make_synthetic_backend (new_synthetic (cli_config 2 8)) = []"
  by (simp add: make_synthetic_backend_def new_synthetic_def syn_enumerate_accelerators_def cli_config_def)

lemma stage_second:
  assumes h: "discover_host (cli_config 2 8) = Inr h" and pv: "proof_ready pv" and s: "scene h m nb nc e c"
    and path: "proof_state_path (pv_args pv) \<noteq> ''''" "\<forall>ch\<in>set (proof_state_path (pv_args pv)). \<not> blank ch"
    and "pv_save pv = \<lparr>env_open = True, env_write = WriteOk, env_rename = True\<rparr>"
    and bind: "cv_bind (pv_coordinator pv) 0 = \<lparr>be_startup = True, be_socket = True, be_bind = True, be_listen = True, be_port = port\<rparr>"
      "cv_port_file (pv_coordinator pv)" and "port \<noteq> 0"
  shows "second_coordinator os o0 pv fs c = Passed"
proof -
  let ?path = "proof_state_path (pv_args pv)" and ?dir = "exe_dir (pv_self pv)" and ?pf = "''coord2.portfile''" and ?s = "co_runtime c"
  let ?opts = "\<lparr>cp_backend = ''synthetic'', cp_nodes = 2, cp_procs = 8, cp_port = 0, cp_recover = ?path, cp_port_file = ?pf\<rparr>"
  note q = quiet_persisted [OF s]
  obtain bs where "serialize (persisted_state ?s) = Inr bs" using serialize_total [OF q(1)] by blast
  then obtain fs' where fs': "persist (pv_save pv) ?path ?s fs = (fs', Inr ())" using assms(6) by (simp add: persist_def save_def Let_def)
  have inv: "registry_inv (rt_registry ?s)" "store_inv (rt_reservations ?s)" "rt_topo ?s = h" "rt_policy_generation ?s = 1"
    using s by (simp_all add: scene_def worker_room_def quiet_def)
  have disc: "be_discover_host make_synthetic_backend (new_synthetic (cli_config 2 8)) = Inr (rt_topo ?s)"
    "be_enumerate_accelerators make_synthetic_backend (new_synthetic (cli_config 2 8)) = []"
    using h inv(3) no_devices by (simp_all add: make_synthetic_backend_def new_synthetic_def)
  from start_recovers [where opts = ?opts and env = "pv_coordinator pv" and port = port and sv = "pv_save pv" and fs = fs and fs' = fs' and s = ?s
      and b = "new_synthetic (cli_config 2 8)", OF inv(1,2) q(1) _ _ disc(1)]
  obtain d out where d: "coordinator_start make_synthetic_backend (new_synthetic (cli_config 2 8)) (pv_coordinator pv) ?opts fs'
      = Serving d (Some (line [std_to_string port])) out" "registry_inv (registry_of d)" "rt_policy_generation (co_runtime d) = 1"
    "rt_topo (co_runtime d) = h" "rt_accelerators (co_runtime d) = []" "rt_reservations (co_runtime d) = empty_store"
    using fs' q(2,3) path(1) bind inv(3,4) disc(2) by auto
  have "coordinator_args (spawned_args ?dir (coord_cmd ?pf ?path)) default_coordinator_options = Some ?opts"
    by (rule coord_cmd_understood [OF path]) (use pv in \<open>simp_all add: proof_ready_def blank_def\<close>)
  then have main: "coordinator_main os o0 (pv_coordinator pv) (spawned_args ?dir (coord_cmd ?pf ?path)) fs' = Some (Inl (Serving d (Some (line [std_to_string port])) out))"
    using d(1) by (simp add: coordinator_main_def)
  have "quiet h d" "worker_room 33554432 (Suc 0) (rt_reservations (co_runtime d))"
    using d(3-6) empty_store_inv by (simp_all add: quiet_def worker_room_def empty_store_def om_bal_def)
  moreover have "wr_next_boot (registry_of d) \<noteq> 0" using d(2) by (auto simp: registry_inv_def)
  ultimately obtain st conn f where "spawn_worker pv port 10 ''proof_a3.marker'' (d, 0) = (st, conn, f)" "marker_has f ''DONE=true''"
    by (rule spawn_started [OF h, of d 0 "''proof_a3.marker''" 10 port pv 0]) (use pv assms(9) in \<open>auto simp: proof_ready_def blank_def\<close>)
  then show ?thesis using fs' main port_read [of port] by (simp add: second_coordinator_def port_of_u32)
qed

section \<open>The program passes\<close>

lemma scene_start:
  assumes "discover_host (cli_config 2 8) = Inr h"
  shows "scene h 3 1 1 1 ((new_coordinator (new_synthetic (cli_config 2 8)))\<lparr>co_runtime :=
    refresh_accelerators make_synthetic_backend ((new_runtime (new_synthetic (cli_config 2 8)))\<lparr>rt_topo := h\<rparr>),
    co_port := port, co_listening := True, co_running := True, co_accepting := True\<rparr>)"
  using empty_store_inv empty_registry_inv no_devices
  by (simp add: scene_def quiet_def new_coordinator_def refresh_accelerators_def new_runtime_def worker_room_def empty_registry_def
      empty_store_def om_bal_def)

lemma scenario_passes:
  fixes c :: "SyntheticBackend Coordinator"
  assumes h: "discover_host (cli_config 2 8) = Inr h" and pv: "proof_ready pv" and s: "scene h 3 1 1 1 c" and port: "port \<noteq> 0"
    and path: "proof_state_path (pv_args pv) \<noteq> ''''" "\<forall>ch\<in>set (proof_state_path (pv_args pv)). \<not> blank ch"
    and "pv_save pv = \<lparr>env_open = True, env_write = WriteOk, env_rename = True\<rparr>"
    and bind: "cv_bind (pv_coordinator pv) 0 = \<lparr>be_startup = True, be_socket = True, be_bind = True, be_listen = True, be_port = port2\<rparr>"
      "cv_port_file (pv_coordinator pv)" and "port2 \<noteq> 0"
  shows "proof_scenario os o0 pv fs port (c, k) = Passed"
proof -
  have "scene h (Suc (Suc 1)) 1 1 1 c" using s by (simp add: numeral_3_eq_3)
  then obtain c1 k1 where a: "start_workers pv port (c, k) = Inr (Id 1, 1 + 1, Id 2, 1 + 2, (c1, k1))"
    "scene h 1 3 (1 + 2) 1 c1" "lives (Id 10) 1 (1 + 1) c1" "lives (Id 20) 2 (1 + 2) c1"
    by (rule stage_workers [OF h pv _ port])
  obtain c2 where b: "lose_first (1 + 1) (Id 2) (c1, k1) = Inr (c2, k1)" "scene h 1 3 (1 + 2) 1 c2" "lives (Id 20) 2 (1 + 2) c2"
    "\<not> validate_boot (registry_of c2) (Id 10) (Id 1)"
    by (rule stage_loss [OF a(2-4), of k1]) simp_all
  obtain c3 k3 where r: "replay_stale pv (Id 1) (Id 2) (c2, k1) = Inr (1 + 1, (c3, k3))" "scene h 1 3 (1 + 2 + 2) (1 + 1) c3" "lives (Id 20) 2 (1 + 2) c3"
    by (rule stage_stale [OF pv b(2) _ b(3) _ _ b(4), of k1]) simp_all
  have "scene h (Suc 0) 3 (1 + 2 + 2) (1 + 1) c3" using r(2) by simp
  then obtain c4 k4 where q: "restart_first pv port (Id 1) (1 + 1) (c3, k3) = Inr (1 + 2 + 2 + 1, (c4, k4))" "scene h 0 (3 + 1) (1 + 2 + 2 + 2) (1 + 1) c4"
    "lives (Id 10) 3 (1 + 2 + 2 + 1) c4" "lives (Id 20) 2 (1 + 2) c4"
    by (rule stage_restart [OF h pv _ _ _ port _ r(3), of 0 3 "1 + 2 + 2" "1 + 1" 1 k3]) simp_all
  note killB = kill_scene [OF q(2,4)]
  have "lives (Id 10) 3 (1 + 2 + 2 + 1) (lose_connection (1 + 2) c4)" using killB(4) q(3) by simp
  from kill_scene(1) [OF killB(1) this] have "scene h 0 (3 + 1) (1 + 2 + 2 + 2) (1 + 1) (lose_connection (1 + 2 + 2 + 1) (lose_connection (1 + 2) c4))" by simp
  note stage_second [OF h pv this path assms(7) bind assms(10), of os o0 fs]
  with a(1) b(1) r(1) q(1) show ?thesis by (simp add: proof_scenario_def pbind_def kill_process_def)
qed



end
