(* ===== verification/Spec2Isabelle.thy ===== *)
theory Spec2Isabelle
  imports Windows_Memory Cuda_Proof Proof_Run
begin

text \<open>
  \<^bold>\<open>NUMA Fabric\<close> places work and memory on the NUMA nodes of a host. This development models its C++
  library (\<open>src/include/numafabric\<close> and \<open>src/src\<close>) and the programs over it (\<open>src/apps\<close>), and proves what
  makes their parts correct.

  \<^bold>\<open>The parts and how they interact.\<close> A \<^emph>\<open>backend\<close> is the interface to a host: it discovers the
  topology, allocates memory and sets thread affinity. The \<^emph>\<open>runtime\<close> owns one backend and composes
  the topology, the memory manager, the worker registry, the reservation store, the placement
  engine and the migration manager. The \<^emph>\<open>coordinator\<close> serves a runtime over framed TCP: one thread per
  connection decodes frames, checks the authority of the worker (its boot), calls the runtime and
  answers. A \<^emph>\<open>worker session\<close> is the client of that protocol. Authority is carried by generations: a
  worker that registers or restarts gets a fresh boot, and requests with an old boot are refused.
  The authoritative state is written to a checksummed file and read back after a restart.

  \<^bold>\<open>Foundations.\<close>
  \<^item> \<open>Prelude\<close>: words, the exceptions of all parts as the datatype of errors, results as sums, outcomes
    (a state and a result), decimal text, little-endian bytes. \<open>Ordered_Map\<close>: \<open>std::map\<close> as a type of
    strictly sorted association lists; a locale states the laws of a store and the sums over its
    values, the type interprets it. \<open>Ledger\<close>: accounts with debits and credits as a locale.
    \<open>Step_System\<close>: runs of step relations and their invariants as a locale.
  \<^item> \<open>Core_Ids\<close>, \<open>Core_Quantities\<close>, \<open>Core_Enums\<close> (\<open>core/ids.hpp\<close>, \<open>quantities.hpp\<close>, \<open>enums.hpp\<close>,
    \<open>provenance.hpp\<close>, \<open>freshness.hpp\<close>): tagged identifiers and generations, checked arithmetic with its
    exceptions, the enumerations with their text forms and codes.
  \<^item> \<open>Binary64\<close>: the \<open>double\<close> arithmetic that placement and JSON use, as rounding of rational numbers;
    integers below 2^53 are exact.

  \<^bold>\<open>Components.\<close>
  \<^item> \<open>Topology\<close> (\<open>core/digest.hpp\<close>, \<open>topology/topology.hpp\<close>, \<open>topology_impl.cpp\<close>): FNV-1a digest, host
    topology, canonical order, validation, snapshots. Canonical form and digest do not depend on the
    order of discovery; validation accepts exactly the consistent topologies.
  \<^item> \<open>Affinity\<close> (\<open>affinity/affinity_set.hpp\<close>): group masks in normal form; updates change exactly the
    processors they name.
  \<^item> \<open>Backend\<close>, \<open>Synthetic_Backend\<close> (\<open>backend/backend.hpp\<close>, \<open>synthetic_backend.cpp\<close>): the interface as a
    record of operations, the locale \<open>allocator\<close> with the promises that the memory manager needs, and
    the synthetic backend that interprets it and never hands out more than a node has.
  \<^item> \<open>Windows_Backend\<close>, \<open>Scoped_Affinity\<close> (\<open>windows_backend.cpp\<close>, the scoped objects of
    \<open>affinity/worker.hpp\<close> and \<open>runtime.cpp\<close>): the calls of the operating system are a record of functions
    over a state of its own, with their documented behaviour as hypotheses. Discovery succeeds exactly
    when the system describes its host, and then is exact. Nested scoped bindings give back the
    affinity before them; the locale \<open>affinity_host\<close> states what they need of a backend.
    \<open>Windows_Memory\<close>: with a virtual memory that behaves as documented, the Windows backend keeps the
    contract of the runtime, and no page leaks or is freed twice under any run of runtime calls.
  \<^item> \<open>Cuda_Proof\<close> (\<open>cuda_backend.cu\<close>): enumeration and the proof run, with the results of the CUDA
    interface and the order of the threads as arguments.
  \<^item> \<open>Memory_Manager\<close>, \<open>Memory_Safety\<close> (\<open>memory/*.hpp\<close>, \<open>memory_manager.cpp\<close>): regions with their state
    machine, allocate, release, transition and the phases of \<open>governed_reallocate\<close>, over any allocator.
    No buffer leaks and none is freed twice; a migration commits or keeps the original; the accounting
    closes. \<open>Migration\<close> (\<open>migration/migration.hpp\<close>): attempts; every run refines a run of the memory
    manager, and a resolved attempt is final.
  \<^item> \<open>Worker_Registry\<close> (\<open>affinity/worker.hpp\<close>, \<open>worker_registry.cpp\<close>): boots and incarnations; an old boot is
    never accepted again. \<open>Reservation_Store\<close> (\<open>reservation/*.hpp\<close>, \<open>reservation_store.cpp\<close>): no node with a
    known capacity is oversubscribed; a reservation is released at most once; the accounting closes.
  \<^item> \<open>Placement\<close> (\<open>placement/*.hpp\<close>, \<open>placement_engine.cpp\<close>): constraints, weighted costs, ranking. A decision
    satisfies every hard constraint, names an eligible node of least cost, and does not depend on the
    order of the nodes; with the default weights the cost is exact below 2^53.
  \<^item> \<open>Wire\<close>, \<open>Crc32\<close>, \<open>Protocol_Frame\<close> (\<open>protocol/*.hpp\<close>, \<open>protocol_frame.cpp\<close>): payload codec, CRC-32 by table
    and by bits, frames. Every chunking of a stream gives back its frames; a changed byte outside the
    length field is detected.
  \<^item> \<open>Persistence\<close> (\<open>persistence/*.hpp\<close>, \<open>persistence_store.cpp\<close>): binary form, container, save and load over
    a file system whose call outcomes are arguments. A save is atomic for all of them; damaged files
    are rejected.
  \<^item> \<open>Json\<close>, \<open>Json_Roundtrip\<close> (\<open>core/json.hpp\<close>): value, writer, parser. The parser answers on every text,
    returns well-formed values only, and reads back what the writer wrote.
  \<^item> \<open>Runtime\<close>, \<open>Runtime_Safety\<close>, \<open>Recovery\<close>, \<open>Runtime_Report\<close> (\<open>runtime/runtime.hpp\<close>, \<open>runtime.cpp\<close>): the
    composition. The guarantees of the components hold together after every run; decisions respect the
    active reservations; what \<open>persist\<close> writes \<open>recover\<close> restores; the JSON summary is exact.
  \<^item> \<open>Coordinator\<close>, \<open>Coordinator_Safety\<close> (\<open>coordinator/*.hpp\<close>, \<open>coordinator.cpp\<close>): every request handler, the
    connection loop, acceptance, loss and shutdown. The loop refines the sequential handler; every
    request is answered; the loss of a connection ends exactly its worker; an old incarnation has no
    effect over the wire. \<open>Worker_Session\<close> (\<open>worker/worker.hpp\<close>, \<open>worker.cpp\<close>): the client; registration
    and reservation are proved end to end, through encoding, transport, handler and decoding.

  \<^bold>\<open>Programs.\<close>
  \<^item> \<open>Program_Args\<close>: the conversions of the standard library from text to numbers, which read back what
    \<open>std::to_string\<close> wrote. \<open>Nf_Cli\<close> (\<open>apps/nf/main.cpp\<close>): the command line with all its commands; its exit
    code tells what happened, and the commands that take memory or capacity give it back.
  \<^item> \<open>Worker_App\<close>, \<open>Worker_App_Safety\<close> (\<open>apps/worker/main.cpp\<close>): the worker process over a peer with a
    state. With the coordinator as the peer, through encoding, transport, handlers and store, a run
    leaves no reservation behind.
  \<^item> \<open>Coordinator_App\<close> (\<open>apps/coordinator/main.cpp\<close>): start with discovery and recovery, port file, end.
    \<open>Nf_Proof\<close>, \<open>Proof_Run\<close> (\<open>apps/proof/main.cpp\<close>): its processes understand their command lines, the boot
    it reads from a marker file is the one the coordinator holds, its probes tell exactly stale
    epochs and boots, and the coordinator it restarts has the saved state and is found by its port
    file. The scenario is run in one schedule, with two coordinators and four workers, and passes.

  \<^bold>\<open>Conventions.\<close> A C++ struct is a record with a prefix for its fields, an enumeration a datatype with a
  prefix for its constructors. Integers keep their width as words, so that wrap-around is visible. An
  operation that changes state and may throw returns the state and a result, since several operations
  write before they throw. Methods under a mutex are one step; where the code gives up its lock
  inside an operation (\<open>governed_reallocate\<close>) the phases are separate steps. Time, sockets, files, the
  operating system and CUDA are arguments.

  \<^bold>\<open>Bounds and fuel.\<close> The JSON parser has fuel of twice the length of the text plus one; a theorem shows
  that this is always enough and that more changes nothing. All other loops are structural or have a
  measure. Theorems on fresh identifiers exclude the exhaustion of the 64-bit counters; theorems on
  \<open>double\<close> values name the bound of 2^53.

  \<^bold>\<open>What the code does not do.\<close> Some theorems record behaviour that the comments or the README exclude,
  among them a release inside a migration that revives the region, exceptions that leave the
  connection thread, wrap-around in the capacity check, identifiers reused after a recovery, free
  memory that Windows nodes report for their neighbour, white space inside JSON literals, and a
  coordinator process that never ends cleanly.

  \<^bold>\<open>Not modelled.\<close> Of the proof program the schedules in which its worker processes overlap; examples
  and benchmarks, which only show and time the library; the bytes that a migration copies and an allocation touches; threads
  inside one request of the coordinator; subnormal \<open>double\<close> values; the clock.
\<close>

end
